(* ===== verification/Go_Prelude.thy ===== *)
theory Go_Prelude
  imports Main "HOL-Library.List_Lexorder" "HOL-Library.Char_ord"
begin

text \<open>
  Shared vocabulary of the development: Go's error values, the result type of fallible calls,
  and Go maps. Everything here models the language and its standard library; nothing in it is
  specific to the driver.

  \<^item> \<open>goerr\<close> is Go's \<open>error\<close>: the sentinels the driver tests with \<open>errors.Is\<close>, errors of
    libraries, and errors built by \<open>fmt.Errorf\<close> without (\<open>Errorf\<close>) and with (\<open>Wrapf\<close>) a
    \<open>%w\<close> verb. A formatted error keeps its format and its arguments instead of the rendered text.
  \<^item> \<open>'a result\<close> is \<open>(value, error)\<close>: \<open>Inl\<close> an error, \<open>Inr\<close> a value.
  \<^item> \<open>('k, 'v) gomap\<close> is a Go map, kept as an association list with strictly increasing keys, so
    that two maps with the same entries are the same list and \<open>DeepEqual\<close> on them is \<open>=\<close>.
\<close>

named_theorems go_eval \<open>equations that evaluate the Go run-time model on literals\<close>

section \<open>Errors and results\<close>

datatype goerr =
    ErrNotExist string
  | OsError string string
  | ErrUnsupportedDevice
  | ErrCanceled
  | ErrLib string
  | Errorf string "string list"
  | Wrapf string "string list" goerr

type_synonym 'a result = "goerr + 'a"

text \<open>\<open>errors.Is(err, os.ErrNotExist)\<close> follows the \<open>%w\<close> chain; \<open>os.IsNotExist(err)\<close> does not.\<close>

fun errors_Is_NotExist :: "goerr \<Rightarrow> bool" where
  "errors_Is_NotExist (ErrNotExist p) = True"
| "errors_Is_NotExist (Wrapf f args e) = errors_Is_NotExist e"
| "errors_Is_NotExist e = False"

fun os_IsNotExist :: "goerr \<Rightarrow> bool" where
  "os_IsNotExist (ErrNotExist p) = True"
| "os_IsNotExist e = False"

fun errors_Is_Unsupported :: "goerr \<Rightarrow> bool" where
  "errors_Is_Unsupported ErrUnsupportedDevice = True"
| "errors_Is_Unsupported (Wrapf f args e) = errors_Is_Unsupported e"
| "errors_Is_Unsupported e = False"

text \<open>\<open>errors.Is(err, context.Canceled)\<close>.\<close>

fun errors_Is_Canceled :: "goerr \<Rightarrow> bool" where
  "errors_Is_Canceled ErrCanceled = True"
| "errors_Is_Canceled (Wrapf f args e) = errors_Is_Canceled e"
| "errors_Is_Canceled e = False"

lemma notexist_not_unsupported [simp]:
  "errors_Is_NotExist e \<Longrightarrow> \<not> errors_Is_Unsupported e"
  by (induction e rule: errors_Is_NotExist.induct) auto

lemma case_sum_Inr_iff:
  "(case r of Inl e \<Rightarrow> Inl e | Inr x \<Rightarrow> f x) = Inr y \<longleftrightarrow> (\<exists>x. r = Inr x \<and> f x = Inr y)"
  by (cases r) auto

section \<open>Go maps\<close>

type_synonym ('k, 'v) gomap = "('k \<times> 'v) list"

definition gm_ok :: "('k::linorder, 'v) gomap \<Rightarrow> bool" where
  "gm_ok m \<longleftrightarrow> sorted_wrt (<) (map fst m)"

definition gm_empty :: "('k::linorder, 'v) gomap" where
  "gm_empty = []"

definition gm_get :: "('k::linorder, 'v) gomap \<Rightarrow> 'k \<Rightarrow> 'v option" where
  "gm_get m k = map_of m k"

fun gm_put :: "'k::linorder \<Rightarrow> 'v \<Rightarrow> ('k, 'v) gomap \<Rightarrow> ('k, 'v) gomap" where
  "gm_put k v [] = [(k, v)]"
| "gm_put k v ((k', v') # m) =
     (if k < k' then (k, v) # (k', v') # m
      else if k = k' then (k, v) # m
      else (k', v') # gm_put k v m)"

definition gm_del :: "'k::linorder \<Rightarrow> ('k, 'v) gomap \<Rightarrow> ('k, 'v) gomap" where
  "gm_del k m = filter (\<lambda>(k', v). k' \<noteq> k) m"

definition gm_keys :: "('k::linorder, 'v) gomap \<Rightarrow> 'k list" where
  "gm_keys m = map fst m"

lemma map_of_gm_put: "map_of (gm_put k v m) = (map_of m)(k \<mapsto> v)"
  by (induction k v m rule: gm_put.induct) auto

lemma map_of_filter_ne: "map_of (filter (\<lambda>(k', v). k' \<noteq> k) m) = (map_of m)(k := None)"
  by (induction m) auto

lemma set_keys_gm_put: "fst ` set (gm_put k v m) = insert k (fst ` set m)"
  by (induction k v m rule: gm_put.induct) auto

lemma gm_ok_Nil [simp]: "gm_ok []"
  by (simp add: gm_ok_def)

lemma gm_ok_Cons [simp]: "gm_ok (p # m) \<longleftrightarrow> (\<forall>k' \<in> fst ` set m. fst p < k') \<and> gm_ok m"
  by (simp add: gm_ok_def)

lemma gm_ok_put: "gm_ok m \<Longrightarrow> gm_ok (gm_put k v m)"
  by (induction k v m rule: gm_put.induct) (auto simp: set_keys_gm_put simp del: image_iff)

lemma gm_ok_del: "gm_ok m \<Longrightarrow> gm_ok (gm_del k m)"
  unfolding gm_del_def by (induction m) auto

text \<open>Maps with increasing keys are extensional: equal lookups, equal lists.\<close>

lemma gm_ext:
  assumes "gm_ok m" and "gm_ok n" and "map_of m = map_of n"
  shows "m = n"
  using assms
proof (induction m arbitrary: n)
  case Nil
  then show ?case
    by (cases n) (auto simp: fun_eq_iff split: if_splits)
next
  case (Cons p m)
  obtain k v where p: "p = (k, v)" by fastforce
  have "map_of n k = Some v"
    using fun_cong [OF Cons.prems(3), of k] p by simp
  then obtain k' v' n' where n: "n = (k', v') # n'"
    by (cases n) auto
  have least: "k \<notin> fst ` set m" "k' \<notin> fst ` set n'"
    using Cons.prems(1,2) p n by auto
  have eq: "(map_of m)(k \<mapsto> v) = (map_of n')(k' \<mapsto> v')"
    using Cons.prems(3) p n by (simp add: fun_upd_def)
  have "k = k'"
  proof (rule ccontr)
    assume ne: "k \<noteq> k'"
    have "k \<in> fst ` set n'"
      using fun_cong [OF eq, of k] ne by (metis fun_upd_other fun_upd_same map_of_eq_None_iff option.simps(3))
    moreover have "k' \<in> fst ` set m"
      using fun_cong [OF eq, of k'] ne by (metis fun_upd_other fun_upd_same map_of_eq_None_iff option.simps(3))
    ultimately have "k' < k" "k < k'"
      using Cons.prems(1,2) p n by auto
    then show False by simp
  qed
  moreover from this have "v = v'"
    using fun_cong [OF eq, of k] by simp
  moreover have "map_of m = map_of n'"
    using eq least \<open>k = k'\<close> by (metis fun_upd_triv fun_upd_upd map_of_eq_None_iff)
  ultimately show ?case
    using Cons.IH [of n'] Cons.prems(1,2) p n by auto
qed

subsection \<open>The map interface\<close>

text \<open>
  What the driver relies on when it uses a Go map: the laws of lookup, store and delete, and
  what follows for the two idioms of the code, indexing a slice by a key
  (\<open>for _, d := range xs { m[key(d)] = d }\<close>) and a set built as \<open>map[string]bool\<close>.
\<close>

lemma find_SomeD: "find P xs = Some x \<Longrightarrow> x \<in> set xs \<and> P x"
  by (induction xs) (auto split: if_splits)

locale keyed_store =
  fixes empty :: "'m"
    and get :: "'m \<Rightarrow> 'k \<Rightarrow> 'v option"
    and put :: "'k \<Rightarrow> 'v \<Rightarrow> 'm \<Rightarrow> 'm"
    and del :: "'k \<Rightarrow> 'm \<Rightarrow> 'm"
    and ok :: "'m \<Rightarrow> bool"
  assumes get_empty: "get empty k = None"
    and get_put: "get (put k v m) k' = (if k' = k then Some v else get m k')"
    and get_del: "get (del k m) k' = (if k' = k then None else get m k')"
    and ok_empty: "ok empty"
    and ok_put: "ok m \<Longrightarrow> ok (put k v m)"
    and ok_del: "ok m \<Longrightarrow> ok (del k m)"
    and ext: "ok m \<Longrightarrow> ok n \<Longrightarrow> (\<And>k. get m k = get n k) \<Longrightarrow> m = n"
begin

lemma put_del_cancel: "ok m \<Longrightarrow> get m k = None \<Longrightarrow> del k (put k v m) = m"
  by (rule ext) (auto simp: ok_put ok_del get_put get_del)

lemma put_same: "ok m \<Longrightarrow> get m k = Some v \<Longrightarrow> put k v m = m"
  by (rule ext) (auto simp: ok_put get_put)

lemma del_absent: "ok m \<Longrightarrow> get m k = None \<Longrightarrow> del k m = m"
  by (rule ext) (auto simp: ok_del get_del)

lemma get_fold_put:
  "get (fold (\<lambda>x m. put (key x) (val x) m) xs m0) k =
     (case find (\<lambda>x. key x = k) (rev xs) of Some x \<Rightarrow> Some (val x) | None \<Rightarrow> get m0 k)"
proof (induction xs rule: rev_induct)
  case Nil
  then show ?case by simp
next
  case (snoc x xs)
  then show ?case by (simp add: get_put)
qed

lemma ok_fold_put: "ok m0 \<Longrightarrow> ok (fold (\<lambda>x m. put (key x) (val x) m) xs m0)"
  by (induction xs arbitrary: m0) (auto simp: ok_put)

lemma get_index_None:
  "get (fold (\<lambda>x m. put (key x) (val x) m) xs empty) k = None \<longleftrightarrow> k \<notin> key ` set xs"
proof -
  have "find (\<lambda>x. key x = k) (rev xs) = None \<longleftrightarrow> k \<notin> key ` set xs"
    by (auto simp: find_None_iff)
  then show ?thesis
    by (auto simp: get_fold_put get_empty split: option.split)
qed

lemma get_index_Some:
  "get (fold (\<lambda>x m. put (key x) (val x) m) xs empty) k = Some y \<Longrightarrow>
     \<exists>x\<in>set xs. key x = k \<and> val x = y"
  using find_SomeD [of "\<lambda>x. key x = k" "rev xs"]
  by (auto simp: get_fold_put get_empty split: option.splits)

lemma get_index_distinct:
  assumes "distinct (map key xs)" and "x \<in> set xs"
  shows "get (fold (\<lambda>x m. put (key x) (val x) m) xs empty) (key x) = Some (val x)"
proof -
  obtain y where y: "find (\<lambda>y. key y = key x) (rev xs) = Some y"
    using assms(2) by (cases "find (\<lambda>y. key y = key x) (rev xs)") (auto simp: find_None_iff)
  then have "y \<in> set xs" "key y = key x"
    using find_SomeD [OF y] by auto
  with assms have "y = x"
    by (metis distinct_map inj_onD)
  with y show ?thesis by (simp add: get_fold_put)
qed

end

interpretation gm: keyed_store gm_empty gm_get gm_put gm_del gm_ok
proof unfold_locales
  fix m n :: "('k::linorder, 'v) gomap"
  assume "gm_ok m" "gm_ok n" "\<And>k. gm_get m k = gm_get n k"
  then show "m = n" by (intro gm_ext) (auto simp: gm_get_def fun_eq_iff)
qed (auto simp: gm_get_def gm_empty_def gm_del_def map_of_gm_put map_of_filter_ne
       intro: gm_ok_put gm_ok_del [unfolded gm_del_def])

lemmas gm_laws [simp] = gm.get_empty gm.get_put gm.get_del gm.ok_empty gm.ok_put gm.ok_del

lemma gm_get_Nil [simp]: "gm_get [] k = None"
  by (simp add: gm_get_def)

lemma gm_get_Cons [go_eval]: "gm_get ((k, v) # m) k' = (if k' = k then Some v else gm_get m k')"
  by (simp add: gm_get_def)

text \<open>A \<open>map[string]bool\<close> used as a set: \<open>len\<close> of it counts the distinct members.\<close>

definition gm_set_of :: "'k::linorder list \<Rightarrow> ('k, bool) gomap" where
  "gm_set_of ks = fold (\<lambda>k m. gm_put k True m) ks gm_empty"

definition gm_has :: "('k::linorder, bool) gomap \<Rightarrow> 'k \<Rightarrow> bool" where
  "gm_has m k \<longleftrightarrow> gm_get m k = Some True"

lemma gm_has_put [simp]: "gm_has (gm_put k True m) k' \<longleftrightarrow> k' = k \<or> gm_has m k'"
  by (simp add: gm_has_def)

lemma gm_has_empty [simp]: "\<not> gm_has gm_empty k" "\<not> gm_has [] k"
  by (simp_all add: gm_has_def)

lemma gm_has_fold:
  "gm_has (fold (\<lambda>k m. gm_put k True m) ks m) k \<longleftrightarrow> k \<in> set ks \<or> gm_has m k"
  by (induction ks arbitrary: m) auto

lemma gm_has_set_of [simp]: "gm_has (gm_set_of ks) k \<longleftrightarrow> k \<in> set ks"
  by (simp add: gm_set_of_def gm_has_fold)

lemma gm_keys_distinct: "gm_ok m \<Longrightarrow> distinct (gm_keys m)"
  unfolding gm_ok_def gm_keys_def
  by (simp add: strict_sorted_iff)

lemma length_gm_keys [simp]: "length (gm_keys m) = length m"
  by (simp add: gm_keys_def)

lemma set_gm_keys: "set (gm_keys m) = {k. gm_get m k \<noteq> None}"
  by (auto simp: gm_keys_def gm_get_def map_of_eq_None_iff image_iff) 

lemma gm_set_of_keys: "gm_ok (gm_set_of ks) \<and> set (gm_keys (gm_set_of ks)) = set ks"
proof -
  have 1: "gm_ok (gm_set_of ks)"
    unfolding gm_set_of_def by (rule gm.ok_fold_put [where key = "\<lambda>k. k"]) simp
  have "gm_get (gm_set_of ks) k = None \<longleftrightarrow> k \<notin> set ks" for k
    unfolding gm_set_of_def
    using gm.get_index_None [where key = "\<lambda>k. k" and val = "\<lambda>_. True" and xs = ks and k = k]
    by simp
  then show ?thesis using 1 by (auto simp: set_gm_keys)
qed

lemma length_gm_set_of: "length (gm_set_of ks) = card (set ks)"
  using gm_set_of_keys [of ks] gm_keys_distinct [of "gm_set_of ks"]
  by (metis distinct_card length_gm_keys)

end
