(* ===== verification/Go_Strings.thy ===== *)
theory Go_Strings
  imports Go_Prelude
begin

text \<open>
  The parts of Go's \<open>strings\<close>, \<open>strconv\<close>, \<open>path/filepath\<close> and \<open>regexp\<close> packages that the driver
  calls, on byte strings (\<open>string\<close> is a list of bytes). Case mapping and white space are those of
  ASCII, which is what PCI addresses, sysfs values and log levels are made of; on other bytes Go
  decodes UTF-8 and the model makes no claim. Integers of \<open>strconv\<close> are \<open>int\<close> with the 64-bit
  range check written out. The lemmas give the round trips and injectivity facts the components
  use.
\<close>

section \<open>strings\<close>

definition lower_char :: "char \<Rightarrow> char" where
  "lower_char c = (if 65 \<le> (of_char c :: nat) \<and> (of_char c :: nat) \<le> 90
                   then char_of ((of_char c :: nat) + 32) else c)"

definition ToLower :: "string \<Rightarrow> string" where
  "ToLower s = map lower_char s"

definition EqualFold :: "string \<Rightarrow> string \<Rightarrow> bool" where
  "EqualFold a b \<longleftrightarrow> ToLower a = ToLower b"

definition is_space :: "char \<Rightarrow> bool" where
  "is_space c \<longleftrightarrow> (of_char c :: nat) \<in> {9, 10, 11, 12, 13, 32}"

definition TrimSpace :: "string \<Rightarrow> string" where
  "TrimSpace s = rev (dropWhile is_space (rev (dropWhile is_space s)))"

text \<open>\<open>strings.Cut\<close> with a one-byte separator: what is before it, what is after it, whether it occurs.\<close>

fun Cut :: "char \<Rightarrow> string \<Rightarrow> string \<times> string \<times> bool" where
  "Cut sep [] = ([], [], False)"
| "Cut sep (c # s) = (if c = sep then ([], s, True)
                      else case Cut sep s of (b, a, ok) \<Rightarrow> (c # b, a, ok))"

fun CutPrefix :: "string \<Rightarrow> string \<Rightarrow> string \<times> bool" where
  "CutPrefix s [] = (s, True)"
| "CutPrefix [] (p # ps) = ([], False)"
| "CutPrefix (c # s) (p # ps) =
     (if c = p then case CutPrefix s ps of (r, ok) \<Rightarrow> (if ok then (r, True) else (c # s, False))
      else (c # s, False))"

definition TrimPrefix :: "string \<Rightarrow> string \<Rightarrow> string" where
  "TrimPrefix s p = fst (CutPrefix s p)"

text \<open>\<open>strings.Split\<close> on one byte: always at least one segment.\<close>

fun Split :: "char \<Rightarrow> string \<Rightarrow> string list" where
  "Split sep [] = [[]]"
| "Split sep (c # s) =
     (if c = sep then [] # Split sep s
      else case Split sep s of [] \<Rightarrow> [[c]] | w # ws \<Rightarrow> (c # w) # ws)"

fun Join_with :: "string \<Rightarrow> string list \<Rightarrow> string" where
  "Join_with sep [] = []"
| "Join_with sep [w] = w"
| "Join_with sep (w # v # ws) = w @ sep @ Join_with sep (v # ws)"

lemma lower_char_idem [simp]: "lower_char (lower_char c) = lower_char c"
proof (cases "65 \<le> (of_char c :: nat) \<and> (of_char c :: nat) \<le> 90")
  case True
  then have "(of_char (char_of ((of_char c :: nat) + 32)) :: nat) = of_char c + 32"
    by (simp add: of_char_of)
  with True show ?thesis by (simp add: lower_char_def)
qed (auto simp: lower_char_def)

lemma ToLower_idem [simp]: "ToLower (ToLower s) = ToLower s"
  by (simp add: ToLower_def)

lemma length_ToLower [simp]: "length (ToLower s) = length s"
  by (simp add: ToLower_def)

lemma ToLower_append [simp]: "ToLower (a @ b) = ToLower a @ ToLower b"
  by (simp add: ToLower_def)

lemma EqualFold_refl [simp]: "EqualFold a a"
  by (simp add: EqualFold_def)

lemma EqualFold_sym: "EqualFold a b \<longleftrightarrow> EqualFold b a"
  unfolding EqualFold_def by (rule eq_commute)

lemma CutPrefix_iff: "CutPrefix s p = (r, True) \<longleftrightarrow> s = p @ r"
proof (induction s p arbitrary: r rule: CutPrefix.induct)
  case (3 c s p ps)
  obtain r' ok where r': "CutPrefix s ps = (r', ok)" by fastforce
  show ?case
  proof (cases "c = p")
    case True
    with "3.IH" [OF True, of r] r' show ?thesis by (cases ok) simp_all
  qed auto
qed auto

lemma CutPrefix_False: "CutPrefix s p = (r, False) \<Longrightarrow> r = s"
  by (induction s p arbitrary: r rule: CutPrefix.induct) (auto split: prod.splits if_splits)

lemma Split_nonempty [simp]: "Split sep s \<noteq> []"
  by (cases s) (auto split: list.splits)

lemma Split_no_sep: "w \<in> set (Split sep s) \<Longrightarrow> sep \<notin> set w"
  by (induction s arbitrary: w) (auto split: if_splits list.splits)

lemma Split_word: "sep \<notin> set s \<Longrightarrow> Split sep s = [s]"
  by (induction s) auto

lemma Split_append_sep: "sep \<notin> set a \<Longrightarrow> Split sep (a @ sep # b) = a # Split sep b"
  by (induction a) auto

lemma Split_Join_with:
  "list_all (\<lambda>w. sep \<notin> set w) ws \<Longrightarrow> ws \<noteq> [] \<Longrightarrow> Split sep (Join_with [sep] ws) = ws"
  by (induction "[sep]" ws rule: Join_with.induct) (simp_all add: Split_word Split_append_sep)

lemma Join_Split: "Join_with [sep] (Split sep s) = s"
proof (induction s)
  case (Cons c s)
  obtain w ws where "Split sep s = w # ws"
    by (cases "Split sep s") auto
  with Cons show ?case by (cases ws) auto
qed simp

section \<open>strconv\<close>

text \<open>\<open>strconv.ParseInt(s, 10, 64)\<close>: an optional sign, decimal digits, the range of int64.\<close>

definition is_digit :: "char \<Rightarrow> bool" where
  "is_digit c \<longleftrightarrow> 48 \<le> (of_char c :: nat) \<and> (of_char c :: nat) \<le> 57"

definition digit_val :: "char \<Rightarrow> nat" where
  "digit_val c = (of_char c :: nat) - 48"

definition digits_val :: "string \<Rightarrow> nat" where
  "digits_val s = foldl (\<lambda>a c. 10 * a + digit_val c) 0 s"

definition parse_digits :: "string \<Rightarrow> nat option" where
  "parse_digits s = (if s \<noteq> [] \<and> list_all is_digit s then Some (digits_val s) else None)"

definition ParseInt :: "string \<Rightarrow> int option" where
  "ParseInt s =
     (let (neg, body) = (case s of
            c # r \<Rightarrow> if c = CHR ''-'' then (True, r) else if c = CHR ''+'' then (False, r) else (False, s)
          | [] \<Rightarrow> (False, []))
      in case parse_digits body of
           None \<Rightarrow> None
         | Some n \<Rightarrow> if neg then (if int n \<le> 2 ^ 63 then Some (- int n) else None)
                    else (if int n < 2 ^ 63 then Some (int n) else None))"

text \<open>\<open>strconv.Atoi\<close> on a 64-bit platform is the same function.\<close>

definition Atoi :: "string \<Rightarrow> int option" where
  "Atoi s = ParseInt s"

definition digit_char :: "nat \<Rightarrow> char" where
  "digit_char d = char_of (48 + d)"

fun format_nat :: "nat \<Rightarrow> string" where
  "format_nat n = (if n < 10 then [digit_char n] else format_nat (n div 10) @ [digit_char (n mod 10)])"

declare format_nat.simps [simp del]

definition FormatInt :: "int \<Rightarrow> string" where
  "FormatInt i = (if i < 0 then CHR ''-'' # format_nat (nat (- i)) else format_nat (nat i))"

definition Itoa :: "int \<Rightarrow> string" where
  "Itoa i = FormatInt i"

lemma of_digit_char [simp]: "d < 10 \<Longrightarrow> (of_char (digit_char d) :: nat) = 48 + d"
  by (simp add: digit_char_def of_char_of)

lemma is_digit_digit_char [simp]: "d < 10 \<Longrightarrow> is_digit (digit_char d)"
  by (simp add: is_digit_def)

lemma digit_val_digit_char [simp]: "d < 10 \<Longrightarrow> digit_val (digit_char d) = d"
  by (simp add: digit_val_def)

lemma format_nat_nonempty [simp]: "format_nat n \<noteq> []"
  by (subst format_nat.simps) simp

lemma format_nat_digits: "list_all is_digit (format_nat n)"
  by (induction n rule: format_nat.induct) (subst format_nat.simps, simp)

lemma digits_val_snoc: "digits_val (s @ [c]) = 10 * digits_val s + digit_val c"
  by (simp add: digits_val_def)

lemma digits_val_format_nat [simp]: "digits_val (format_nat n) = n"
proof (induction n rule: format_nat.induct)
  case (1 n)
  then show ?case
    by (subst format_nat.simps) (auto simp: digits_val_snoc, simp add: digits_val_def)
qed

lemma format_nat_inj [simp]: "format_nat m = format_nat n \<longleftrightarrow> m = n"
  by (metis digits_val_format_nat)

lemma hd_format_nat: "is_digit (hd (format_nat n))"
  using format_nat_digits [of n] format_nat_nonempty [of n]
  by (cases "format_nat n") (auto simp: list_all_iff)

lemma sign_not_digit [simp]: "\<not> is_digit (CHR ''-'')" "\<not> is_digit (CHR ''+'')"
  by (simp_all add: is_digit_def)

lemma parse_digits_format_nat [simp]: "parse_digits (format_nat n) = Some n"
  by (simp add: parse_digits_def format_nat_digits)

lemma ParseInt_format_nat: "int n < 2 ^ 63 \<Longrightarrow> ParseInt (format_nat n) = Some (int n)"
  using hd_format_nat [of n] parse_digits_format_nat [of n]
  by (cases "format_nat n") (auto simp: ParseInt_def)

lemma ParseInt_FormatInt: "- (2 ^ 63) \<le> i \<Longrightarrow> i < 2 ^ 63 \<Longrightarrow> ParseInt (FormatInt i) = Some i"
  by (auto simp: FormatInt_def ParseInt_format_nat) (auto simp: ParseInt_def)

lemma ParseInt_range: "ParseInt s = Some i \<Longrightarrow> - (2 ^ 63) \<le> i \<and> i < 2 ^ 63"
  by (auto simp: ParseInt_def Let_def split: prod.splits option.splits if_splits)

lemma FormatInt_inj [simp]: "FormatInt i = FormatInt j \<longleftrightarrow> i = j"
proof -
  have "hd (format_nat n) \<noteq> CHR ''-''" for n
    using hd_format_nat [of n] by (metis sign_not_digit(1))
  then have "format_nat n \<noteq> CHR ''-'' # s" for n s
    by (metis list.sel(1))
  then show ?thesis
    by (auto simp: FormatInt_def eq_nat_nat_iff) (metis)+
qed

section \<open>time\<close>

text \<open>
  \<open>Duration.String\<close>, of nanoseconds: the fraction has no trailing zeros, and a duration below a
  second is given in its own unit (the micro sign is two bytes of UTF-8).
\<close>

definition fmtFrac :: "nat \<Rightarrow> nat \<Rightarrow> string" where
  "fmtFrac v prec =
     (let ds = dropWhile (\<lambda>c. c = CHR ''0'') (map (\<lambda>i. digit_char (v div 10 ^ i mod 10)) [0..<prec])
      in if ds = [] then [] else CHR ''.'' # rev ds)"

definition Duration_String :: "int \<Rightarrow> string" where
  "Duration_String d =
     (let u = nat \<bar>d\<bar>; s = u div 10 ^ 9; m = s div 60; h = m div 60;
          text = (if u = 0 then ''0s''
                  else if u < 10 ^ 3 then format_nat u @ ''ns''
                  else if u < 10 ^ 6 then format_nat (u div 10 ^ 3) @ fmtFrac u 3 @ [CHR 0xC2, CHR 0xB5] @ ''s''
                  else if u < 10 ^ 9 then format_nat (u div 10 ^ 6) @ fmtFrac u 6 @ ''ms''
                  else (if h > 0 then format_nat h @ ''h'' else []) @
                       (if m > 0 then format_nat (m mod 60) @ ''m'' else []) @
                       format_nat (s mod 60) @ fmtFrac u 9 @ ''s'')
      in if d < 0 then CHR ''-'' # text else text)"

section \<open>regexp\<close>

text \<open>Anchored sequences of byte classes: \<open>^[..][..]...$\<close>.\<close>

definition match_classes :: "(char \<Rightarrow> bool) list \<Rightarrow> string \<Rightarrow> bool" where
  "match_classes ps s \<longleftrightarrow> list_all2 (\<lambda>p c. p c) ps s"

definition is_hex :: "char \<Rightarrow> bool" where
  "is_hex c \<longleftrightarrow> (let n = (of_char c :: nat) in
     48 \<le> n \<and> n \<le> 57 \<or> 97 \<le> n \<and> n \<le> 102 \<or> 65 \<le> n \<and> n \<le> 70)"

definition is_octal :: "char \<Rightarrow> bool" where
  "is_octal c \<longleftrightarrow> 48 \<le> (of_char c :: nat) \<and> (of_char c :: nat) \<le> 55"

section \<open>path/filepath\<close>

text \<open>
  \<open>filepath.Clean\<close> on Unix: split at slashes, drop empty and \<open>.\<close> segments, let \<open>..\<close> cancel the
  segment before it, and let \<open>..\<close> at the root vanish. The accumulator is the reversed result.
\<close>

fun clean_segs :: "bool \<Rightarrow> string list \<Rightarrow> string list \<Rightarrow> string list" where
  "clean_segs rooted acc [] = rev acc"
| "clean_segs rooted acc (w # ws) =
     (if w = [] \<or> w = ''.'' then clean_segs rooted acc ws
      else if w = ''..'' then
        (case acc of
           [] \<Rightarrow> clean_segs rooted (if rooted then [] else [''..'']) ws
         | a # as \<Rightarrow> clean_segs rooted (if a = ''..'' then ''..'' # a # as else as) ws)
      else clean_segs rooted (w # acc) ws)"

definition filepath_Clean :: "string \<Rightarrow> string" where
  "filepath_Clean p =
     (let rooted = (p \<noteq> [] \<and> hd p = CHR ''/'');
          segs = clean_segs rooted [] (Split (CHR ''/'') p)
      in if rooted then CHR ''/'' # Join_with ''/'' segs
         else if segs = [] then ''.'' else Join_with ''/'' segs)"

definition filepath_Join :: "string list \<Rightarrow> string" where
  "filepath_Join es =
     (case dropWhile (\<lambda>e. e = []) es of
        [] \<Rightarrow> []
      | es' \<Rightarrow> filepath_Clean (Join_with ''/'' es'))"

definition strip_slashes :: "string \<Rightarrow> string" where
  "strip_slashes p = rev (dropWhile (\<lambda>c. c = CHR ''/'') (rev p))"

definition filepath_Base :: "string \<Rightarrow> string" where
  "filepath_Base p =
     (if p = [] then ''.''
      else let q = last (Split (CHR ''/'') (strip_slashes p)) in if q = [] then ''/'' else q)"

text \<open>\<open>filepath.Dir\<close>: everything up to the last slash, cleaned.\<close>

definition filepath_Dir :: "string \<Rightarrow> string" where
  "filepath_Dir p = filepath_Clean (rev (dropWhile (\<lambda>c. c \<noteq> CHR ''/'') (rev p)))"

lemma filepath_Base_no_slash:
  "filepath_Base p \<noteq> ''/'' \<Longrightarrow> CHR ''/'' \<notin> set (filepath_Base p)"
proof -
  assume "filepath_Base p \<noteq> ''/''"
  moreover have "CHR ''/'' \<notin> set (last (Split (CHR ''/'') q))" for q
    by (rule Split_no_sep [OF last_in_set]) simp
  ultimately show ?thesis
    by (auto simp: filepath_Base_def Let_def split: if_splits)
qed

text \<open>A plain name, one that names exactly one entry of a directory.\<close>

definition plain_name :: "string \<Rightarrow> bool" where
  "plain_name w \<longleftrightarrow> w \<noteq> [] \<and> w \<noteq> ''.'' \<and> w \<noteq> ''..'' \<and> CHR ''/'' \<notin> set w"

text \<open>An absolute path of plain names, as \<open>filepath.Clean\<close> returns it.\<close>

definition abs_path :: "string list \<Rightarrow> string" where
  "abs_path ws = CHR ''/'' # Join_with ''/'' ws"

lemma clean_segs_plain:
  "list_all plain_name ws \<Longrightarrow> clean_segs r acc (ws @ vs) = clean_segs r (rev ws @ acc) vs"
  by (induction ws arbitrary: acc) (auto simp: plain_name_def)

lemma Split_Join:
  "list_all plain_name (w # ws) \<Longrightarrow> Split (CHR ''/'') (Join_with ''/'' (w # ws)) = w # ws"
proof (induction ws arbitrary: w)
  case Nil
  then show ?case by (simp add: Split_word plain_name_def)
next
  case (Cons v ws)
  then have "Split (CHR ''/'') (Join_with ''/'' (v # ws)) = v # ws" by simp
  with Cons.prems show ?case
    by (simp add: Split_append_sep plain_name_def)
qed

lemma Split_abs_path:
  "list_all plain_name ws \<Longrightarrow> ws \<noteq> [] \<Longrightarrow> Split (CHR ''/'') (abs_path ws) = [] # ws"
  by (cases ws) (simp_all add: abs_path_def Split_Join)

lemma filepath_Clean_abs_path [simp]:
  assumes "list_all plain_name ws"
  shows "filepath_Clean (abs_path ws) = abs_path ws"
proof (cases "ws = []")
  case False
  then show ?thesis
    using assms clean_segs_plain [of ws True "[]" "[]"]
    by (simp add: filepath_Clean_def Split_abs_path) (simp add: abs_path_def)
qed (simp add: filepath_Clean_def abs_path_def)

lemma Join_with_append:
  "ws \<noteq> [] \<Longrightarrow> vs \<noteq> [] \<Longrightarrow> Join_with sep (ws @ vs) = Join_with sep ws @ sep @ Join_with sep vs"
  by (induction sep ws rule: Join_with.induct) (auto simp: neq_Nil_conv)

lemma abs_path_append:
  "ws \<noteq> [] \<Longrightarrow> vs \<noteq> [] \<Longrightarrow> abs_path (ws @ vs) = abs_path ws @ ''/'' @ Join_with ''/'' vs"
  by (simp add: abs_path_def Join_with_append)

lemma filepath_Join_plain:
  assumes "list_all plain_name ws" and "ws \<noteq> []" and "list_all plain_name vs"
  shows "filepath_Join (abs_path ws # vs) = abs_path (ws @ vs)"
proof -
  have "Join_with ''/'' (abs_path ws # vs) = abs_path (ws @ vs)"
  proof (cases vs)
    case (Cons v vs')
    then have "vs \<noteq> []" by simp
    with Cons show ?thesis using abs_path_append [OF assms(2), of vs] by simp
  qed simp
  moreover have "dropWhile (\<lambda>e. e = []) (abs_path ws # vs) = abs_path ws # vs"
    by (simp add: abs_path_def)
  ultimately show ?thesis
    using assms by (simp only: filepath_Join_def list.case) simp
qed

lemma abs_path_inj:
  assumes "list_all plain_name ws" "ws \<noteq> []" "list_all plain_name vs" "vs \<noteq> []"
  shows "abs_path ws = abs_path vs \<longleftrightarrow> ws = vs"
  by (metis Split_abs_path assms list.inject)

lemma Split_snoc_sep: "Split sep (s @ [sep]) = Split sep s @ [[]]"
  by (induction s) (auto split: list.splits)

lemma filepath_Dir_abs_path:
  assumes "list_all plain_name ws" "ws \<noteq> []" "plain_name f"
  shows "filepath_Dir (abs_path (ws @ [f])) = abs_path ws"
proof -
  have f: "CHR ''/'' \<notin> set f" using assms(3) by (simp add: plain_name_def)
  have "dropWhile (\<lambda>c. c \<noteq> CHR ''/'') (rev f @ CHR ''/'' # rev (abs_path ws)) = CHR ''/'' # rev (abs_path ws)"
    using f by (subst dropWhile_append3) auto
  then have "filepath_Dir (abs_path (ws @ [f])) = filepath_Clean (abs_path ws @ ''/'')"
    using assms(2) by (simp add: filepath_Dir_def abs_path_append)
  also have "\<dots> = abs_path ws"
    using assms clean_segs_plain [of ws True "[]" "[[]]"]
    by (simp add: filepath_Clean_def Split_snoc_sep Split_abs_path) (simp add: abs_path_def)
  finally show ?thesis .
qed

end
