(* ===== verification/Pci_Sysfs.thy ===== *)
theory Pci_Sysfs
  imports Go_Strings
begin

text \<open>
  \<open>cmd/npu-kubelet-plugin/pci_sysfs.go\<close>: reading PCI functions from sysfs.

  The kernel's sysfs is an input of the driver. \<open>sysfs\<close> is one view of it: for every path the
  answer each \<open>os\<close> call gives. The answers are not required to fit together (an entry listed by
  \<open>os.ReadDir\<close> may be gone for the \<open>os.Stat\<close> that follows), so everything proved for all views
  holds while the kernel adds, removes and rebinds functions. Code that reads sysfs in several
  passes takes one view per pass.
\<close>

record sysfs =
  os_ReadDir :: "string \<Rightarrow> string list result"
  os_ReadFile :: "string \<Rightarrow> string result"
  os_Stat :: "string \<Rightarrow> unit result"
  os_Lstat :: "string \<Rightarrow> unit result"
  os_Readlink :: "string \<Rightarrow> string result"
  os_EvalSymlinks :: "string \<Rightarrow> string result"

definition sysfsPCIDevicesRoot :: string where
  "sysfsPCIDevicesRoot = ''/sys/bus/pci/devices''"

definition nativePCIDriverName :: string where
  "nativePCIDriverName = ''rebellions''"

definition rblnPCIVendorID :: string where
  "rblnPCIVendorID = ''0x1eff''"

definition pciEntryRemoved :: "sysfs \<Rightarrow> string \<Rightarrow> goerr \<Rightarrow> bool" where
  "pciEntryRemoved sy devPath err =
     (if \<not> errors_Is_NotExist err then False
      else case os_Stat sy devPath of Inl statErr \<Rightarrow> errors_Is_NotExist statErr | Inr _ \<Rightarrow> False)"

definition readSysfsValue :: "sysfs \<Rightarrow> string \<Rightarrow> string \<Rightarrow> string result" where
  "readSysfsValue sy devPath name =
     (case os_ReadFile sy (filepath_Join [devPath, name]) of
        Inl err \<Rightarrow> Inl err
      | Inr data \<Rightarrow> Inr (TrimSpace data))"

definition readSysfsLinkBase :: "sysfs \<Rightarrow> string \<Rightarrow> string \<Rightarrow> string result" where
  "readSysfsLinkBase sy devPath name =
     (case os_Readlink sy (filepath_Join [devPath, name]) of
        Inl err \<Rightarrow> Inl err
      | Inr target \<Rightarrow> Inr (filepath_Base target))"

text \<open>\<open>known\<close> holds the lower-case addresses of the published functions and their parents.\<close>

definition isRebellionsPCI :: "sysfs \<Rightarrow> string \<Rightarrow> (string, bool) gomap \<Rightarrow> bool result" where
  "isRebellionsPCI sy devPath known =
     (case readSysfsValue sy devPath ''vendor'' of
        Inl err \<Rightarrow>
          if gm_has known (ToLower (filepath_Base devPath)) \<and> \<not> pciEntryRemoved sy devPath err
          then Inl (Wrapf ''read vendor for known NPU %s: %w'' [filepath_Base devPath] err)
          else Inr False
      | Inr vendor \<Rightarrow> Inr (EqualFold vendor rblnPCIVendorID))"

definition readPCIDriver :: "sysfs \<Rightarrow> string \<Rightarrow> string result" where
  "readPCIDriver sy devPath =
     (case readSysfsLinkBase sy devPath ''driver'' of
        Inl err \<Rightarrow> if errors_Is_NotExist err then Inr [] else Inl err
      | Inr driver \<Rightarrow> Inr driver)"

definition pciAddressRegexp :: "(char \<Rightarrow> bool) list" where
  "pciAddressRegexp =
     replicate 4 is_hex @ [\<lambda>c. c = CHR '':''] @ replicate 2 is_hex @ [\<lambda>c. c = CHR '':''] @
     replicate 2 is_hex @ [\<lambda>c. c = CHR ''.'', is_octal]"

definition pciAddress :: "string \<Rightarrow> bool" where
  "pciAddress s \<longleftrightarrow> match_classes pciAddressRegexp s"

definition pciRootRegexp :: "(char \<Rightarrow> bool) list" where
  "pciRootRegexp =
     [\<lambda>c. c = CHR ''p'', \<lambda>c. c = CHR ''c'', \<lambda>c. c = CHR ''i''] @ replicate 4 is_hex @
     [\<lambda>c. c = CHR '':''] @ replicate 2 is_hex"

definition pciRoot :: "string \<Rightarrow> bool" where
  "pciRoot s \<longleftrightarrow> match_classes pciRootRegexp s"

definition resolvePCIERootID :: "sysfs \<Rightarrow> string \<Rightarrow> string \<Rightarrow> string result" where
  "resolvePCIERootID sy root busID =
     (case os_EvalSymlinks sy (filepath_Join [root, ToLower busID]) of
        Inl err \<Rightarrow> Inl err
      | Inr resolvedPath \<Rightarrow>
          (case find pciRoot (Split (CHR ''/'') (filepath_Clean resolvedPath)) of
             Some segment \<Rightarrow> Inr segment
           | None \<Rightarrow> Inr []))"

section \<open>PCI addresses\<close>

lemma length_pciAddressRegexp [simp]: "length pciAddressRegexp = 12"
  by (simp add: pciAddressRegexp_def)

lemma pciAddress_length: "pciAddress s \<Longrightarrow> length s = 12"
  by (auto simp: pciAddress_def match_classes_def pciAddressRegexp_def dest: list_all2_lengthD)

definition pci_char :: "char \<Rightarrow> bool" where
  "pci_char c \<longleftrightarrow> is_hex c \<or> c = CHR '':'' \<or> c = CHR ''.''"

lemma octal_is_hex: "is_octal c \<Longrightarrow> is_hex c"
  by (auto simp: is_octal_def is_hex_def Let_def)

lemma pciAddress_chars: "pciAddress s \<Longrightarrow> c \<in> set s \<Longrightarrow> pci_char c"
proof -
  have "\<forall>p \<in> set pciAddressRegexp. \<forall>c. p c \<longrightarrow> pci_char c"
    by (auto simp: pciAddressRegexp_def pci_char_def octal_is_hex)
  then show "pciAddress s \<Longrightarrow> c \<in> set s \<Longrightarrow> pci_char c"
    unfolding pciAddress_def match_classes_def
    by (metis in_set_conv_nth list_all2_conv_all_nth nth_mem)
qed

text \<open>An address is a plain file name: no separator, and too long to be \<open>.\<close> or \<open>..\<close>.\<close>

lemma pciAddress_plain: "pciAddress s \<Longrightarrow> plain_name s"
proof -
  assume s: "pciAddress s"
  have "\<not> pci_char (CHR ''/'')"
    by (simp add: pci_char_def is_hex_def)
  then have "CHR ''/'' \<notin> set s"
    using pciAddress_chars [OF s] by blast
  then show ?thesis
    using pciAddress_length [OF s] by (auto simp: plain_name_def)
qed

lemma is_hex_lower: "is_hex c \<Longrightarrow> is_hex (lower_char c)"
  by (auto simp: is_hex_def lower_char_def Let_def of_char_of)

lemma lower_fixed: "\<not> (65 \<le> (of_char c :: nat) \<and> (of_char c :: nat) \<le> 90) \<Longrightarrow> lower_char c = c"
  by (auto simp: lower_char_def)

lemma pciAddress_ToLower: "pciAddress s \<Longrightarrow> pciAddress (ToLower s)"
proof -
  have "\<forall>p \<in> set pciAddressRegexp. \<forall>c. p c \<longrightarrow> p (lower_char c)"
    by (auto simp: pciAddressRegexp_def is_hex_lower is_octal_def lower_fixed)
  then show "pciAddress s \<Longrightarrow> pciAddress (ToLower s)"
    unfolding pciAddress_def match_classes_def ToLower_def
    by (simp add: list_all2_conv_all_nth) (metis length_pciAddressRegexp nth_mem)
qed

section \<open>What the readers return\<close>

lemma isRebellionsPCI_True:
  "isRebellionsPCI sy p known = Inr True \<longleftrightarrow>
     (\<exists>v. readSysfsValue sy p ''vendor'' = Inr v \<and> EqualFold v rblnPCIVendorID)"
  by (auto simp: isRebellionsPCI_def split: sum.splits if_splits)

lemma readPCIDriver_bound:
  "readPCIDriver sy p = Inr d \<Longrightarrow> d \<noteq> [] \<Longrightarrow> readSysfsLinkBase sy p ''driver'' = Inr d"
  by (auto simp: readPCIDriver_def split: sum.splits if_splits)

lemma resolvePCIERootID_ok:
  "resolvePCIERootID sy root busID = Inr r \<Longrightarrow> r = [] \<or> pciRoot r"
  by (auto simp: resolvePCIERootID_def split: sum.splits option.splits dest: find_SomeD)

lemma pciRoot_nonempty: "pciRoot r \<Longrightarrow> r \<noteq> []"
  by (auto simp: pciRoot_def match_classes_def pciRootRegexp_def)

end
