(* ===== verification/Resource_Api.thy ===== *)
theory Resource_Api
  imports Pci_Sysfs
begin

text \<open>
  Devices as the Kubernetes resource API publishes them, and the attribute helpers of
  \<open>cmd/npu-kubelet-plugin/state.go\<close>.

  \<open>DeviceAttribute\<close> keeps the three pointers the driver sets as options. A \<open>Device\<close> is its name,
  its attribute map and its capacity map; \<open>equality.Semantic.DeepEqual\<close> on devices is \<open>=\<close>.
  The helpers that fill a map (\<open>setNumaNodeAttr\<close>, \<open>setPCIERootAttr\<close>) return the filled map;
  their warnings are not part of the state and are left out.
\<close>

type_synonym QualifiedName = string

record DeviceAttribute =
  IntValue :: "int option"
  BoolValue :: "bool option"
  StringValue :: "string option"

type_synonym attributes = "(QualifiedName, DeviceAttribute) gomap"

record Device =
  Name :: string
  Attributes :: attributes
  Capacity :: "(QualifiedName, int) gomap"

definition int_attr :: "int \<Rightarrow> DeviceAttribute" where
  "int_attr i = \<lparr>IntValue = Some i, BoolValue = None, StringValue = None\<rparr>"

definition bool_attr :: "bool \<Rightarrow> DeviceAttribute" where
  "bool_attr b = \<lparr>IntValue = None, BoolValue = Some b, StringValue = None\<rparr>"

definition string_attr :: "string \<Rightarrow> DeviceAttribute" where
  "string_attr s = \<lparr>IntValue = None, BoolValue = None, StringValue = Some s\<rparr>"

section \<open>Attribute keys and device types\<close>

definition pciBusIDAttributeKey :: QualifiedName where
  "pciBusIDAttributeKey = ''resource.kubernetes.io/pciBusID''"

definition pcieRootAttributeKey :: QualifiedName where
  "pcieRootAttributeKey = ''resource.kubernetes.io/pcieRoot''"

definition numaNodeAttributeKey :: QualifiedName where
  "numaNodeAttributeKey = ''resource.kubernetes.io/numaNode''"

definition dranetNumaNodeAttributeKey :: QualifiedName where
  "dranetNumaNodeAttributeKey = ''dra.net/numaNode''"

definition deviceTypeAttributeKey :: QualifiedName where
  "deviceTypeAttributeKey = ''type''"

definition vfAttributeKey :: QualifiedName where
  "vfAttributeKey = ''vf''"

definition iommuGroupAttributeKey :: QualifiedName where
  "iommuGroupAttributeKey = ''iommuGroup''"

definition parentPCIBusIDAttributeKey :: QualifiedName where
  "parentPCIBusIDAttributeKey = ''parentPCIBusID''"

definition partitionModeAttributeKey :: QualifiedName where
  "partitionModeAttributeKey = ''partitionMode''"

definition numVFsAttributeKey :: QualifiedName where
  "numVFsAttributeKey = ''numVFs''"

definition deviceNodeNameAttributeKey :: QualifiedName where
  "deviceNodeNameAttributeKey = ''deviceNodeName''"

definition deviceTypeNpu :: string where
  "deviceTypeNpu = ''npu''"

definition deviceTypeNpuVF :: string where
  "deviceTypeNpuVF = ''npu-vf''"

definition deviceTypeVfio :: string where
  "deviceTypeVfio = ''vfio''"

lemmas attribute_keys =
  pciBusIDAttributeKey_def pcieRootAttributeKey_def numaNodeAttributeKey_def
  dranetNumaNodeAttributeKey_def deviceTypeAttributeKey_def vfAttributeKey_def
  iommuGroupAttributeKey_def parentPCIBusIDAttributeKey_def partitionModeAttributeKey_def
  numVFsAttributeKey_def deviceNodeNameAttributeKey_def

lemmas device_types = deviceTypeNpu_def deviceTypeNpuVF_def deviceTypeVfio_def

lemmas attr_defs = int_attr_def bool_attr_def string_attr_def

section \<open>Reading attributes\<close>

definition deviceStringAttr :: "Device \<Rightarrow> QualifiedName \<Rightarrow> string" where
  "deviceStringAttr d key =
     (case gm_get (Attributes d) key of
        Some attr \<Rightarrow> (case StringValue attr of Some v \<Rightarrow> v | None \<Rightarrow> [])
      | None \<Rightarrow> [])"

definition deviceIntAttr :: "Device \<Rightarrow> QualifiedName \<Rightarrow> int option" where
  "deviceIntAttr d key =
     (case gm_get (Attributes d) key of Some attr \<Rightarrow> IntValue attr | None \<Rightarrow> None)"

definition deviceBoolAttr :: "Device \<Rightarrow> QualifiedName \<Rightarrow> bool option" where
  "deviceBoolAttr d key =
     (case gm_get (Attributes d) key of Some attr \<Rightarrow> BoolValue attr | None \<Rightarrow> None)"

definition devicePCIBusID :: "Device \<Rightarrow> string result" where
  "devicePCIBusID d =
     (case gm_get (Attributes d) pciBusIDAttributeKey of
        Some attr \<Rightarrow>
          (case StringValue attr of
             Some v \<Rightarrow> if v = []
                       then Inl (Errorf ''allocatable device %q is missing attribute %s'' [Name d, pciBusIDAttributeKey])
                       else Inr v
           | None \<Rightarrow> Inl (Errorf ''allocatable device %q is missing attribute %s'' [Name d, pciBusIDAttributeKey]))
      | None \<Rightarrow> Inl (Errorf ''allocatable device %q is missing attribute %s'' [Name d, pciBusIDAttributeKey]))"

definition isVfioDevice :: "Device \<Rightarrow> bool" where
  "isVfioDevice d \<longleftrightarrow>
     (case gm_get (Attributes d) deviceTypeAttributeKey of
        Some attr \<Rightarrow> StringValue attr = Some deviceTypeVfio
      | None \<Rightarrow> False)"

lemma devicePCIBusID_Inr:
  "devicePCIBusID d = Inr b \<longleftrightarrow> b \<noteq> [] \<and> deviceStringAttr d pciBusIDAttributeKey = b"
  by (auto simp: devicePCIBusID_def deviceStringAttr_def split: option.splits)

lemma isVfioDevice_iff:
  "isVfioDevice d \<longleftrightarrow> deviceStringAttr d deviceTypeAttributeKey = deviceTypeVfio"
  by (auto simp: isVfioDevice_def deviceStringAttr_def device_types split: option.splits)

section \<open>Setting topology attributes\<close>

definition setNumaNodeAttr :: "attributes \<Rightarrow> string \<Rightarrow> attributes" where
  "setNumaNodeAttr attrs numaNode =
     (if numaNode = [] then attrs
      else let noAffinity = (numaNode = ''N/A'') in
        case ParseInt numaNode of
          None \<Rightarrow> attrs
        | Some v \<Rightarrow>
            if noAffinity \<or> v < 0 then attrs
            else gm_put dranetNumaNodeAttributeKey (int_attr v)
                   (gm_put numaNodeAttributeKey (int_attr v) attrs))"

definition setPCIERootAttr :: "sysfs \<Rightarrow> attributes \<Rightarrow> string \<Rightarrow> string \<Rightarrow> attributes \<times> string" where
  "setPCIERootAttr sy attrs sysfsRoot busID =
     (case resolvePCIERootID sy sysfsRoot busID of
        Inl err \<Rightarrow> (attrs, [])
      | Inr pcieRoot \<Rightarrow>
          if pcieRoot = [] then (attrs, [])
          else (gm_put pcieRootAttributeKey (string_attr pcieRoot) attrs, pcieRoot))"

text \<open>Neither helper touches any other key.\<close>

lemma setNumaNodeAttr_other:
  "k \<noteq> numaNodeAttributeKey \<Longrightarrow> k \<noteq> dranetNumaNodeAttributeKey \<Longrightarrow>
     gm_get (setNumaNodeAttr attrs n) k = gm_get attrs k"
  by (auto simp: setNumaNodeAttr_def Let_def split: option.splits)

lemma setPCIERootAttr_other:
  "k \<noteq> pcieRootAttributeKey \<Longrightarrow> gm_get (fst (setPCIERootAttr sy attrs root b)) k = gm_get attrs k"
  by (auto simp: setPCIERootAttr_def split: sum.splits)

lemma gm_ok_setNumaNodeAttr: "gm_ok attrs \<Longrightarrow> gm_ok (setNumaNodeAttr attrs n)"
  by (auto simp: setNumaNodeAttr_def Let_def split: option.splits)

lemma gm_ok_setPCIERootAttr: "gm_ok attrs \<Longrightarrow> gm_ok (fst (setPCIERootAttr sy attrs root b))"
  by (auto simp: setPCIERootAttr_def split: sum.splits)

text \<open>The two NUMA keys are always written together and never hold a negative node.\<close>

lemma setNumaNodeAttr_mirrored:
  "gm_get attrs numaNodeAttributeKey = None \<Longrightarrow> gm_get attrs dranetNumaNodeAttributeKey = None \<Longrightarrow>
   gm_get (setNumaNodeAttr attrs n) numaNodeAttributeKey =
     gm_get (setNumaNodeAttr attrs n) dranetNumaNodeAttributeKey \<and>
   (\<forall>a. gm_get (setNumaNodeAttr attrs n) numaNodeAttributeKey = Some a \<longrightarrow>
      (\<exists>v. a = int_attr v \<and> 0 \<le> v \<and> v < 2 ^ 63))"
  using ParseInt_range [of n] by (auto simp: setNumaNodeAttr_def Let_def split: option.splits)

end
