(* ===== verification/Sriov.thy ===== *)
theory Sriov
  imports Resource_Api
begin

text \<open>
  \<open>cmd/npu-kubelet-plugin/sriov.go\<close>: SR-IOV layout of a PCI function. \<open>sriovInfo\<close> is the parent
  address (empty for a physical function) and the number of enabled VFs, of the parent for a VF.
  \<open>probeSRIOV\<close> is modelled branch by branch with every error it returns.
\<close>

record sriovInfo =
  parentPCIBusID :: string
  numVFs :: int

definition isVF :: "sriovInfo \<Rightarrow> bool" where
  "isVF s \<longleftrightarrow> parentPCIBusID s \<noteq> []"

definition isHostingPF :: "sriovInfo \<Rightarrow> bool" where
  "isHostingPF s \<longleftrightarrow> \<not> isVF s \<and> numVFs s > 0"

definition readSRIOVNumVFs :: "sysfs \<Rightarrow> string \<Rightarrow> int result" where
  "readSRIOVNumVFs sy devPath =
     (case readSysfsValue sy devPath ''sriov_numvfs'' of
        Inl err \<Rightarrow> Inl err
      | Inr raw \<Rightarrow>
          (case ParseInt raw of
             None \<Rightarrow> Inl (Errorf ''invalid sriov_numvfs %q in %s'' [raw, devPath])
           | Some n \<Rightarrow> if n < 0 then Inl (Errorf ''invalid sriov_numvfs %q in %s'' [raw, devPath])
                      else Inr n))"

definition probeSRIOV :: "sysfs \<Rightarrow> string \<Rightarrow> string \<Rightarrow> sriovInfo result" where
  "probeSRIOV sy root busID =
     (if \<not> pciAddress busID then Inl (Errorf ''invalid PCI address %q'' [busID])
      else let devPath = filepath_Join [root, ToLower busID] in
        case os_Stat sy devPath of
          Inl err \<Rightarrow> Inl (Wrapf ''stat PCI device %s: %w'' [busID] err)
        | Inr _ \<Rightarrow>
            (case os_Lstat sy (filepath_Join [devPath, ''physfn'']) of
               Inr _ \<Rightarrow>
                 (case readSysfsLinkBase sy devPath ''physfn'' of
                    Inl err \<Rightarrow> Inl (Wrapf ''read physfn of %s: %w'' [busID] err)
                  | Inr parent \<Rightarrow>
                      if \<not> pciAddress parent \<or> EqualFold parent busID
                      then Inl (Errorf ''invalid parent PF %q for VF %s'' [parent, busID])
                      else (case readSRIOVNumVFs sy (filepath_Join [root, parent]) of
                              Inl err \<Rightarrow> Inl (Wrapf ''read parent PF %s for VF %s: %w'' [parent, busID] err)
                            | Inr n \<Rightarrow>
                                if n \<noteq> 1 \<and> n \<noteq> 4
                                then Inl (Wrapf ''%w: PF %s has %d VFs (expected 1 or 4)'' [parent, FormatInt n]
                                            ErrUnsupportedDevice)
                                else Inr \<lparr>parentPCIBusID = parent, numVFs = n\<rparr>))
             | Inl statErr \<Rightarrow>
                 if \<not> errors_Is_NotExist statErr then Inl (Wrapf ''stat physfn of %s: %w'' [busID] statErr)
                 else (case readSRIOVNumVFs sy devPath of
                         Inl err \<Rightarrow> if errors_Is_NotExist err then Inr \<lparr>parentPCIBusID = [], numVFs = 0\<rparr>
                                    else Inl err
                       | Inr n \<Rightarrow>
                           if n \<noteq> 0 \<and> n \<noteq> 1 \<and> n \<noteq> 4
                           then Inl (Wrapf ''%w: PF %s has %d VFs (expected 0, 1 or 4)'' [busID, FormatInt n]
                                       ErrUnsupportedDevice)
                           else Inr \<lparr>parentPCIBusID = [], numVFs = n\<rparr>)))"

definition partitionMode :: "sriovInfo \<Rightarrow> string" where
  "partitionMode s = (if isVF s then ''vf'' @ FormatInt (numVFs s) else ''none'')"

definition deviceName :: "sriovInfo \<Rightarrow> string \<Rightarrow> string" where
  "deviceName s base = (if isVF s then base @ ''-'' @ partitionMode s else base)"

definition setAttributes :: "sriovInfo \<Rightarrow> attributes \<Rightarrow> attributes" where
  "setAttributes s attrs =
     (let a1 = gm_put vfAttributeKey (bool_attr (isVF s)) attrs;
          a2 = (if isVF s then gm_put parentPCIBusIDAttributeKey (string_attr (parentPCIBusID s)) a1 else a1);
          a3 = gm_put partitionModeAttributeKey (string_attr (partitionMode s)) a2
      in gm_put numVFsAttributeKey (int_attr (numVFs s)) a3)"

section \<open>Layouts\<close>

text \<open>The layouts the driver accepts, as the README's table lists them.\<close>

definition supported_layout :: "string \<Rightarrow> sriovInfo \<Rightarrow> bool" where
  "supported_layout busID s \<longleftrightarrow>
     (if isVF s
      then pciAddress (parentPCIBusID s) \<and> \<not> EqualFold (parentPCIBusID s) busID \<and> numVFs s \<in> {1, 4}
      else numVFs s \<in> {0, 1, 4})"

lemma pciAddress_nonempty: "pciAddress s \<Longrightarrow> s \<noteq> []"
  using pciAddress_length by fastforce

lemma probeSRIOV_Inr:
  assumes "probeSRIOV sy root busID = Inr s"
  shows "pciAddress busID \<and> os_Stat sy (filepath_Join [root, ToLower busID]) = Inr () \<and>
         supported_layout busID s"
  using assms pciAddress_nonempty [of "parentPCIBusID s"]
  by (auto simp: probeSRIOV_def Let_def supported_layout_def isVF_def
      split: if_splits sum.splits)

lemma probeSRIOV_VF:
  assumes "probeSRIOV sy root busID = Inr s" and "isVF s"
  shows "readSysfsLinkBase sy (filepath_Join [root, ToLower busID]) ''physfn'' = Inr (parentPCIBusID s) \<and>
         readSRIOVNumVFs sy (filepath_Join [root, parentPCIBusID s]) = Inr (numVFs s)"
  using assms by (auto simp: probeSRIOV_def Let_def isVF_def split: if_splits sum.splits)

text \<open>
  \<open>errUnsupportedDevice\<close> is a private sentinel of the driver: no \<open>os\<close> call returns it.
\<close>

definition os_errors_only :: "sysfs \<Rightarrow> bool" where
  "os_errors_only sy \<longleftrightarrow>
     (\<forall>p e. os_ReadDir sy p = Inl e \<or> os_ReadFile sy p = Inl e \<or> os_Stat sy p = Inl e \<or>
        os_Lstat sy p = Inl e \<or> os_Readlink sy p = Inl e \<longrightarrow> \<not> errors_Is_Unsupported e)"

lemma readSRIOVNumVFs_err:
  "os_errors_only sy \<Longrightarrow> readSRIOVNumVFs sy p = Inl e \<Longrightarrow> \<not> errors_Is_Unsupported e"
  by (auto simp: os_errors_only_def readSRIOVNumVFs_def readSysfsValue_def
      split: sum.splits option.splits if_splits)

lemma readSysfsLinkBase_err:
  "os_errors_only sy \<Longrightarrow> readSysfsLinkBase sy p n = Inl e \<Longrightarrow> \<not> errors_Is_Unsupported e"
  by (auto simp: os_errors_only_def readSysfsLinkBase_def split: sum.splits)

text \<open>
  A probe reports an unsupported layout only after it has read a VF count outside the supported
  ones: a failed read never passes for one.
\<close>

lemma probeSRIOV_unsupported:
  assumes sy: "os_errors_only sy"
    and "probeSRIOV sy root busID = Inl e" and "errors_Is_Unsupported e"
  shows "\<exists>p n. readSRIOVNumVFs sy p = Inr n \<and> n \<notin> {1, 4}"
proof -
  have stat: "os_Stat sy p = Inl e' \<Longrightarrow> \<not> errors_Is_Unsupported e'"
    "os_Lstat sy p = Inl e' \<Longrightarrow> \<not> errors_Is_Unsupported e'" for p e'
    using sy by (auto simp: os_errors_only_def)
  show ?thesis
    using assms(2,3)
    by (auto simp: probeSRIOV_def Let_def dest: stat readSRIOVNumVFs_err [OF sy]
        readSysfsLinkBase_err [OF sy] split: if_splits sum.splits)
qed

lemma FormatInt_1_4: "FormatInt 1 = ''1''" "FormatInt 4 = ''4''"
  by code_simp+

lemma supported_VF_mode:
  "supported_layout b s \<Longrightarrow> isVF s \<Longrightarrow> partitionMode s = ''vf1'' \<or> partitionMode s = ''vf4''"
  by (auto simp: supported_layout_def partitionMode_def FormatInt_1_4)

section \<open>Logical names\<close>

lemma deviceName_inj_mode:
  assumes "isVF s" "isVF t" "deviceName s base = deviceName t base"
  shows "numVFs s = numVFs t"
  using assms by (simp add: deviceName_def partitionMode_def)

section \<open>Attributes\<close>

lemma gm_ok_setAttributes: "gm_ok a \<Longrightarrow> gm_ok (setAttributes s a)"
  by (simp add: setAttributes_def Let_def)

lemma setAttributes_other:
  "k \<notin> {vfAttributeKey, parentPCIBusIDAttributeKey, partitionModeAttributeKey, numVFsAttributeKey} \<Longrightarrow>
     gm_get (setAttributes s a) k = gm_get a k"
  by (simp add: setAttributes_def Let_def)

lemma setAttributes_get:
  "gm_get (setAttributes s a) vfAttributeKey = Some (bool_attr (isVF s))"
  "gm_get (setAttributes s a) partitionModeAttributeKey = Some (string_attr (partitionMode s))"
  "gm_get (setAttributes s a) numVFsAttributeKey = Some (int_attr (numVFs s))"
  "gm_get (setAttributes s a) parentPCIBusIDAttributeKey =
     (if isVF s then Some (string_attr (parentPCIBusID s)) else gm_get a parentPCIBusIDAttributeKey)"
  by (simp_all add: setAttributes_def Let_def attribute_keys)

end
