(* ===== verification/Enumeration.thy ===== *)
theory Enumeration
  imports Sriov "HOL-Library.Sublist"
begin

text \<open>
  What the two device enumerations (\<open>enumerateVfioDevices\<close> in \<open>vfio.go\<close>, \<open>npuDevicesFromInventory\<close>
  in \<open>state.go\<close>) have in common. Both are a loop over entries whose body ends in one of four ways:
  \<open>continue\<close>, a \<open>skippedDevice\<close>, a published device, or an error that aborts the whole pass.
  The body is the parameter of \<open>enum_loop\<close>; \<open>device_source\<close> is the contract of such a body and
  holds what follows for the loop.
\<close>

record skippedDevice =
  skip_name :: string
  skip_pciBusID :: string
  skip_sriov :: sriovInfo
  skip_err :: "goerr option"

definition no_sriov :: sriovInfo where
  "no_sriov = \<lparr>parentPCIBusID = [], numVFs = 0\<rparr>"

datatype outcome = Ignore | Skip skippedDevice | Publish Device

type_synonym enumeration = "(Device list \<times> skippedDevice list) result"

fun enum_loop :: "('a \<Rightarrow> outcome result) \<Rightarrow> 'a list \<Rightarrow> Device list \<Rightarrow> skippedDevice list \<Rightarrow> enumeration" where
  "enum_loop body [] devices skipped = Inr (devices, skipped)"
| "enum_loop body (x # xs) devices skipped =
     (case body x of
        Inl err \<Rightarrow> Inl err
      | Inr Ignore \<Rightarrow> enum_loop body xs devices skipped
      | Inr (Skip s) \<Rightarrow> enum_loop body xs devices (skipped @ [s])
      | Inr (Publish d) \<Rightarrow> enum_loop body xs (devices @ [d]) skipped)"

definition published :: "('a \<Rightarrow> outcome result) \<Rightarrow> 'a list \<Rightarrow> Device list" where
  "published body xs = List.map_filter (\<lambda>x. case body x of Inr (Publish d) \<Rightarrow> Some d | _ \<Rightarrow> None) xs"

definition left_out :: "('a \<Rightarrow> outcome result) \<Rightarrow> 'a list \<Rightarrow> skippedDevice list" where
  "left_out body xs = List.map_filter (\<lambda>x. case body x of Inr (Skip s) \<Rightarrow> Some s | _ \<Rightarrow> None) xs"

text \<open>The loop with its accumulators is the obvious specification.\<close>

lemma enum_loop_spec:
  "enum_loop body xs devices skipped =
     (case find (\<lambda>x. isl (body x)) xs of
        Some x \<Rightarrow> Inl (projl (body x))
      | None \<Rightarrow> Inr (devices @ published body xs, skipped @ left_out body xs))"
proof (induction xs arbitrary: devices skipped)
  case Nil
  then show ?case by (simp add: published_def left_out_def)
next
  case (Cons x xs)
  show ?case
  proof (cases "body x")
    case (Inr out)
    then show ?thesis
      using Cons.IH by (cases out) (auto simp: published_def left_out_def split: option.split)
  qed simp
qed

lemma enum_loop_Inr:
  "enum_loop body xs [] [] = Inr (ds, sk) \<longleftrightarrow>
     (\<forall>x\<in>set xs. \<not> isl (body x)) \<and> ds = published body xs \<and> sk = left_out body xs"
  by (auto simp: enum_loop_spec find_None_iff split: option.splits dest: find_SomeD)

lemma enum_loop_Inl:
  "enum_loop body xs [] [] = Inl e \<Longrightarrow> \<exists>x\<in>set xs. body x = Inl e"
  by (auto simp: enum_loop_spec isl_def split: option.splits dest!: find_SomeD)

lemma set_published: "d \<in> set (published body xs) \<longleftrightarrow> (\<exists>x\<in>set xs. body x = Inr (Publish d))"
  by (force simp: published_def List.map_filter_def split: sum.splits outcome.splits)

lemma set_left_out: "s \<in> set (left_out body xs) \<longleftrightarrow> (\<exists>x\<in>set xs. body x = Inr (Skip s))"
  by (force simp: left_out_def List.map_filter_def split: sum.splits outcome.splits)

lemma distinct_subseq: "subseq xs ys \<Longrightarrow> distinct ys \<Longrightarrow> distinct xs"
  by (induction rule: list_emb.induct) (auto dest: list_emb_set)

locale device_source =
  fixes body :: "'a \<Rightarrow> outcome result"
    and bus :: "'a \<Rightarrow> string"
    and good :: "'a \<Rightarrow> Device \<Rightarrow> bool"
  assumes publish_good: "body x = Inr (Publish d) \<Longrightarrow> good x d"
    and publish_bus: "body x = Inr (Publish d) \<Longrightarrow> deviceStringAttr d pciBusIDAttributeKey = bus x"
    and skip_bus: "body x = Inr (Skip s) \<Longrightarrow> skip_pciBusID s = bus x"
begin

lemma device_from_entry:
  assumes "enum_loop body xs [] [] = Inr (ds, sk)" and "d \<in> set ds"
  shows "\<exists>x\<in>set xs. body x = Inr (Publish d) \<and> good x d \<and>
           deviceStringAttr d pciBusIDAttributeKey = bus x"
  using assms publish_good publish_bus by (auto simp: enum_loop_Inr set_published)

lemma buses_subseq:
  "subseq (map (\<lambda>d. deviceStringAttr d pciBusIDAttributeKey) (published body xs)) (map bus xs)"
proof (induction xs)
  case (Cons x xs)
  then show ?case
    by (cases "body x") (auto simp: published_def publish_bus split: outcome.splits)
qed (simp add: published_def)

text \<open>Entries with distinct addresses publish devices with distinct addresses.\<close>

lemma buses_distinct:
  assumes "enum_loop body xs [] [] = Inr (ds, sk)" and "distinct (map (\<lambda>x. h (bus x)) xs)"
  shows "distinct (map (\<lambda>d. h (deviceStringAttr d pciBusIDAttributeKey)) ds)"
proof -
  have "ds = published body xs"
    using assms(1) by (simp add: enum_loop_Inr)
  then have "subseq (map h (map (\<lambda>d. deviceStringAttr d pciBusIDAttributeKey) ds)) (map h (map bus xs))"
    using buses_subseq by (metis subseq_map)
  then show ?thesis
    using assms(2) distinct_subseq by (fastforce simp: comp_def)
qed

text \<open>A published entry is not reported as skipped.\<close>

lemma published_not_skipped:
  assumes "enum_loop body xs [] [] = Inr (ds, sk)" and "distinct (map bus xs)"
    and "d \<in> set ds" and "s \<in> set sk"
  shows "deviceStringAttr d pciBusIDAttributeKey \<noteq> skip_pciBusID s"
proof -
  obtain x where x: "x \<in> set xs" "body x = Inr (Publish d)"
    using assms(1,3) by (auto simp: enum_loop_Inr set_published)
  obtain y where y: "y \<in> set xs" "body y = Inr (Skip s)"
    using assms(1,4) by (auto simp: enum_loop_Inr set_left_out)
  have "x \<noteq> y" using x y by auto
  then have "bus x \<noteq> bus y"
    using assms(2) x(1) y(1) by (metis distinct_map inj_onD)
  then show ?thesis
    using publish_bus [OF x(2)] skip_bus [OF y(2)] by simp
qed

end

end
