(* ===== verification/Vfio.thy ===== *)
theory Vfio
  imports Enumeration
begin

text \<open>
  \<open>cmd/npu-kubelet-plugin/vfio.go\<close>: the enumeration of NPUs bound to vfio-pci, and the IOMMU
  group checks. \<open>vfioEntry\<close> is the body of the loop of \<open>enumerateVfioDevices\<close>, \<open>vfioDevice\<close> the
  device it builds at its end. The container edits of a VFIO device are in \<open>Device_Nodes\<close>.
\<close>

definition npuPCIClassID :: string where
  "npuPCIClassID = ''0x120000''"

definition vfioPCIDriverName :: string where
  "vfioPCIDriverName = ''vfio-pci''"

definition pciDeviceIDToProductName :: "(string, string) gomap" where
  "pciDeviceIDToProductName =
     [(''1220'', ''RBLN-CA22''), (''1221'', ''RBLN-CA22''), (''1250'', ''RBLN-CA25''),
      (''1251'', ''RBLN-CA25''), (''2130'', ''RBLN-CR13''), (''2131'', ''RBLN-CR13'')]"

definition vfioDeviceName :: "string \<Rightarrow> string" where
  "vfioDeviceName busID =
     ''vfio-'' @ ToLower (map (\<lambda>c. if c = CHR '':'' \<or> c = CHR ''.'' then CHR ''-'' else c) busID)"

definition deviceIOMMUGroupFromSysfs :: "sysfs \<Rightarrow> string \<Rightarrow> int result" where
  "deviceIOMMUGroupFromSysfs sy devPath =
     (case readSysfsLinkBase sy devPath ''iommu_group'' of
        Inl err \<Rightarrow> Inl err
      | Inr base \<Rightarrow>
          (case ParseInt base of
             None \<Rightarrow> Inl (Wrapf ''unexpected iommu group %q for %s: %w'' [base, devPath] (ErrLib ''strconv.ParseInt''))
           | Some grp \<Rightarrow> Inr grp))"

definition isolatedIOMMUGroup :: "sysfs \<Rightarrow> string \<Rightarrow> string \<Rightarrow> int result" where
  "isolatedIOMMUGroup sy devPath busID =
     (case deviceIOMMUGroupFromSysfs sy devPath of
        Inl err \<Rightarrow>
          if errors_Is_NotExist err then Inl (Wrapf ''%w: no IOMMU group for %s'' [busID] ErrUnsupportedDevice)
          else Inl err
      | Inr grp \<Rightarrow>
          (case os_ReadDir sy (filepath_Join [devPath, ''iommu_group'', ''devices'']) of
             Inl err \<Rightarrow> Inl err
           | Inr members \<Rightarrow>
               (case members of
                  [m] \<Rightarrow> if EqualFold m busID then Inr grp
                          else Inl (Wrapf ''%w: IOMMU group %d is not exclusive to %s'' [FormatInt grp, busID]
                                      ErrUnsupportedDevice)
                | _ \<Rightarrow> Inl (Wrapf ''%w: IOMMU group %d is not exclusive to %s'' [FormatInt grp, busID]
                             ErrUnsupportedDevice))))"

definition vfioProductAttrs :: "sysfs \<Rightarrow> string \<Rightarrow> attributes \<Rightarrow> attributes" where
  "vfioProductAttrs sy devPath attrs =
     (case readSysfsValue sy devPath ''device'' of
        Inl _ \<Rightarrow> attrs
      | Inr raw \<Rightarrow>
          let deviceID = TrimPrefix raw ''0x'';
              attrs1 = gm_put ''pciDeviceID'' (string_attr deviceID) attrs
          in case gm_get pciDeviceIDToProductName deviceID of
               Some productName \<Rightarrow> gm_put ''productName'' (string_attr productName) attrs1
             | None \<Rightarrow> attrs1)"

definition vfioDevice :: "sysfs \<Rightarrow> string \<Rightarrow> string \<Rightarrow> string \<Rightarrow> sriovInfo \<Rightarrow> int \<Rightarrow> Device" where
  "vfioDevice sy root busID name sriov grp =
     (let devPath = filepath_Join [root, busID];
          a0 = gm_put iommuGroupAttributeKey (int_attr grp)
                 (gm_put pciBusIDAttributeKey (string_attr busID)
                   (gm_put deviceTypeAttributeKey (string_attr deviceTypeVfio) gm_empty));
          a1 = vfioProductAttrs sy devPath a0;
          a2 = fst (setPCIERootAttr sy a1 root busID);
          a3 = (case readSysfsValue sy devPath ''numa_node'' of
                  Inl _ \<Rightarrow> a2
                | Inr numa \<Rightarrow> setNumaNodeAttr a2 numa)
      in \<lparr>Name = name, Attributes = setAttributes sriov a3, Capacity = gm_empty\<rparr>)"

definition vfioEntry :: "sysfs \<Rightarrow> string \<Rightarrow> (string, bool) gomap \<Rightarrow> string \<Rightarrow> outcome result" where
  "vfioEntry sy root known busID =
     (if \<not> pciAddress busID then Inr Ignore
      else let devPath = filepath_Join [root, busID] in
        case isRebellionsPCI sy devPath known of
          Inl err \<Rightarrow> Inl err
        | Inr matches \<Rightarrow>
            if \<not> matches then Inr Ignore
            else (case readPCIDriver sy devPath of
              Inl err \<Rightarrow> Inl err
            | Inr driver \<Rightarrow>
                if driver \<noteq> vfioPCIDriverName then Inr Ignore
                else (case readSysfsValue sy devPath ''class'' of
                  Inl err \<Rightarrow> if pciEntryRemoved sy devPath err then Inr Ignore else Inl err
                | Inr class \<Rightarrow>
                    if class \<noteq> npuPCIClassID then Inr Ignore
                    else let name = vfioDeviceName busID in
                      case probeSRIOV sy root busID of
                        Inl err \<Rightarrow>
                          if \<not> errors_Is_Unsupported err then Inl err
                          else Inr (Skip \<lparr>skip_name = name, skip_pciBusID = busID,
                                          skip_sriov = no_sriov, skip_err = Some err\<rparr>)
                      | Inr sriov \<Rightarrow>
                          if isHostingPF sriov
                          then Inr (Skip \<lparr>skip_name = name, skip_pciBusID = busID,
                                          skip_sriov = sriov, skip_err = None\<rparr>)
                          else let name' = deviceName sriov name in
                            case isolatedIOMMUGroup sy devPath busID of
                              Inl err \<Rightarrow>
                                if \<not> errors_Is_Unsupported err then Inl err
                                else Inr (Skip \<lparr>skip_name = name', skip_pciBusID = busID,
                                                skip_sriov = no_sriov, skip_err = Some err\<rparr>)
                            | Inr grp \<Rightarrow> Inr (Publish (vfioDevice sy root busID name' sriov grp)))))"

definition enumerateVfioDevices :: "sysfs \<Rightarrow> string \<Rightarrow> (string, bool) gomap \<Rightarrow> enumeration" where
  "enumerateVfioDevices sy root known =
     (case os_ReadDir sy root of
        Inl err \<Rightarrow> Inl (Wrapf ''read %s: %w'' [root] err)
      | Inr entries \<Rightarrow> enum_loop (vfioEntry sy root known) entries [] [])"

definition deviceIOMMUGroup :: "Device \<Rightarrow> string result" where
  "deviceIOMMUGroup d =
     (case gm_get (Attributes d) iommuGroupAttributeKey of
        None \<Rightarrow> Inl (Errorf ''device %q is missing attribute %s'' [Name d, iommuGroupAttributeKey])
      | Some attr \<Rightarrow>
          (case IntValue attr of
             None \<Rightarrow> Inl (Errorf ''device %q is missing attribute %s'' [Name d, iommuGroupAttributeKey])
           | Some v \<Rightarrow> Inr (FormatInt v)))"

section \<open>IOMMU groups\<close>

lemma isolatedIOMMUGroup_Inr:
  "isolatedIOMMUGroup sy devPath busID = Inr g \<longleftrightarrow>
     deviceIOMMUGroupFromSysfs sy devPath = Inr g \<and>
     (\<exists>m. os_ReadDir sy (filepath_Join [devPath, ''iommu_group'', ''devices'']) = Inr [m] \<and> EqualFold m busID)"
  by (auto simp: isolatedIOMMUGroup_def split: sum.splits list.splits if_splits)

lemma deviceIOMMUGroupFromSysfs_range:
  "deviceIOMMUGroupFromSysfs sy devPath = Inr g \<Longrightarrow> - (2 ^ 63) \<le> g \<and> g < 2 ^ 63"
  using ParseInt_range by (auto simp: deviceIOMMUGroupFromSysfs_def split: sum.splits option.splits)

section \<open>The published VFIO device\<close>

lemma gm_ok_vfioProductAttrs: "gm_ok a \<Longrightarrow> gm_ok (vfioProductAttrs sy p a)"
  by (auto simp: vfioProductAttrs_def Let_def split: sum.splits option.splits)

lemma vfioProductAttrs_other:
  "k \<noteq> ''pciDeviceID'' \<Longrightarrow> k \<noteq> ''productName'' \<Longrightarrow> gm_get (vfioProductAttrs sy p a) k = gm_get a k"
  by (auto simp: vfioProductAttrs_def Let_def split: sum.splits option.splits)

lemma vfioDevice_ok: "gm_ok (Attributes (vfioDevice sy root b n s g))"
  by (auto simp: vfioDevice_def Let_def gm_ok_setAttributes gm_ok_setNumaNodeAttr
      gm_ok_setPCIERootAttr gm_ok_vfioProductAttrs split: sum.splits)

lemmas attr_frames = setAttributes_other setNumaNodeAttr_other setPCIERootAttr_other

lemma vfioDevice_get:
  "gm_get (Attributes (vfioDevice sy root b n s g)) deviceTypeAttributeKey = Some (string_attr deviceTypeVfio)"
  "gm_get (Attributes (vfioDevice sy root b n s g)) pciBusIDAttributeKey = Some (string_attr b)"
  "gm_get (Attributes (vfioDevice sy root b n s g)) iommuGroupAttributeKey = Some (int_attr g)"
  by (simp_all add: vfioDevice_def Let_def attr_frames vfioProductAttrs_other attribute_keys split: sum.split)

lemma vfioDevice_get_sriov:
  "gm_get (Attributes (vfioDevice sy root b n s g)) partitionModeAttributeKey = Some (string_attr (partitionMode s))"
  "gm_get (Attributes (vfioDevice sy root b n s g)) numVFsAttributeKey = Some (int_attr (numVFs s))"
  "gm_get (Attributes (vfioDevice sy root b n s g)) vfAttributeKey = Some (bool_attr (isVF s))"
  by (simp_all add: vfioDevice_def Let_def setAttributes_get)

lemma vfioDevice_get_parent:
  "gm_get (Attributes (vfioDevice sy root b n s g)) parentPCIBusIDAttributeKey =
     (if isVF s then Some (string_attr (parentPCIBusID s)) else None)"
  unfolding vfioDevice_def Let_def
  by (simp add: setAttributes_get)
     (simp add: setNumaNodeAttr_other setPCIERootAttr_other vfioProductAttrs_other attribute_keys split: sum.split)

lemma vfioDevice_attrs [simp]:
  "Name (vfioDevice sy root b n s g) = n"
  "deviceStringAttr (vfioDevice sy root b n s g) deviceTypeAttributeKey = deviceTypeVfio"
  "deviceStringAttr (vfioDevice sy root b n s g) pciBusIDAttributeKey = b"
  "deviceIntAttr (vfioDevice sy root b n s g) iommuGroupAttributeKey = Some g"
  "deviceStringAttr (vfioDevice sy root b n s g) partitionModeAttributeKey = partitionMode s"
  "deviceStringAttr (vfioDevice sy root b n s g) parentPCIBusIDAttributeKey = parentPCIBusID s"
  "isVfioDevice (vfioDevice sy root b n s g)"
  by (simp_all add: isVfioDevice_iff deviceStringAttr_def deviceIntAttr_def vfioDevice_get
      vfioDevice_get_sriov vfioDevice_get_parent attr_defs isVF_def)
     (simp add: vfioDevice_def Let_def)

text \<open>What a VFIO entry of the inventory stands for in the view it was read from.\<close>

definition vfio_usable :: "sysfs \<Rightarrow> string \<Rightarrow> string \<Rightarrow> Device \<Rightarrow> bool" where
  "vfio_usable sy root busID d \<longleftrightarrow>
     (let devPath = filepath_Join [root, busID] in
      pciAddress busID \<and>
      (\<exists>v. readSysfsValue sy devPath ''vendor'' = Inr v \<and> EqualFold v rblnPCIVendorID) \<and>
      readPCIDriver sy devPath = Inr vfioPCIDriverName \<and>
      readSysfsValue sy devPath ''class'' = Inr npuPCIClassID \<and>
      (\<exists>s g. probeSRIOV sy root busID = Inr s \<and> \<not> isHostingPF s \<and>
             isolatedIOMMUGroup sy devPath busID = Inr g \<and>
             d = vfioDevice sy root busID (deviceName s (vfioDeviceName busID)) s g))"

lemma vfioEntry_Publish:
  "vfioEntry sy root known busID = Inr (Publish d) \<longleftrightarrow> vfio_usable sy root busID d"
proof
  assume "vfioEntry sy root known busID = Inr (Publish d)"
  then show "vfio_usable sy root busID d"
    using isRebellionsPCI_True [of sy "filepath_Join [root, busID]" known]
    by (auto simp: vfioEntry_def vfio_usable_def Let_def split: if_splits sum.splits)
next
  assume "vfio_usable sy root busID d"
  then show "vfioEntry sy root known busID = Inr (Publish d)"
    using isRebellionsPCI_True [of sy "filepath_Join [root, busID]" known]
    by (auto simp: vfioEntry_def vfio_usable_def Let_def)
qed

lemma vfioEntry_Skip:
  "vfioEntry sy root known busID = Inr (Skip s) \<Longrightarrow> skip_pciBusID s = busID"
  by (auto simp: vfioEntry_def Let_def split: if_splits sum.splits)

interpretation vfio: device_source "vfioEntry sy root known" "\<lambda>b. b" "vfio_usable sy root"
  for sy root known
proof
  fix x d
  assume "vfioEntry sy root known x = Inr (Publish d)"
  then show "vfio_usable sy root x d" "deviceStringAttr d pciBusIDAttributeKey = x"
    by (auto simp: vfioEntry_Publish vfio_usable_def Let_def)
qed (rule vfioEntry_Skip)

section \<open>Names\<close>

lemma length_vfioDeviceName: "length (vfioDeviceName b) = 5 + length b"
  by (simp add: vfioDeviceName_def)

text \<open>
  The separators of an address stand at fixed places, so replacing both by a dash loses nothing:
  two addresses get the same name exactly when they differ in letter case only.
\<close>

lemma vfioDeviceName_inj:
  assumes a: "pciAddress a" and b: "pciAddress b"
  shows "vfioDeviceName a = vfioDeviceName b \<longleftrightarrow> EqualFold a b"
proof
  let ?r = "\<lambda>c. if c = CHR '':'' \<or> c = CHR ''.'' then CHR ''-'' else c"
  have hex: "is_hex c \<Longrightarrow> ?r c = c" for c
    by (auto simp: is_hex_def)
  have cls: "\<forall>p \<in> set pciAddressRegexp. \<forall>x y. p x \<longrightarrow> p y \<longrightarrow>
      lower_char (?r x) = lower_char (?r y) \<longrightarrow> lower_char x = lower_char y"
    using hex octal_is_hex by (auto simp: pciAddressRegexp_def)
  have at: "i < 12 \<Longrightarrow> (pciAddressRegexp ! i) (a ! i) \<and> (pciAddressRegexp ! i) (b ! i) \<and>
      pciAddressRegexp ! i \<in> set pciAddressRegexp" for i
    using a b by (auto simp: pciAddress_def match_classes_def list_all2_conv_all_nth)
  assume "vfioDeviceName a = vfioDeviceName b"
  then have "map (\<lambda>c. lower_char (?r c)) a = map (\<lambda>c. lower_char (?r c)) b"
    by (simp add: vfioDeviceName_def ToLower_def comp_def)
  then have "\<forall>i < 12. lower_char (?r (a ! i)) = lower_char (?r (b ! i))"
    using pciAddress_length [OF a] pciAddress_length [OF b] by (metis (no_types, lifting) nth_map)
  then have "\<forall>i < 12. lower_char (a ! i) = lower_char (b ! i)"
    using at cls by blast
  then show "EqualFold a b"
    using pciAddress_length [OF a] pciAddress_length [OF b]
    by (simp add: EqualFold_def ToLower_def list_eq_iff_nth_eq)
next
  let ?r = "\<lambda>c. if c = CHR '':'' \<or> c = CHR ''.'' then CHR ''-'' else c"
  have hex: "c \<noteq> CHR '':'' \<and> c \<noteq> CHR ''.''" if "is_hex c" for c
    using that by (auto simp: is_hex_def)
  have sep: "lower_char (CHR '':'') = CHR '':''" "lower_char (CHR ''.'') = CHR ''.''"
    "lower_char (CHR ''-'') = CHR ''-''"
    by (simp_all add: lower_fixed)
  have chr: "lower_char (?r c) = ?r (lower_char c)" if "pci_char c" for c
    using that hex [of c] hex [of "lower_char c"] is_hex_lower [of c] sep by (auto simp: pci_char_def)
  have rep: "map lower_char (map ?r x) = map ?r (map lower_char x)" if "pciAddress x" for x
    unfolding map_map comp_def
    by (rule map_cong [OF refl]) (rule chr, rule pciAddress_chars [OF that])
  assume "EqualFold a b"
  then show "vfioDeviceName a = vfioDeviceName b"
    using rep [OF a] rep [OF b] by (simp add: vfioDeviceName_def EqualFold_def ToLower_def)
qed

text \<open>With the profile in the name, a VFIO device name identifies the function and its layout.\<close>

lemma FormatInt_layout_length:
  "supported_layout b s \<Longrightarrow> isVF s \<Longrightarrow> length (partitionMode s) = 3"
  using supported_VF_mode by fastforce

lemma vfio_name_inj:
  assumes "pciAddress a" "pciAddress b" "supported_layout a s" "supported_layout b t"
    and "deviceName s (vfioDeviceName a) = deviceName t (vfioDeviceName b)"
  shows "EqualFold a b \<and> partitionMode s = partitionMode t"
proof -
  have len: "length (vfioDeviceName a) = 17" "length (vfioDeviceName b) = 17"
    using assms(1,2) pciAddress_length by (auto simp: length_vfioDeviceName)
  have "isVF s = isVF t"
    using arg_cong [OF assms(5), of length] len
    by (auto simp: deviceName_def split: if_splits)
  with assms(5) len have "vfioDeviceName a = vfioDeviceName b \<and> partitionMode s = partitionMode t"
    by (auto simp: deviceName_def partitionMode_def split: if_splits)
  with assms(1,2) show ?thesis by (simp add: vfioDeviceName_inj)
qed

end
