(* ===== verification/Inventory.thy ===== *)
theory Inventory
  imports Vfio
begin

text \<open>
  The native inventory of \<open>cmd/npu-kubelet-plugin/state.go\<close>: \<open>npuDevicesFromInventory\<close> turns what
  rbln-smi reports into publishable devices, \<open>countNativeCandidates\<close> (\<open>scan.go\<close>) decides whether
  rbln-smi is worth running.

  \<open>smi_device\<close> has the fields of rblnlib-go's \<open>device.Device\<close> that the driver reads. The call
  \<open>device.GetDevices\<close> itself is third-party code: its answer is an argument.
\<close>

record smi_device =
  smi_Name :: string
  smi_ProductName :: string
  smi_SID :: string
  smi_UUID :: string
  smi_PCIDeviceID :: string
  smi_PCIBusID :: string
  smi_PCILinkSpeed :: string
  smi_PCILinkWidth :: string
  smi_FirmwareVersion :: string
  smi_KMDVersion :: string
  smi_PCINumaNode :: string
  smi_MemoryTotalBytes :: int

definition npuBaseAttrs :: "smi_device \<Rightarrow> sriovInfo \<Rightarrow> attributes" where
  "npuBaseAttrs d sriov =
     fold (\<lambda>(k, v) m. gm_put k (string_attr v) m)
       [(deviceNodeNameAttributeKey, smi_Name d),
        (deviceTypeAttributeKey, if isVF sriov then deviceTypeNpuVF else deviceTypeNpu),
        (''productName'', smi_ProductName d),
        (''sid'', smi_SID d),
        (''uuid'', smi_UUID d),
        (''pciDeviceID'', smi_PCIDeviceID d),
        (pciBusIDAttributeKey, smi_PCIBusID d),
        (''pciLinkSpeed'', smi_PCILinkSpeed d),
        (''pciLinkWidth'', smi_PCILinkWidth d),
        (''firmwareVersion'', smi_FirmwareVersion d),
        (''driverVersion'', smi_KMDVersion d)] gm_empty"

definition npuDevice :: "sysfs \<Rightarrow> string \<Rightarrow> smi_device \<Rightarrow> sriovInfo \<Rightarrow> Device" where
  "npuDevice sy sysfsRoot d sriov =
     (let a1 = setAttributes sriov (npuBaseAttrs d sriov);
          a2 = setNumaNodeAttr a1 (smi_PCINumaNode d);
          a3 = fst (setPCIERootAttr sy a2 sysfsRoot (smi_PCIBusID d))
      in \<lparr>Name = deviceName sriov (smi_Name d),
          Attributes = a3,
          Capacity = (if smi_MemoryTotalBytes d > 0
                      then gm_put ''memory'' (smi_MemoryTotalBytes d) gm_empty else gm_empty)\<rparr>)"

definition npuEntry :: "sysfs \<Rightarrow> string \<Rightarrow> smi_device \<Rightarrow> outcome result" where
  "npuEntry sy sysfsRoot d =
     (let devPath = filepath_Join [sysfsRoot, ToLower (smi_PCIBusID d)] in
      case os_Stat sy devPath of
        Inl err \<Rightarrow>
          if errors_Is_NotExist err
          then Inr (Skip \<lparr>skip_name = smi_Name d, skip_pciBusID = smi_PCIBusID d,
                          skip_sriov = no_sriov, skip_err = Some err\<rparr>)
          else Inl err
      | Inr _ \<Rightarrow>
          (case readPCIDriver sy devPath of
             Inl err \<Rightarrow> Inl err
           | Inr driver \<Rightarrow>
               if driver \<noteq> nativePCIDriverName then Inr Ignore
               else (case probeSRIOV sy sysfsRoot (smi_PCIBusID d) of
                 Inl err \<Rightarrow>
                   if \<not> errors_Is_Unsupported err then Inl err
                   else Inr (Skip \<lparr>skip_name = smi_Name d, skip_pciBusID = smi_PCIBusID d,
                                   skip_sriov = no_sriov, skip_err = Some err\<rparr>)
               | Inr sriov \<Rightarrow>
                   if isHostingPF sriov
                   then Inr (Skip \<lparr>skip_name = smi_Name d, skip_pciBusID = smi_PCIBusID d,
                                   skip_sriov = sriov, skip_err = None\<rparr>)
                   else Inr (Publish (npuDevice sy sysfsRoot d sriov)))))"

definition npuDevicesFromInventory :: "sysfs \<Rightarrow> string \<Rightarrow> smi_device list \<Rightarrow> enumeration" where
  "npuDevicesFromInventory sy sysfsRoot devs = enum_loop (npuEntry sy sysfsRoot) devs [] []"

definition enumerateNpuDevices :: "sysfs \<Rightarrow> string \<Rightarrow> smi_device list result \<Rightarrow> enumeration" where
  "enumerateNpuDevices sy sysfsRoot inventory =
     (case inventory of
        Inl err \<Rightarrow> Inl err
      | Inr devs \<Rightarrow> npuDevicesFromInventory sy sysfsRoot devs)"

text \<open>One entry of \<open>countNativeCandidates\<close>: does the kernel driver expose this function?\<close>

definition nativeCandidate :: "sysfs \<Rightarrow> string \<Rightarrow> (string, bool) gomap \<Rightarrow> string \<Rightarrow> bool result" where
  "nativeCandidate sy root known name =
     (if \<not> pciAddress name then Inr False
      else let devPath = filepath_Join [root, name] in
        case isRebellionsPCI sy devPath known of
          Inl err \<Rightarrow> Inl err
        | Inr matches \<Rightarrow>
            if \<not> matches then Inr False
            else (case readPCIDriver sy devPath of
              Inl err \<Rightarrow> Inl err
            | Inr driver \<Rightarrow>
                if driver \<noteq> nativePCIDriverName then Inr False
                else (case readSRIOVNumVFs sy devPath of
                  Inl err \<Rightarrow> if errors_Is_NotExist err then Inr True else Inl err
                | Inr n \<Rightarrow> Inr (\<not> n > 0))))"

fun countLoop :: "('a \<Rightarrow> bool result) \<Rightarrow> 'a list \<Rightarrow> nat \<Rightarrow> nat result" where
  "countLoop test [] count = Inr count"
| "countLoop test (x # xs) count =
     (case test x of
        Inl err \<Rightarrow> Inl err
      | Inr b \<Rightarrow> countLoop test xs (if b then Suc count else count))"

definition countNativeCandidates :: "sysfs \<Rightarrow> string \<Rightarrow> (string, bool) gomap \<Rightarrow> nat result" where
  "countNativeCandidates sy root known =
     (case os_ReadDir sy root of
        Inl err \<Rightarrow> Inl (Wrapf ''read %s: %w'' [root] err)
      | Inr entries \<Rightarrow> countLoop (nativeCandidate sy root known) entries 0)"

section \<open>Counting\<close>

lemma countLoop_Inr:
  "countLoop test xs c = Inr n \<longleftrightarrow>
     (\<forall>x\<in>set xs. \<not> isl (test x)) \<and> n = c + length (filter (\<lambda>x. test x = Inr True) xs)"
proof (induction xs arbitrary: c)
  case (Cons x xs)
  show ?case
  proof (cases "test x")
    case (Inr b)
    then show ?thesis using Cons.IH by (cases b) auto
  qed simp
qed auto

lemma countNativeCandidates_zero:
  assumes "countNativeCandidates sy root known = Inr 0"
  shows "\<exists>entries. os_ReadDir sy root = Inr entries \<and>
           (\<forall>b\<in>set entries. nativeCandidate sy root known b = Inr False)"
proof -
  obtain entries where e: "os_ReadDir sy root = Inr entries"
    "countLoop (nativeCandidate sy root known) entries 0 = Inr 0"
    using assms by (auto simp: countNativeCandidates_def split: sum.splits)
  from e(2) have "\<forall>b\<in>set entries. \<not> isl (nativeCandidate sy root known b)"
    "filter (\<lambda>x. nativeCandidate sy root known x = Inr True) entries = []"
    by (simp_all add: countLoop_Inr)
  then have "nativeCandidate sy root known b = Inr False" if "b \<in> set entries" for b
    using that by (cases "nativeCandidate sy root known b") (auto simp: filter_empty_conv)
  with e(1) show ?thesis by blast
qed

section \<open>The published native device\<close>

lemma npuBaseAttrs_get:
  "gm_get (npuBaseAttrs d s) deviceNodeNameAttributeKey = Some (string_attr (smi_Name d))"
  "gm_get (npuBaseAttrs d s) deviceTypeAttributeKey =
     Some (string_attr (if isVF s then deviceTypeNpuVF else deviceTypeNpu))"
  "gm_get (npuBaseAttrs d s) pciBusIDAttributeKey = Some (string_attr (smi_PCIBusID d))"
  "gm_get (npuBaseAttrs d s) parentPCIBusIDAttributeKey = None"
  by (simp_all add: npuBaseAttrs_def attribute_keys)

lemma gm_ok_npuBaseAttrs: "gm_ok (npuBaseAttrs d s)"
  by (simp add: npuBaseAttrs_def)

lemma npuDevice_ok: "gm_ok (Attributes (npuDevice sy root d s))"
  by (simp add: npuDevice_def Let_def gm_ok_setPCIERootAttr gm_ok_setNumaNodeAttr
      gm_ok_setAttributes gm_ok_npuBaseAttrs)

lemma npuDevice_get_base:
  "k \<in> {deviceNodeNameAttributeKey, deviceTypeAttributeKey, pciBusIDAttributeKey} \<Longrightarrow>
     gm_get (Attributes (npuDevice sy root d s)) k = gm_get (npuBaseAttrs d s) k"
  by (auto simp: npuDevice_def Let_def attr_frames) (simp_all add: attr_frames attribute_keys)

lemma npuDevice_get_sriov:
  "k \<in> {partitionModeAttributeKey, numVFsAttributeKey, vfAttributeKey, parentPCIBusIDAttributeKey} \<Longrightarrow>
     gm_get (Attributes (npuDevice sy root d s)) k = gm_get (setAttributes s (npuBaseAttrs d s)) k"
  by (auto simp: npuDevice_def Let_def setNumaNodeAttr_other setPCIERootAttr_other)
     (simp_all add: setNumaNodeAttr_other setPCIERootAttr_other attribute_keys)

lemma npuDevice_attrs [simp]:
  "Name (npuDevice sy root d s) = deviceName s (smi_Name d)"
  "deviceStringAttr (npuDevice sy root d s) deviceNodeNameAttributeKey = smi_Name d"
  "deviceStringAttr (npuDevice sy root d s) deviceTypeAttributeKey =
     (if isVF s then deviceTypeNpuVF else deviceTypeNpu)"
  "deviceStringAttr (npuDevice sy root d s) pciBusIDAttributeKey = smi_PCIBusID d"
  "deviceStringAttr (npuDevice sy root d s) partitionModeAttributeKey = partitionMode s"
  "deviceStringAttr (npuDevice sy root d s) parentPCIBusIDAttributeKey = parentPCIBusID s"
  by (simp_all add: deviceStringAttr_def npuDevice_get_base npuDevice_get_sriov npuBaseAttrs_get
      setAttributes_get attr_defs isVF_def)
     (simp add: npuDevice_def Let_def)

lemma npuDevice_not_vfio [simp]: "\<not> isVfioDevice (npuDevice sy root d s)"
  by (simp add: isVfioDevice_iff device_types)

definition npu_usable :: "sysfs \<Rightarrow> string \<Rightarrow> smi_device \<Rightarrow> Device \<Rightarrow> bool" where
  "npu_usable sy root x d \<longleftrightarrow>
     (let devPath = filepath_Join [root, ToLower (smi_PCIBusID x)] in
      os_Stat sy devPath = Inr () \<and>
      readPCIDriver sy devPath = Inr nativePCIDriverName \<and>
      (\<exists>s. probeSRIOV sy root (smi_PCIBusID x) = Inr s \<and> \<not> isHostingPF s \<and> d = npuDevice sy root x s))"

lemma npuEntry_Publish: "npuEntry sy root x = Inr (Publish d) \<longleftrightarrow> npu_usable sy root x d"
  by (auto simp: npuEntry_def npu_usable_def Let_def split: if_splits sum.splits)

lemma npuEntry_Skip: "npuEntry sy root x = Inr (Skip s) \<Longrightarrow> skip_pciBusID s = smi_PCIBusID x"
  by (auto simp: npuEntry_def Let_def split: if_splits sum.splits)

interpretation npu: device_source "npuEntry sy root" smi_PCIBusID "npu_usable sy root"
  for sy root
proof
  fix x d
  assume "npuEntry sy root x = Inr (Publish d)"
  then show "npu_usable sy root x d" "deviceStringAttr d pciBusIDAttributeKey = smi_PCIBusID x"
    by (auto simp: npuEntry_Publish npu_usable_def Let_def)
qed (rule npuEntry_Skip)

end
