(* ===== verification/Consts.thy ===== *)
theory Consts
  imports Main
begin

text \<open>\<open>pkg/consts/consts.go\<close>: the name both programs know the driver by.\<close>

definition DriverName :: string where
  "DriverName = ''npu.rebellions.ai''"

end
