(* ===== verification/Prepared.thy ===== *)
theory Prepared
  imports Consts Resource_Api "HOL-Library.Word"
begin

text \<open>
  The data a prepared claim is made of: the CDI specification types the driver fills
  (\<open>cdispec\<close>), \<open>PreparedDevice\<close> of \<open>types.go\<close>, the claim and allocation types of the resource API
  the driver reads, and \<open>Checkpoint\<close> of \<open>checkpoint.go\<close>.

  A nil \<open>PreparedDevices\<close> slice and an empty one are both the empty list: the driver only ever
  builds the slice by appending to nil, so the two cannot be told apart in its own states.
\<close>

section \<open>CDI specifications\<close>

record DeviceNode =
  node_Path :: string
  node_HostPath :: string
  node_Permissions :: string
  node_UID :: "32 word option"
  node_GID :: "32 word option"

record Mount =
  mount_HostPath :: string
  mount_ContainerPath :: string
  mount_Options :: "string list"
  mount_Type :: string

record Hook =
  hook_HookName :: string
  hook_Path :: string
  hook_Args :: "string list"
  hook_Env :: "string list"
  hook_Timeout :: "int option"

record ContainerEdits =
  DeviceNodes :: "DeviceNode list"
  Mounts :: "Mount list"
  Hooks :: "Hook list"

record CDIDevice =
  cdi_Name :: string
  cdi_Edits :: ContainerEdits

record Spec =
  spec_Version :: string
  spec_Kind :: string
  spec_Devices :: "CDIDevice list"

definition no_edits :: ContainerEdits where
  "no_edits = \<lparr>DeviceNodes = [], Mounts = [], Hooks = []\<rparr>"

section \<open>Claims\<close>

record DeviceRequestAllocationResult =
  res_Request :: string
  res_Driver :: string
  res_Pool :: string
  res_Device :: string

record ResourceClaim =
  claim_UID :: string
  claim_Namespace :: string
  claim_Name :: string
  claim_Annotations :: "(string, string) gomap"
  claim_Allocation :: "DeviceRequestAllocationResult list option"

section \<open>Prepared devices\<close>

record DRADevice =
  RequestNames :: "string list"
  PoolName :: string
  DeviceName :: string
  CdiDeviceIds :: "string list"

record PreparedDevice =
  prep_Device :: DRADevice
  prep_Edits :: ContainerEdits

type_synonym PreparedDevices = "PreparedDevice list"
type_synonym PreparedClaims = "(string, PreparedDevices) gomap"

fun GetDevices :: "PreparedDevices \<Rightarrow> DRADevice list" where
  "GetDevices [] = []"
| "GetDevices (pd # pds) = prep_Device pd # GetDevices pds"

fun GetDeviceNames :: "PreparedDevices \<Rightarrow> string list" where
  "GetDeviceNames [] = []"
| "GetDeviceNames (pd # pds) = DeviceName (prep_Device pd) # GetDeviceNames pds"

lemma GetDevices_map: "GetDevices pds = map prep_Device pds"
  by (induction pds) auto

lemma GetDeviceNames_map: "GetDeviceNames pds = map (\<lambda>pd. DeviceName (prep_Device pd)) pds"
  by (induction pds) auto

section \<open>The checkpoint\<close>

text \<open>
  \<open>checkpoint.go\<close>. \<open>encoding/json\<close> and kubelet's \<open>checksum\<close> package are arguments: \<open>json_marshal\<close>
  and \<open>json_unmarshal\<close> work on the struct, \<open>checksum_new\<close> on bytes (of any type \<open>'b\<close>).
  \<open>ck.Verify(out)\<close> fails exactly when the checksum of \<open>out\<close> is not \<open>ck\<close>.
\<close>

record Checkpoint =
  Checksum :: "64 word"
  V1_PreparedClaims :: PreparedClaims

definition newCheckpoint :: Checkpoint where
  "newCheckpoint = \<lparr>Checksum = 0, V1_PreparedClaims = gm_empty\<rparr>"

definition MarshalCheckpoint ::
    "(Checkpoint \<Rightarrow> 'b result) \<Rightarrow> ('b \<Rightarrow> 64 word) \<Rightarrow> Checkpoint \<Rightarrow> Checkpoint \<times> 'b result" where
  "MarshalCheckpoint json_marshal checksum_new cp =
     (let cp0 = cp\<lparr>Checksum := 0\<rparr> in
      case json_marshal cp0 of
        Inl err \<Rightarrow> (cp0, Inl err)
      | Inr out \<Rightarrow>
          let cp1 = cp0\<lparr>Checksum := checksum_new out\<rparr> in (cp1, json_marshal cp1))"

definition UnmarshalCheckpoint ::
    "('b \<Rightarrow> Checkpoint \<Rightarrow> Checkpoint result) \<Rightarrow> 'b \<Rightarrow> Checkpoint \<Rightarrow> Checkpoint result" where
  "UnmarshalCheckpoint json_unmarshal data cp = json_unmarshal data cp"

definition VerifyChecksum ::
    "(Checkpoint \<Rightarrow> 'b result) \<Rightarrow> ('b \<Rightarrow> 64 word) \<Rightarrow> Checkpoint \<Rightarrow> Checkpoint \<times> goerr option" where
  "VerifyChecksum json_marshal checksum_new cp =
     (let ck = Checksum cp;
          cp0 = cp\<lparr>Checksum := 0\<rparr>
      in case json_marshal cp0 of
           Inl err \<Rightarrow> (cp0\<lparr>Checksum := ck\<rparr>, Some err)
         | Inr out \<Rightarrow>
             (cp0\<lparr>Checksum := ck\<rparr>,
              if checksum_new out = ck then None else Some (ErrLib ''checkpoint is corrupted'')))"

lemma VerifyChecksum_restores: "fst (VerifyChecksum m c cp) = cp"
  by (auto simp: VerifyChecksum_def Let_def split: sum.splits)

end
