(* ===== verification/Cdi.thy ===== *)
theory Cdi
  imports Prepared
begin

text \<open>
  \<open>cmd/npu-kubelet-plugin/cdi.go\<close>: the CDI handler. The CDI library (\<open>cdiapi\<close>, \<open>cdiparser\<close>), the
  YAML decoder and the files the RBLN toolkit leaves in the CDI root are the fields of \<open>cdi_env\<close>.
  The spec directory behind the library's cache is state: a map from spec names to specs.
  \<open>WriteSpec\<close> stores its spec or fails and stores nothing; \<open>RemoveSpec\<close> removes the named spec, is
  no error for an absent one, or fails and removes nothing.
\<close>

type_synonym specdir = "(string, Spec) gomap"

record rblnRuntimeMount =
  rt_HostPath :: string
  rt_ContainerPath :: string
  rt_Options :: "string list"
  rt_Type :: string

record rblnRuntimeHook =
  rt_HookName :: string
  rt_Path :: string
  rt_Args :: "string list"
  rt_Env :: "string list"
  rt_Timeout :: "int option"

record rblnRuntimeDevice =
  rt_Name :: string
  rt_Mounts :: "rblnRuntimeMount list"
  rt_Hooks :: "rblnRuntimeHook list"

record rblnRuntimeSpec =
  rt_Kind :: string
  rt_Devices :: "rblnRuntimeDevice list"

record cdi_env =
  cdi_ReadFile :: "string \<Rightarrow> string result"
  yaml_Unmarshal :: "string \<Rightarrow> rblnRuntimeSpec result"
  cdiapi_ParseSpec :: "string \<Rightarrow> Spec option result"
  cdiapi_MinimumRequiredVersion :: "Spec \<Rightarrow> string result"
  cdiapi_GenerateNameForTransientSpec :: "Spec \<Rightarrow> string \<Rightarrow> string result"
  cdiapi_GenerateTransientSpecName :: "string \<Rightarrow> string \<Rightarrow> string \<Rightarrow> string"
  cdiapi_Append :: "ContainerEdits \<Rightarrow> ContainerEdits \<Rightarrow> ContainerEdits"
  cdiparser_QualifiedName :: "string \<Rightarrow> string \<Rightarrow> string \<Rightarrow> string"
  cache_WriteSpec_err :: "Spec \<Rightarrow> string \<Rightarrow> goerr option"
  cache_RemoveSpec_err :: "string \<Rightarrow> goerr option"

record CDIHandler =
  cdi_root :: string
  cdi_class :: string

definition cdiCommonDeviceName :: string where "cdiCommonDeviceName = ''common''"
definition rblnRuntimeSpecFile :: string where "rblnRuntimeSpecFile = ''rbln.yaml''"
definition rblnRuntimeSpecKind :: string where "rblnRuntimeSpecKind = ''rebellions.ai/npu''"
definition rblnRuntimeDeviceName :: string where "rblnRuntimeDeviceName = ''runtime''"
definition rblnRDSSpecFile :: string where "rblnRDSSpecFile = ''rbln-rds.yaml''"
definition rblnRDSSpecKind :: string where "rblnRDSSpecKind = ''rebellions.ai/rds''"
definition rblnRDSDeviceName :: string where "rblnRDSDeviceName = ''all''"

definition NewCDIHandler :: "unit result \<Rightarrow> string \<Rightarrow> string \<Rightarrow> CDIHandler result" where
  "NewCDIHandler newCache root class =
     (case newCache of
        Inl err \<Rightarrow> Inl (Wrapf ''unable to create a new CDI cache: %w'' [] err)
      | Inr _ \<Rightarrow> Inr \<lparr>cdi_root = root, cdi_class = class\<rparr>)"

definition vendor :: "CDIHandler \<Rightarrow> string" where
  "vendor cdi = ''k8s.'' @ DriverName"

definition kind :: "CDIHandler \<Rightarrow> string" where
  "kind cdi = vendor cdi @ ''/'' @ cdi_class cdi"

definition WriteSpec :: "cdi_env \<Rightarrow> Spec \<Rightarrow> string \<Rightarrow> specdir \<Rightarrow> specdir \<times> goerr option" where
  "WriteSpec env spec name dir =
     (case cache_WriteSpec_err env spec name of
        Some err \<Rightarrow> (dir, Some err)
      | None \<Rightarrow> (gm_put name spec dir, None))"

definition RemoveSpec :: "cdi_env \<Rightarrow> string \<Rightarrow> specdir \<Rightarrow> specdir \<times> goerr option" where
  "RemoveSpec env name dir =
     (case cache_RemoveSpec_err env name of
        Some err \<Rightarrow> (dir, Some err)
      | None \<Rightarrow> (gm_del name dir, None))"

definition runtimeMount :: "rblnRuntimeMount \<Rightarrow> Mount" where
  "runtimeMount m = \<lparr>mount_HostPath = rt_HostPath m, mount_ContainerPath = rt_ContainerPath m,
                     mount_Options = rt_Options m, mount_Type = rt_Type m\<rparr>"

definition runtimeHook :: "rblnRuntimeHook \<Rightarrow> Hook" where
  "runtimeHook h = \<lparr>hook_HookName = rt_HookName h, hook_Path = rt_Path h, hook_Args = rt_Args h,
                    hook_Env = rt_Env h, hook_Timeout = rt_Timeout h\<rparr>"

definition getRuntimeUMDEdits :: "cdi_env \<Rightarrow> CDIHandler \<Rightarrow> (Mount list \<times> Hook list) result" where
  "getRuntimeUMDEdits env cdi =
     (let specPath = filepath_Join [cdi_root cdi, rblnRuntimeSpecFile] in
      case cdi_ReadFile env specPath of
        Inl err \<Rightarrow> Inl (Wrapf ''failed to read %s: %w'' [specPath] err)
      | Inr specBytes \<Rightarrow>
          (case yaml_Unmarshal env specBytes of
             Inl err \<Rightarrow> Inl (Wrapf ''failed to parse %s: %w'' [specPath] err)
           | Inr runtimeSpec \<Rightarrow>
               if rt_Kind runtimeSpec \<noteq> rblnRuntimeSpecKind
               then Inl (Errorf ''unexpected CDI kind %q in %s'' [rt_Kind runtimeSpec, specPath])
               else (case find (\<lambda>d. rt_Name d = rblnRuntimeDeviceName) (rt_Devices runtimeSpec) of
                       Some d \<Rightarrow> Inr (map runtimeMount (rt_Mounts d), map runtimeHook (rt_Hooks d))
                     | None \<Rightarrow> Inl (Errorf ''runtime device %q not found in %s'' [rblnRuntimeDeviceName, specPath]))))"

definition CreateCommonSpecFile :: "cdi_env \<Rightarrow> CDIHandler \<Rightarrow> specdir \<Rightarrow> specdir \<times> goerr option" where
  "CreateCommonSpecFile env cdi dir =
     (case getRuntimeUMDEdits env cdi of
        Inl err \<Rightarrow> (dir, Some (Wrapf ''failed to get runtime UMD edits: %w'' [] err))
      | Inr (mounts, hooks) \<Rightarrow>
          let spec = \<lparr>spec_Version = [], spec_Kind = kind cdi,
                      spec_Devices = [\<lparr>cdi_Name = cdiCommonDeviceName,
                        cdi_Edits = \<lparr>DeviceNodes = [], Mounts = mounts, Hooks = hooks\<rparr>\<rparr>]\<rparr>
          in case cdiapi_MinimumRequiredVersion env spec of
               Inl err \<Rightarrow> (dir, Some (Wrapf ''failed to get minimum required CDI spec version: %w'' [] err))
             | Inr minVersion \<Rightarrow>
                 let spec' = spec\<lparr>spec_Version := minVersion\<rparr> in
                 case cdiapi_GenerateNameForTransientSpec env spec' cdiCommonDeviceName of
                   Inl err \<Rightarrow> (dir, Some (Wrapf ''failed to generate Spec name: %w'' [] err))
                 | Inr specName \<Rightarrow> WriteSpec env spec' specName dir)"

definition getRDSDeviceNodes :: "cdi_env \<Rightarrow> CDIHandler \<Rightarrow> DeviceNode list result" where
  "getRDSDeviceNodes env cdi =
     (let specPath = filepath_Join [cdi_root cdi, rblnRDSSpecFile] in
      case cdi_ReadFile env specPath of
        Inl err \<Rightarrow> if os_IsNotExist err then Inr [] else Inl (Wrapf ''failed to read %s: %w'' [specPath] err)
      | Inr data \<Rightarrow>
          (case cdiapi_ParseSpec env data of
             Inl err \<Rightarrow> Inl (Wrapf ''failed to parse %s: %w'' [specPath] err)
           | Inr None \<Rightarrow> Inl (Errorf ''empty RDS CDI spec in %s'' [specPath])
           | Inr (Some spec) \<Rightarrow>
               if spec_Kind spec \<noteq> rblnRDSSpecKind
               then Inl (Errorf ''unexpected CDI kind %q in %s'' [spec_Kind spec, specPath])
               else (case find (\<lambda>d. cdi_Name d = rblnRDSDeviceName) (spec_Devices spec) of
                       Some d \<Rightarrow> Inr (DeviceNodes (cdi_Edits d))
                     | None \<Rightarrow> Inr [])))"

definition claimDeviceName :: "string \<Rightarrow> string \<Rightarrow> string" where
  "claimDeviceName claimUID device = claimUID @ ''-'' @ device"

definition claimSpecName :: "cdi_env \<Rightarrow> CDIHandler \<Rightarrow> string \<Rightarrow> string" where
  "claimSpecName env cdi claimUID = cdiapi_GenerateTransientSpecName env (vendor cdi) (cdi_class cdi) claimUID"

definition claimSpec :: "cdi_env \<Rightarrow> CDIHandler \<Rightarrow> string \<Rightarrow> PreparedDevices \<Rightarrow> Spec" where
  "claimSpec env cdi claimUID devices =
     \<lparr>spec_Version = [], spec_Kind = kind cdi,
      spec_Devices = map (\<lambda>d. \<lparr>cdi_Name = claimDeviceName claimUID (DeviceName (prep_Device d)),
                                cdi_Edits = cdiapi_Append env no_edits (prep_Edits d)\<rparr>) devices\<rparr>"

definition CreateClaimSpecFile ::
    "cdi_env \<Rightarrow> CDIHandler \<Rightarrow> string \<Rightarrow> PreparedDevices \<Rightarrow> specdir \<Rightarrow> specdir \<times> goerr option" where
  "CreateClaimSpecFile env cdi claimUID devices dir =
     (let specName = claimSpecName env cdi claimUID;
          spec = claimSpec env cdi claimUID devices
      in case cdiapi_MinimumRequiredVersion env spec of
           Inl err \<Rightarrow> (dir, Some (Wrapf ''failed to get minimum required CDI spec version: %w'' [] err))
         | Inr minVersion \<Rightarrow> WriteSpec env (spec\<lparr>spec_Version := minVersion\<rparr>) specName dir)"

definition DeleteClaimSpecFile ::
    "cdi_env \<Rightarrow> CDIHandler \<Rightarrow> string \<Rightarrow> specdir \<Rightarrow> specdir \<times> goerr option" where
  "DeleteClaimSpecFile env cdi claimUID dir = RemoveSpec env (claimSpecName env cdi claimUID) dir"

definition GetClaimDevices :: "cdi_env \<Rightarrow> CDIHandler \<Rightarrow> string \<Rightarrow> string list \<Rightarrow> bool \<Rightarrow> string list" where
  "GetClaimDevices env cdi claimUID devices includeCommon =
     (if includeCommon then [cdiparser_QualifiedName env (vendor cdi) (cdi_class cdi) cdiCommonDeviceName] else []) @
     map (\<lambda>device. cdiparser_QualifiedName env (vendor cdi) (cdi_class cdi) (claimDeviceName claimUID device)) devices"

section \<open>Lemmas\<close>

lemma WriteSpec_ok:
  "WriteSpec env spec name dir = (dir', None) \<longleftrightarrow>
     cache_WriteSpec_err env spec name = None \<and> dir' = gm_put name spec dir"
  by (auto simp: WriteSpec_def split: option.splits)

lemma WriteSpec_err: "WriteSpec env spec name dir = (dir', Some e) \<Longrightarrow> dir' = dir"
  by (auto simp: WriteSpec_def split: option.splits)

lemma CreateClaimSpecFile_err: "CreateClaimSpecFile env cdi uid ds dir = (dir', Some e) \<Longrightarrow> dir' = dir"
  by (auto simp: CreateClaimSpecFile_def Let_def WriteSpec_err split: sum.splits)

lemma CreateClaimSpecFile_ok:
  "CreateClaimSpecFile env cdi uid ds dir = (dir', None) \<Longrightarrow>
     \<exists>v. dir' = gm_put (claimSpecName env cdi uid) ((claimSpec env cdi uid ds)\<lparr>spec_Version := v\<rparr>) dir"
  by (auto simp: CreateClaimSpecFile_def Let_def WriteSpec_ok split: sum.splits)

lemma DeleteClaimSpecFile_ok:
  "DeleteClaimSpecFile env cdi uid dir = (dir', None) \<Longrightarrow> dir' = gm_del (claimSpecName env cdi uid) dir"
  by (auto simp: DeleteClaimSpecFile_def RemoveSpec_def split: option.splits)

lemma DeleteClaimSpecFile_err:
  "DeleteClaimSpecFile env cdi uid dir = (dir', Some e) \<Longrightarrow> dir' = dir"
  by (auto simp: DeleteClaimSpecFile_def RemoveSpec_def split: option.splits)

text \<open>Preparing a claim changes at most the common spec before the claim's own spec is written.\<close>

definition commonSpecName :: "cdi_env \<Rightarrow> CDIHandler \<Rightarrow> string \<Rightarrow> bool" where
  "commonSpecName env cdi n \<longleftrightarrow>
     (\<exists>spec. cdiapi_GenerateNameForTransientSpec env spec cdiCommonDeviceName = Inr n)"

lemma CreateCommonSpecFile_frame:
  "CreateCommonSpecFile env cdi dir = (dir', e) \<Longrightarrow> \<not> commonSpecName env cdi n \<Longrightarrow>
     gm_get dir' n = gm_get dir n"
  by (auto simp: CreateCommonSpecFile_def Let_def WriteSpec_def commonSpecName_def
      split: sum.splits prod.splits option.splits)

lemma CreateCommonSpecFile_ok:
  "CreateCommonSpecFile env c dir = (dir', e) \<Longrightarrow> gm_ok dir \<Longrightarrow> gm_ok dir'"
  by (auto simp: CreateCommonSpecFile_def Let_def WriteSpec_def split: sum.splits prod.splits option.splits)

lemma CreateClaimSpecFile_gm_ok:
  "CreateClaimSpecFile env c uid pds dir = (dir', e) \<Longrightarrow> gm_ok dir \<Longrightarrow> gm_ok dir'"
  by (auto simp: CreateClaimSpecFile_def Let_def WriteSpec_def split: sum.splits option.splits)

end
