(* ===== verification/Logging.thy ===== *)
theory Logging
  imports Go_Strings
begin

text \<open>
  \<open>pkg/logging\<close>: levels, the settings read from the environment, the attribute rewriting of the
  handler, and the relay that turns glog's text lines into records. The slog handlers themselves
  (rendering and writing) are library code; a logger is kept as its settings, and what the driver
  logs is a list of records.
\<close>

section \<open>Levels\<close>

text \<open>\<open>slog.Level\<close> is a type of its own over \<open>int\<close>, ordered as its numbers.\<close>

datatype Level = Level (level_int: int)

instantiation Level :: linorder
begin

definition less_eq_Level :: "Level \<Rightarrow> Level \<Rightarrow> bool" where
  "less_eq_Level a b \<longleftrightarrow> level_int a \<le> level_int b"

definition less_Level :: "Level \<Rightarrow> Level \<Rightarrow> bool" where
  "less_Level a b \<longleftrightarrow> level_int a < level_int b"

instance
  by standard (auto simp: less_eq_Level_def less_Level_def intro: Level.expand)

end

definition LevelTrace :: Level where "LevelTrace = Level (-8)"
definition LevelDebug :: Level where "LevelDebug = Level (-4)"
definition LevelInfo :: Level where "LevelInfo = Level 0"
definition LevelWarn :: Level where "LevelWarn = Level 4"
definition LevelError :: Level where "LevelError = Level 8"

lemmas level_defs = LevelTrace_def LevelDebug_def LevelInfo_def LevelWarn_def LevelError_def
lemmas level_order = less_eq_Level_def less_Level_def

text \<open>A record: its level, its message, and the attributes the model keeps.\<close>

type_synonym LogRecord = "Level \<times> string \<times> (string \<times> string) list"

definition klogVerbosity :: "Level \<Rightarrow> int" where
  "klogVerbosity lvl = max 0 (- level_int lvl)"

definition parseLevel :: "string \<Rightarrow> Level result" where
  "parseLevel s =
     (let t = ToLower (TrimSpace s) in
      if t = '''' \<or> t = ''info'' then Inr LevelInfo
      else if t = ''error'' then Inr LevelError
      else if t = ''warning'' \<or> t = ''warn'' then Inr LevelWarn
      else if t = ''debug'' then Inr LevelDebug
      else if t = ''trace'' then Inr LevelTrace
      else Inl (Errorf ''unknown log level %q (error|warning|warn|info|debug|trace)'' [s]))"

definition parseFormat :: "string \<Rightarrow> string result" where
  "parseFormat s =
     (let t = ToLower (TrimSpace s) in
      if t = '''' \<or> t = ''json'' then Inr ''json''
      else if t = ''text'' then Inr ''text''
      else Inl (Errorf ''unknown log format %q (json|text)'' [s]))"

definition levelName :: "Level \<Rightarrow> string" where
  "levelName l =
     (if l \<ge> LevelError then ''error''
      else if l \<ge> LevelWarn then ''warn''
      else if l \<ge> LevelInfo then ''info''
      else if l \<ge> LevelDebug then ''debug''
      else ''trace'')"

section \<open>Setup\<close>

record Logger =
  log_Level :: Level
  log_AddSource :: bool
  log_Format :: string

definition newLogger :: "Level \<Rightarrow> string \<Rightarrow> Logger" where
  "newLogger lvl format =
     \<lparr>log_Level = lvl, log_AddSource = (lvl \<le> LevelDebug),
      log_Format = (if format = ''text'' then ''text'' else ''json'')\<rparr>"

definition NewLogger :: "string \<Rightarrow> string \<Rightarrow> Logger result" where
  "NewLogger level format =
     (case parseLevel level of
        Inl err \<Rightarrow> Inl err
      | Inr lvl \<Rightarrow> (case parseFormat format of Inl err \<Rightarrow> Inl err | Inr f \<Rightarrow> Inr (newLogger lvl f)))"

definition Enabled :: "Logger \<Rightarrow> Level \<Rightarrow> bool" where
  "Enabled logger lvl \<longleftrightarrow> lvl \<ge> log_Level logger"

text \<open>The logger, the two effective settings, and the warnings the new logger lets through.\<close>

definition setupFromEnv :: "string \<Rightarrow> string \<Rightarrow> Logger \<times> string \<times> string \<times> LogRecord list" where
  "setupFromEnv envLogLevel envLogFormat =
     (let lvl = (case parseLevel envLogLevel of Inr l \<Rightarrow> l | Inl _ \<Rightarrow> LevelInfo);
          format = (case parseFormat envLogFormat of Inr f \<Rightarrow> f | Inl _ \<Rightarrow> ''json'');
          logger = newLogger lvl format;
          warns = (if isl (parseLevel envLogLevel)
                   then [(LevelWarn, ''Invalid RBLN_DRA_DRIVER_LOG_LEVEL, using default'', [(''fallback'', ''info'')])] else []) @
                  (if isl (parseFormat envLogFormat)
                   then [(LevelWarn, ''Invalid RBLN_DRA_DRIVER_LOG_FORMAT, using default'', [(''fallback'', ''json'')])] else [])
      in (logger, levelName lvl, format, filter (\<lambda>r. Enabled logger (fst r)) warns))"

text \<open>The threshold \<open>BridgeKlog\<close> sets, and the two gates a klog record has to pass.\<close>

definition BridgeKlog :: "string \<Rightarrow> int" where
  "BridgeKlog level = klogVerbosity (case parseLevel level of Inr l \<Rightarrow> l | Inl _ \<Rightarrow> LevelInfo)"

section \<open>Attributes\<close>

datatype AttrValue =
    KindTime string
  | KindLevel Level
  | KindSource string int
  | KindString string
  | KindInt int
  | KindAnyNil
  | KindGroup "(string \<times> AttrValue) list"

type_synonym Attr = "string \<times> AttrValue"

definition TimeKey :: string where "TimeKey = ''time''"
definition LevelKey :: string where "LevelKey = ''level''"
definition SourceKey :: string where "SourceKey = ''source''"

text \<open>\<open>strings.LastIndexByte\<close>: what stands after the last occurrence, with what stands before it.\<close>

definition cutLast :: "char \<Rightarrow> string \<Rightarrow> (string \<times> string) option" where
  "cutLast c s = (if c \<in> set s
     then Some (rev (tl (dropWhile (\<lambda>x. x \<noteq> c) (rev s))), rev (takeWhile (\<lambda>x. x \<noteq> c) (rev s)))
     else None)"

definition trimPath :: "string \<Rightarrow> string" where
  "trimPath file =
     (case cutLast (CHR ''/'') file of
        None \<Rightarrow> file
      | Some (dir, base) \<Rightarrow>
          (case cutLast (CHR ''/'') dir of
             Some (_, parent) \<Rightarrow> parent @ ''/'' @ base
           | None \<Rightarrow> file))"

text \<open>A time value is kept as its RFC 3339 rendering; \<open>zeroAttr\<close> is \<open>slog.Attr{}\<close>.\<close>

definition zeroAttr :: Attr where
  "zeroAttr = ([], KindAnyNil)"

definition replaceAttr :: "string list \<Rightarrow> Attr \<Rightarrow> Attr" where
  "replaceAttr groups a =
     (if groups \<noteq> [] then a
      else if fst a = TimeKey then
        (case snd a of KindTime t \<Rightarrow> (''ts'', KindString t) | _ \<Rightarrow> a)
      else if fst a = LevelKey then
        (case snd a of
           KindLevel lvl \<Rightarrow>
             let v = klogVerbosity lvl in
             if v = 0 then (LevelKey, KindString (levelName lvl))
             else ('''', KindGroup [(LevelKey, KindString (levelName lvl)), (''v'', KindInt v)])
         | _ \<Rightarrow> a)
      else if fst a = SourceKey then
        (case snd a of
           KindSource file line \<Rightarrow>
             if file = [] then zeroAttr
             else (''caller'', KindString (trimPath file @ '':'' @ FormatInt line))
         | _ \<Rightarrow> a)
      else a)"

section \<open>Rewritten attributes\<close>

text \<open>
  What the stdlib handlers make of one attribute: a group without a key is inlined, a zero
  attribute is dropped.
\<close>

definition inlined :: "Attr \<Rightarrow> Attr list" where
  "inlined a = (if a = zeroAttr then []
                else case snd a of KindGroup as \<Rightarrow> if fst a = '''' then as else [a] | _ \<Rightarrow> [a])"

lemma replaceAttr_other: "k \<notin> {TimeKey, LevelKey, SourceKey} \<Longrightarrow> replaceAttr gs (k, v) = (k, v)"
  by (simp add: replaceAttr_def)

lemma replaceAttr_string: "replaceAttr gs (k, KindString v) = (k, KindString v)"
  by (simp add: replaceAttr_def)

lemmas replaceAttr_keys = TimeKey_def LevelKey_def SourceKey_def

text \<open>What a rewritten level attribute says: the name of its bucket, and below info its depth.\<close>

definition levelAttrs :: "Level \<Rightarrow> Attr list" where
  "levelAttrs l = (LevelKey, KindString (levelName l)) #
     (if l < LevelInfo then [(''v'', KindInt (- level_int l))] else [])"

lemma inlined_level: "inlined (replaceAttr [] (LevelKey, KindLevel l)) = levelAttrs l"
  by (auto simp: inlined_def zeroAttr_def replaceAttr_def levelAttrs_def Let_def klogVerbosity_def replaceAttr_keys
      level_order level_defs max_def)

abbreviation standardLevels :: "Level set" where
  "standardLevels \<equiv> {LevelTrace, LevelDebug, LevelInfo, LevelWarn, LevelError}"

lemma parseLevel_levelName: "l \<in> standardLevels \<Longrightarrow> parseLevel (levelName l) = Inr l"
proof -
  have "parseLevel (levelName LevelTrace) = Inr LevelTrace" "parseLevel (levelName LevelDebug) = Inr LevelDebug"
    "parseLevel (levelName LevelInfo) = Inr LevelInfo" "parseLevel (levelName LevelWarn) = Inr LevelWarn"
    "parseLevel (levelName LevelError) = Inr LevelError" by code_simp+
  then show "l \<in> standardLevels \<Longrightarrow> parseLevel (levelName l) = Inr l" by auto
qed

lemma levelName_bucket:
  "\<exists>b \<in> standardLevels. levelName l = levelName b \<and> (if LevelTrace \<le> l then b \<le> l else b = LevelTrace) \<and>
     (\<forall>b' \<in> standardLevels. b' \<le> l \<longrightarrow> b' \<le> b)"
proof -
  consider "LevelError \<le> l" | "LevelWarn \<le> l" "l < LevelError" | "LevelInfo \<le> l" "l < LevelWarn"
    | "LevelDebug \<le> l" "l < LevelInfo" | "l < LevelDebug" by fastforce
  then show ?thesis
  proof cases
    case 1 then show ?thesis by (intro bexI [of _ LevelError]) (auto simp: levelName_def level_order level_defs)
  next
    case 2 then show ?thesis by (intro bexI [of _ LevelWarn]) (auto simp: levelName_def level_order level_defs)
  next
    case 3 then show ?thesis by (intro bexI [of _ LevelInfo]) (auto simp: levelName_def level_order level_defs)
  next
    case 4 then show ?thesis by (intro bexI [of _ LevelDebug]) (auto simp: levelName_def level_order level_defs)
  next
    case 5 then show ?thesis by (intro bexI [of _ LevelTrace]) (auto simp: levelName_def level_order level_defs)
  qed
qed

section \<open>Context loggers\<close>

text \<open>
  A context carries the values that were attached to it; a logger taken from it adds them to every
  record. klog keeps them in the context and hands them to the default logger's handler.
\<close>

type_synonym log_ctx = "(string \<times> string) list"

definition FromContext :: "log_ctx \<Rightarrow> Logger \<Rightarrow> LogRecord \<Rightarrow> LogRecord list" where
  "FromContext ctx logger r =
     (case r of (lvl, msg, attrs) \<Rightarrow> if Enabled logger lvl then [(lvl, msg, ctx @ attrs)] else [])"

definition WithValues :: "log_ctx \<Rightarrow> (string \<times> string) list \<Rightarrow> log_ctx" where
  "WithValues ctx args = ctx @ args"

end
