(* ===== verification/Device_State.thy ===== *)
theory Device_State
  imports Inventory Cdi Logging
begin

text \<open>
  The state of the kubelet plugin (\<open>DeviceState\<close> in \<open>cmd/npu-kubelet-plugin/state.go\<close>), the
  operations that keep its three views of the inventory together, and the difference of two
  inventories. The checkpoint manager, the RSD function and the inventory function of the struct
  are the environment of the operations that call them. The mutex is not a field: what runs
  between \<open>Lock\<close> and \<open>Unlock\<close> is one definition, and \<open>Driver\<close> interleaves such steps.
\<close>

record scanStatus =
  sysfsFailing :: bool
  npuFailing :: bool
  slow :: bool

text \<open>\<open>resourceslice.DriverResources\<close>: per pool, its slices, each a list of devices.\<close>

type_synonym DriverResources = "(string, Device list list) gomap"

record DeviceState =
  nodeName :: string
  cdi :: CDIHandler
  driverResources :: DriverResources
  allocatable :: "(string, Device) gomap"
  npuDevices :: "Device list"
  vfioDevices :: "Device list"
  state_sysfsRoot :: string
  scan :: scanStatus

text \<open>\<open>for _, d := range devices { byName[d.Name] = d }\<close>\<close>

definition indexDevices :: "Device list \<Rightarrow> (string, Device) gomap" where
  "indexDevices devices = fold (\<lambda>d m. gm_put (Name d) d m) devices gm_empty"

definition rebuildResources :: "DeviceState \<Rightarrow> DeviceState" where
  "rebuildResources s =
     (let devices = npuDevices s @ vfioDevices s in
      s\<lparr>allocatable := indexDevices devices,
        driverResources := gm_put (nodeName s) [devices] gm_empty\<rparr>)"

definition deviceNameDelta :: "Device list \<Rightarrow> Device list \<Rightarrow> string list \<times> string list \<times> string list" where
  "deviceNameDelta prev next =
     (let prevByName = indexDevices prev; nextByName = indexDevices next in
      ([Name d. d \<leftarrow> next, gm_get prevByName (Name d) = None],
       [Name d. d \<leftarrow> prev, gm_get nextByName (Name d) = None],
       [Name d. d \<leftarrow> next, (case gm_get prevByName (Name d) of None \<Rightarrow> False | Some p \<Rightarrow> p \<noteq> d)]))"

section \<open>The inventory invariant\<close>

text \<open>What is published and what can be prepared both come from the two device lists.\<close>

definition consistent :: "DeviceState \<Rightarrow> bool" where
  "consistent s \<longleftrightarrow>
     allocatable s = indexDevices (npuDevices s @ vfioDevices s) \<and>
     driverResources s = [(nodeName s, [npuDevices s @ vfioDevices s])]"

lemma consistent_rebuild [simp]: "consistent (rebuildResources s)"
  by (simp add: consistent_def rebuildResources_def Let_def gm_empty_def)

lemma rebuildResources_frame [simp]:
  "npuDevices (rebuildResources s) = npuDevices s" "vfioDevices (rebuildResources s) = vfioDevices s"
  "nodeName (rebuildResources s) = nodeName s" "state_sysfsRoot (rebuildResources s) = state_sysfsRoot s"
  "scan (rebuildResources s) = scan s" "cdi (rebuildResources s) = cdi s"
  by (simp_all add: rebuildResources_def Let_def)

lemma consistent_scan [simp]: "consistent (s\<lparr>scan := x\<rparr>) = consistent s"
  by (simp add: consistent_def)

lemma indexDevices_Some:
  "gm_get (indexDevices ds) n = Some d \<Longrightarrow> d \<in> set ds \<and> Name d = n"
  unfolding indexDevices_def using gm.get_index_Some [of Name "\<lambda>d. d" ds n d] by auto

lemma indexDevices_None: "gm_get (indexDevices ds) n = None \<longleftrightarrow> n \<notin> Name ` set ds"
  unfolding indexDevices_def using gm.get_index_None [of Name "\<lambda>d. d" ds n] by simp

lemma indexDevices_distinct:
  "distinct (map Name ds) \<Longrightarrow> d \<in> set ds \<Longrightarrow> gm_get (indexDevices ds) (Name d) = Some d"
  unfolding indexDevices_def using gm.get_index_distinct [of Name ds d "\<lambda>d. d"] by simp

lemma gm_ok_indexDevices [simp]: "gm_ok (indexDevices ds)"
  unfolding indexDevices_def using gm.ok_fold_put [of gm_empty Name "\<lambda>d. d" ds] by simp

lemma indexDevices_range: "set (map snd (indexDevices ds)) \<subseteq> set ds"
proof
  fix d
  assume "d \<in> set (map snd (indexDevices ds))"
  then obtain k where "(k, d) \<in> set (indexDevices ds)" by auto
  then have "gm_get (indexDevices ds) k = Some d"
    using gm_ok_indexDevices [of ds]
    by (simp add: gm_get_def gm_ok_def strict_sorted_iff map_of_is_SomeI)
  then show "d \<in> set ds" using indexDevices_Some by blast
qed

section \<open>The difference of two inventories\<close>

lemma deviceNameDelta_added:
  "set (fst (deviceNameDelta prev next)) = Name ` set next - Name ` set prev"
  by (auto simp: deviceNameDelta_def Let_def indexDevices_None)

lemma deviceNameDelta_removed:
  "set (fst (snd (deviceNameDelta prev next))) = Name ` set prev - Name ` set next"
  by (auto simp: deviceNameDelta_def Let_def indexDevices_None)

lemma deviceNameDelta_changed_iff:
  "n \<in> set (snd (snd (deviceNameDelta prev next))) \<longleftrightarrow>
     (\<exists>p. gm_get (indexDevices prev) n = Some p \<and> (\<exists>d \<in> set next. Name d = n \<and> p \<noteq> d))"
proof -
  have "n \<in> set (snd (snd (deviceNameDelta prev next))) \<longleftrightarrow>
     (\<exists>d \<in> set next. Name d = n \<and> (case gm_get (indexDevices prev) (Name d) of None \<Rightarrow> False | Some p \<Rightarrow> p \<noteq> d))"
    by (auto simp: deviceNameDelta_def Let_def)
  then show ?thesis by (auto split: option.splits)
qed

lemma deviceNameDelta_changed:
  assumes "distinct (map Name prev)"
  shows "set (snd (snd (deviceNameDelta prev next))) =
         {n. \<exists>p \<in> set prev. \<exists>d \<in> set next. Name p = n \<and> Name d = n \<and> p \<noteq> d}"
proof -
  have "gm_get (indexDevices prev) n = Some p \<longleftrightarrow> p \<in> set prev \<and> Name p = n" for n p
    using indexDevices_Some indexDevices_distinct [OF assms] by blast
  then show ?thesis unfolding set_eq_iff deviceNameDelta_changed_iff by blast
qed

text \<open>No name is reported twice over.\<close>

lemma deviceNameDelta_disjoint:
  assumes "deviceNameDelta prev next = (a, r, c)"
  shows "set a \<inter> set r = {} \<and> set a \<inter> set c = {} \<and> set r \<inter> set c = {}"
proof -
  have "set a = Name ` set next - Name ` set prev" "set r = Name ` set prev - Name ` set next"
    using deviceNameDelta_added [of prev "next"] deviceNameDelta_removed [of prev "next"] assms by simp_all
  moreover have "set c \<subseteq> Name ` set prev \<inter> Name ` set next"
  proof
    fix n
    assume c: "n \<in> set c"
    obtain p d where "gm_get (indexDevices prev) n = Some p" "d \<in> set next" "Name d = n"
      using c deviceNameDelta_changed_iff [of n prev "next"] assms by auto
    then show "n \<in> Name ` set prev \<inter> Name ` set next"
      using indexDevices_Some [of prev n p] by (metis imageI IntI)
  qed
  ultimately show ?thesis by (simp only: disjoint_iff subset_iff Diff_iff Int_iff) meson
qed

end
