(* ===== verification/Scan.thy ===== *)
theory Scan
  imports Device_State
begin

text \<open>
  The device scan of \<open>cmd/npu-kubelet-plugin/scan.go\<close>. \<open>RescanDevices\<close> has three parts, as the
  code has them around its lock: what the published inventory knows (\<open>knownBuses\<close>, under the
  lock), the reads (\<open>scanRead\<close>, outside it), and the swap (\<open>scanCommit\<close>, under the lock again).

  The host may change between the reads of one tick, so each of the three passes over sysfs has a
  view of its own in \<open>scan_env\<close>, and the answer of rbln-smi is independent of all of them.
\<close>

record scan_env =
  view_vfio :: sysfs
  view_count :: sysfs
  view_npu :: sysfs
  inventoryFn :: "smi_device list result"

record snapshot =
  snap_npu :: "Device list"
  snap_vfio :: "Device list"
  snap_skipped :: "skippedDevice list"
  snap_candidates :: nat

definition observeScanDuration :: "nat \<Rightarrow> nat \<Rightarrow> DeviceState \<Rightarrow> DeviceState \<times> LogRecord list" where
  "observeScanDuration took interval s =
     (let isSlow = took > interval;
          logs = (if isSlow \<and> \<not> slow (scan s) then [(LevelWarn, ''Device scan slower than its interval'', [])]
                  else if \<not> isSlow \<and> slow (scan s)
                  then [(LevelInfo, ''Device scan duration back under its interval'', [])]
                  else [])
      in (s\<lparr>scan := (scan s)\<lparr>slow := isSlow\<rparr>\<rparr>, logs))"

definition knownBuses :: "DeviceState \<Rightarrow> (string, bool) gomap" where
  "knownBuses s =
     fold (\<lambda>d m. fold (\<lambda>key m. let bus = deviceStringAttr d key in
                          if bus \<noteq> [] then gm_put (ToLower bus) True m else m)
                   [pciBusIDAttributeKey, parentPCIBusIDAttributeKey] m)
       (map snd (allocatable s)) gm_empty"

text \<open>The first PCI function met a second time, in lower case.\<close>

fun duplicateBus :: "Device list \<Rightarrow> (string, bool) gomap \<Rightarrow> string option" where
  "duplicateBus [] seen = None"
| "duplicateBus (d # ds) seen =
     (let bus = ToLower (deviceStringAttr d pciBusIDAttributeKey) in
      if gm_has seen bus then Some bus else duplicateBus ds (gm_put bus True seen))"

definition checkSnapshot ::
    "scanStatus \<Rightarrow> LogRecord list \<Rightarrow> snapshot \<Rightarrow> scanStatus \<times> LogRecord list \<times> snapshot result" where
  "checkSnapshot st logs snap =
     (case duplicateBus (snap_npu snap @ snap_vfio snap) gm_empty of
        Some bus \<Rightarrow>
          (st, logs @ [(LevelError, ''Discarding inconsistent device scan'', [])],
           Inl (Errorf ''PCI function %s appeared in both discovery results'' [bus]))
      | None \<Rightarrow> (st, logs, Inr snap))"

text \<open>The two sysfs passes of a tick.\<close>

definition scanSysfs ::
    "scan_env \<Rightarrow> string \<Rightarrow> (string, bool) gomap \<Rightarrow> (Device list \<times> skippedDevice list \<times> nat) result" where
  "scanSysfs e root known =
     (case enumerateVfioDevices (view_vfio e) root known of
        Inl err \<Rightarrow> Inl err
      | Inr (devices, skipped) \<Rightarrow>
          (case countNativeCandidates (view_count e) root known of
             Inl err \<Rightarrow> Inl err
           | Inr candidates \<Rightarrow> Inr (devices, skipped, candidates)))"

definition scanRead ::
    "scan_env \<Rightarrow> string \<Rightarrow> (string, bool) gomap \<Rightarrow> scanStatus \<Rightarrow>
     scanStatus \<times> LogRecord list \<times> snapshot result" where
  "scanRead e root known st =
     (case scanSysfs e root known of
        Inl err \<Rightarrow>
          (st\<lparr>sysfsFailing := True\<rparr>,
           if \<not> sysfsFailing st then [(LevelError, ''Device scan failed, keeping last inventory'', [])] else [],
           Inl err)
      | Inr (vfio, vfioSkipped, candidates) \<Rightarrow>
          let st1 = st\<lparr>sysfsFailing := False\<rparr>;
              logs1 = (if sysfsFailing st then [(LevelInfo, ''Device scan recovered'', [])] else [])
          in if candidates > 0 then
               (case enumerateNpuDevices (view_npu e) root (inventoryFn e) of
                  Inl err \<Rightarrow>
                    (st1\<lparr>npuFailing := True\<rparr>,
                     logs1 @ (if \<not> npuFailing st
                              then [(LevelError, ''NPU enumeration failed, keeping last inventory'', [])] else []),
                     Inl err)
                | Inr (npu, npuSkipped) \<Rightarrow>
                    checkSnapshot (st1\<lparr>npuFailing := False\<rparr>)
                      (logs1 @ (if npuFailing st then [(LevelInfo, ''NPU enumeration recovered'', [])] else []))
                      \<lparr>snap_npu = npu, snap_vfio = vfio, snap_skipped = npuSkipped @ vfioSkipped,
                       snap_candidates = candidates\<rparr>)
             else
               checkSnapshot (st1\<lparr>npuFailing := False\<rparr>) logs1
                 \<lparr>snap_npu = [], snap_vfio = vfio, snap_skipped = vfioSkipped, snap_candidates = candidates\<rparr>)"

definition logSkippedDevices :: "skippedDevice list \<Rightarrow> LogRecord list" where
  "logSkippedDevices skipped =
     map (\<lambda>d. case skip_err d of
                Some err \<Rightarrow> (LevelError, ''Skipping NPU not usable in its current PCI state'',
                             [(''device'', skip_name d), (''pciBusID'', skip_pciBusID d)])
              | None \<Rightarrow> (LevelInfo, ''Excluding VF-hosting PF from advertisement'',
                         [(''device'', skip_name d), (''pciBusID'', skip_pciBusID d),
                          (''numVFs'', FormatInt (numVFs (skip_sriov d)))])) skipped"

definition reason :: "(goerr \<Rightarrow> string) \<Rightarrow> skippedDevice \<Rightarrow> string" where
  "reason Error d =
     (case skip_err d of
        Some err \<Rightarrow> Error err
      | None \<Rightarrow> ''VF-hosting PF with '' @ FormatInt (numVFs (skip_sriov d)) @ '' VFs'')"

text \<open>A skipped device that this tick takes out of the inventory.\<close>

definition newlySkipped :: "Device list \<Rightarrow> string list \<Rightarrow> skippedDevice list \<Rightarrow> skippedDevice list" where
  "newlySkipped previous removed skipped =
     filter (\<lambda>d. list_ex (\<lambda>p. Name p \<in> set removed \<and>
                               EqualFold (deviceStringAttr p pciBusIDAttributeKey) (skip_pciBusID d)) previous)
       skipped"

definition scanCommit :: "snapshot \<Rightarrow> DeviceState \<Rightarrow> DeviceState \<times> bool \<times> LogRecord list" where
  "scanCommit snap s =
     (let changed = (snap_npu snap \<noteq> npuDevices s \<or> snap_vfio snap \<noteq> vfioDevices s) in
      if changed then
        let previous = npuDevices s @ vfioDevices s;
            (added, removed, renamed) = deviceNameDelta previous (snap_npu snap @ snap_vfio snap);
            logs = (LevelInfo, ''Device inventory changed, republishing resources'', []) #
                   logSkippedDevices (newlySkipped previous removed (snap_skipped snap))
        in (rebuildResources (s\<lparr>npuDevices := snap_npu snap, vfioDevices := snap_vfio snap\<rparr>), True,
            logs @ [(LevelDebug, ''Scanned device inventory'', [])])
      else (s, False, [(LevelDebug, ''Scanned device inventory'', [])]))"

record scan_result =
  rs_state :: DeviceState
  rs_resources :: DriverResources
  rs_changed :: bool
  rs_err :: "goerr option"
  rs_logs :: "LogRecord list"

text \<open>Reading and swapping, with the \<open>known\<close> map the scan began with; then the whole call.\<close>

definition finishScan :: "scan_env \<Rightarrow> (string, bool) gomap \<Rightarrow> DeviceState \<Rightarrow> scan_result" where
  "finishScan e known s =
     (let (st, logs, r) = scanRead e (state_sysfsRoot s) known (scan s);
          s1 = s\<lparr>scan := st\<rparr>
      in case r of
           Inl err \<Rightarrow> \<lparr>rs_state = s1, rs_resources = driverResources s1, rs_changed = False,
                       rs_err = Some err, rs_logs = logs\<rparr>
         | Inr snap \<Rightarrow>
             (case scanCommit snap s1 of
                (s2, changed, logs2) \<Rightarrow>
                  \<lparr>rs_state = s2, rs_resources = driverResources s2, rs_changed = changed,
                   rs_err = None, rs_logs = logs @ logs2\<rparr>))"

definition RescanDevices :: "scan_env \<Rightarrow> DeviceState \<Rightarrow> scan_result" where
  "RescanDevices e s = finishScan e (knownBuses s) s"

section \<open>The duplicate check\<close>

definition lowerBus :: "Device \<Rightarrow> string" where
  "lowerBus d = ToLower (deviceStringAttr d pciBusIDAttributeKey)"

lemma duplicateBus_None:
  "duplicateBus ds seen = None \<longleftrightarrow>
     distinct (map lowerBus ds) \<and> (\<forall>d \<in> set ds. \<not> gm_has seen (lowerBus d))"
  by (induction ds seen rule: duplicateBus.induct) (auto simp: Let_def lowerBus_def image_iff)

section \<open>What a complete read is\<close>

text \<open>
  The specification of a snapshot: both device lists are what their enumerations returned, the
  native one only if there was a candidate, and no PCI function is in it twice.
\<close>

definition snapshot_of :: "scan_env \<Rightarrow> string \<Rightarrow> (string, bool) gomap \<Rightarrow> snapshot \<Rightarrow> bool" where
  "snapshot_of e root known snap \<longleftrightarrow>
     (\<exists>vs ns.
        enumerateVfioDevices (view_vfio e) root known = Inr (snap_vfio snap, vs) \<and>
        countNativeCandidates (view_count e) root known = Inr (snap_candidates snap) \<and>
        (if snap_candidates snap > 0
         then enumerateNpuDevices (view_npu e) root (inventoryFn e) = Inr (snap_npu snap, ns)
         else snap_npu snap = [] \<and> ns = []) \<and>
        snap_skipped snap = ns @ vs) \<and>
     distinct (map lowerBus (snap_npu snap @ snap_vfio snap))"

lemma checkSnapshot_Inr:
  "checkSnapshot st logs snap = (st', logs', Inr snap') \<longleftrightarrow>
     st' = st \<and> logs' = logs \<and> snap' = snap \<and> distinct (map lowerBus (snap_npu snap @ snap_vfio snap))"
  using duplicateBus_None [of "snap_npu snap @ snap_vfio snap" gm_empty]
  by (auto simp: checkSnapshot_def simp del: map_append split: option.splits)

lemma scanSysfs_Inr:
  "scanSysfs e root known = Inr (vd, vs, c) \<longleftrightarrow>
     enumerateVfioDevices (view_vfio e) root known = Inr (vd, vs) \<and>
     countNativeCandidates (view_count e) root known = Inr c"
  by (auto simp: scanSysfs_def split: sum.splits)

lemma scanRead_Inr:
  "(\<exists>st' logs. scanRead e root known st = (st', logs, Inr snap)) \<longleftrightarrow> snapshot_of e root known snap"
proof (cases "scanSysfs e root known")
  case (Inl err)
  then have "\<not> (enumerateVfioDevices (view_vfio e) root known = Inr (vd, vs) \<and>
      countNativeCandidates (view_count e) root known = Inr c)" for vd vs c
    using scanSysfs_Inr [of e root known vd vs c] by simp
  with Inl show ?thesis by (auto simp: scanRead_def snapshot_of_def)
next
  case (Inr r)
  then obtain vd vs c where r: "scanSysfs e root known = Inr (vd, vs, c)" by (cases r) auto
  then have p: "enumerateVfioDevices (view_vfio e) root known = Inr (vd, vs)"
    "countNativeCandidates (view_count e) root known = Inr c"
    by (simp_all add: scanSysfs_Inr)
  show ?thesis
  proof (cases "c > 0")
    case True
    with r p show ?thesis
      by (cases "enumerateNpuDevices (view_npu e) root (inventoryFn e)")
         (auto simp: scanRead_def snapshot_of_def Let_def checkSnapshot_Inr simp del: map_append
           intro!: snapshot.equality)
  next
    case False
    with r p show ?thesis
      by (auto simp: scanRead_def snapshot_of_def Let_def checkSnapshot_Inr simp del: map_append
           intro!: snapshot.equality)
  qed
qed

section \<open>The whole tick\<close>

lemma scanCommit_spec:
  "scanCommit snap s = (s', changed, logs) \<Longrightarrow>
     npuDevices s' = snap_npu snap \<and> vfioDevices s' = snap_vfio snap \<and>
     (changed \<longleftrightarrow> snap_npu snap \<noteq> npuDevices s \<or> snap_vfio snap \<noteq> vfioDevices s) \<and>
     (\<not> changed \<longrightarrow> s' = s) \<and> (consistent s \<longrightarrow> consistent s') \<and>
     nodeName s' = nodeName s \<and> state_sysfsRoot s' = state_sysfsRoot s \<and> scan s' = scan s \<and> cdi s' = cdi s"
  by (auto simp: scanCommit_def Let_def split: prod.splits if_splits)

lemma RescanDevices_None:
  assumes "rs_err (RescanDevices e s) = None"
  shows "\<exists>snap. snapshot_of e (state_sysfsRoot s) (knownBuses s) snap \<and>
           npuDevices (rs_state (RescanDevices e s)) = snap_npu snap \<and>
           vfioDevices (rs_state (RescanDevices e s)) = snap_vfio snap"
proof -
  obtain st logs r where sr: "scanRead e (state_sysfsRoot s) (knownBuses s) (scan s) = (st, logs, r)"
    by (metis prod_cases3)
  then obtain snap where r: "r = Inr snap"
    using assms by (cases r) (auto simp: RescanDevices_def finishScan_def)
  obtain s2 ch l where c: "scanCommit snap (s\<lparr>scan := st\<rparr>) = (s2, ch, l)" by (metis prod_cases3)
  have "snapshot_of e (state_sysfsRoot s) (knownBuses s) snap"
    using sr r scanRead_Inr by blast
  with sr r c scanCommit_spec [OF c] show ?thesis by (auto simp: RescanDevices_def finishScan_def)
qed

lemma RescanDevices_incomplete:
  assumes "rs_err (RescanDevices e s) = Some err"
  shows "\<not> snapshot_of e (state_sysfsRoot s) (knownBuses s) snap"
proof
  assume "snapshot_of e (state_sysfsRoot s) (knownBuses s) snap"
  then obtain st logs where "scanRead e (state_sysfsRoot s) (knownBuses s) (scan s) = (st, logs, Inr snap)"
    using scanRead_Inr by blast
  with assms show False by (auto simp: RescanDevices_def finishScan_def split: prod.splits)
qed

lemma RescanDevices_Some:
  assumes "rs_err (RescanDevices e s) = Some err"
  shows "\<exists>st. rs_state (RescanDevices e s) = s\<lparr>scan := st\<rparr>"
    and "\<not> rs_changed (RescanDevices e s)"
    and "rs_resources (RescanDevices e s) = driverResources s"
  using assms by (auto simp: RescanDevices_def finishScan_def Let_def split: sum.splits prod.splits)

lemma RescanDevices_frame:
  "nodeName (rs_state (RescanDevices e s)) = nodeName s"
  "state_sysfsRoot (rs_state (RescanDevices e s)) = state_sysfsRoot s"
  "cdi (rs_state (RescanDevices e s)) = cdi s"
  "consistent s \<Longrightarrow> consistent (rs_state (RescanDevices e s))"
  "rs_resources (RescanDevices e s) = driverResources (rs_state (RescanDevices e s))"
  "rs_changed (RescanDevices e s) \<longleftrightarrow>
     npuDevices (rs_state (RescanDevices e s)) \<noteq> npuDevices s \<or> vfioDevices (rs_state (RescanDevices e s)) \<noteq> vfioDevices s"
proof -
  obtain st logs r where sr: "scanRead e (state_sysfsRoot s) (knownBuses s) (scan s) = (st, logs, r)"
    by (metis prod_cases3)
  have "nodeName (rs_state (RescanDevices e s)) = nodeName s \<and>
    state_sysfsRoot (rs_state (RescanDevices e s)) = state_sysfsRoot s \<and>
    cdi (rs_state (RescanDevices e s)) = cdi s \<and>
    (consistent s \<longrightarrow> consistent (rs_state (RescanDevices e s))) \<and>
    rs_resources (RescanDevices e s) = driverResources (rs_state (RescanDevices e s)) \<and>
    (rs_changed (RescanDevices e s) \<longleftrightarrow>
       npuDevices (rs_state (RescanDevices e s)) \<noteq> npuDevices s \<or>
       vfioDevices (rs_state (RescanDevices e s)) \<noteq> vfioDevices s)"
  proof (cases r)
    case (Inr snap)
    obtain s2 ch l where c: "scanCommit snap (s\<lparr>scan := st\<rparr>) = (s2, ch, l)" by (metis prod_cases3)
    with sr Inr scanCommit_spec [OF c] show ?thesis by (auto simp: RescanDevices_def finishScan_def)
  qed (use sr in \<open>auto simp: RescanDevices_def finishScan_def\<close>)
  then show "nodeName (rs_state (RescanDevices e s)) = nodeName s"
    "state_sysfsRoot (rs_state (RescanDevices e s)) = state_sysfsRoot s"
    "cdi (rs_state (RescanDevices e s)) = cdi s"
    "consistent s \<Longrightarrow> consistent (rs_state (RescanDevices e s))"
    "rs_resources (RescanDevices e s) = driverResources (rs_state (RescanDevices e s))"
    "rs_changed (RescanDevices e s) \<longleftrightarrow>
       npuDevices (rs_state (RescanDevices e s)) \<noteq> npuDevices s \<or>
       vfioDevices (rs_state (RescanDevices e s)) \<noteq> vfioDevices s" by blast+
qed

section \<open>What is published\<close>

lemma enumerateVfio_device:
  assumes "enumerateVfioDevices sy root known = Inr (ds, sk)" "d \<in> set ds"
  shows "vfio_usable sy root (deviceStringAttr d pciBusIDAttributeKey) d"
proof -
  obtain es where "enum_loop (vfioEntry sy root known) es [] [] = Inr (ds, sk)"
    using assms(1) by (auto simp: enumerateVfioDevices_def split: sum.splits)
  from vfio.device_from_entry [OF this assms(2)] show ?thesis by auto
qed

lemma enumerateNpu_device:
  assumes "enumerateNpuDevices sy root answer = Inr (ds, sk)" "d \<in> set ds"
  shows "\<exists>xs. answer = Inr xs \<and> (\<exists>x \<in> set xs. npu_usable sy root x d)"
proof -
  obtain xs where xs: "answer = Inr xs" "enum_loop (npuEntry sy root) xs [] [] = Inr (ds, sk)"
    using assms(1) by (auto simp: enumerateNpuDevices_def npuDevicesFromInventory_def split: sum.splits)
  from npu.device_from_entry [OF xs(2) assms(2)] xs(1) show ?thesis by blast
qed

lemma snapshot_vfio:
  "snapshot_of e root known snap \<Longrightarrow> d \<in> set (snap_vfio snap) \<Longrightarrow>
     vfio_usable (view_vfio e) root (deviceStringAttr d pciBusIDAttributeKey) d"
  unfolding snapshot_of_def using enumerateVfio_device by blast

lemma snapshot_npu:
  "snapshot_of e root known snap \<Longrightarrow> d \<in> set (snap_npu snap) \<Longrightarrow>
     \<exists>xs. inventoryFn e = Inr xs \<and> (\<exists>x \<in> set xs. npu_usable (view_npu e) root x d)"
  unfolding snapshot_of_def using enumerateNpu_device by (metis empty_iff empty_set)

section \<open>Names\<close>

text \<open>rbln-smi names the devices of a host \<open>rbln0\<close>, \<open>rbln1\<close> and so on, each once.\<close>

definition smi_named :: "smi_device list \<Rightarrow> bool" where
  "smi_named xs \<longleftrightarrow> distinct (map smi_Name xs) \<and>
     list_all (\<lambda>x. take 4 (smi_Name x) = ''rbln'' \<and> CHR ''-'' \<notin> set (smi_Name x)) xs"

definition baseName :: "string \<Rightarrow> string" where
  "baseName n = takeWhile (\<lambda>c. c \<noteq> CHR ''-'') n"

lemma baseName_deviceName: "CHR ''-'' \<notin> set b \<Longrightarrow> baseName (deviceName s b) = b"
proof -
  assume b: "CHR ''-'' \<notin> set b"
  then have "takeWhile (\<lambda>c. c \<noteq> CHR ''-'') (b @ x) = b @ takeWhile (\<lambda>c. c \<noteq> CHR ''-'') x" for x
    by (intro takeWhile_append2) auto
  from this [of "''-'' @ partitionMode s"] this [of "[]"] show ?thesis
    by (simp add: baseName_def deviceName_def)
qed

lemma baseName_vfio: "baseName (deviceName s (vfioDeviceName b)) = ''vfio''"
  by (simp add: baseName_def deviceName_def vfioDeviceName_def)

lemma vfio_usable_name:
  "vfio_usable sy root b d \<Longrightarrow> baseName (Name d) = ''vfio'' \<and> isVfioDevice d"
  by (auto simp: vfio_usable_def Let_def baseName_vfio)

lemma vfio_usable_name_inj:
  assumes "vfio_usable sy root a d" "vfio_usable sy' root' b d'" "Name d = Name d'"
  shows "lowerBus d = lowerBus d'"
proof -
  obtain s g where s: "probeSRIOV sy root a = Inr s" "d = vfioDevice sy root a (deviceName s (vfioDeviceName a)) s g"
    using assms(1) by (auto simp: vfio_usable_def Let_def)
  obtain t h where t: "probeSRIOV sy' root' b = Inr t" "d' = vfioDevice sy' root' b (deviceName t (vfioDeviceName b)) t h"
    using assms(2) by (auto simp: vfio_usable_def Let_def)
  have "EqualFold a b"
    using vfio_name_inj [of a b s t] probeSRIOV_Inr [OF s(1)] probeSRIOV_Inr [OF t(1)] assms(3) s(2) t(2) by simp
  then show ?thesis using s(2) t(2) by (simp add: lowerBus_def EqualFold_def)
qed

lemma distinct_names:
  assumes "distinct (map f ds)" "\<And>d d'. d \<in> set ds \<Longrightarrow> d' \<in> set ds \<Longrightarrow> g d = g d' \<Longrightarrow> f d = f d'"
  shows "distinct (map g ds)"
proof -
  have f: "distinct ds" "inj_on f (set ds)" using assms(1) by (simp_all add: distinct_map)
  have "inj_on g (set ds)" by (rule inj_onI) (meson assms(2) f(2) inj_onD)
  with f(1) show ?thesis by (simp add: distinct_map)
qed

lemma snapshot_names:
  assumes snap: "snapshot_of e root known snap"
    and named: "\<And>xs. inventoryFn e = Inr xs \<Longrightarrow> smi_named xs"
  shows "distinct (map Name (snap_npu snap @ snap_vfio snap))"
proof (rule distinct_names [where f = lowerBus])
  show "distinct (map lowerBus (snap_npu snap @ snap_vfio snap))"
    using snap by (simp add: snapshot_of_def)
  have native: "\<exists>xs x s. inventoryFn e = Inr xs \<and> x \<in> set xs \<and> Name d = deviceName s (smi_Name x) \<and>
      lowerBus d = ToLower (smi_PCIBusID x) \<and> baseName (Name d) = smi_Name x \<and> smi_Name x \<noteq> ''vfio''"
    if d: "d \<in> set (snap_npu snap)" for d
  proof -
    obtain xs x where x: "inventoryFn e = Inr xs" "x \<in> set xs" "npu_usable (view_npu e) root x d"
      using snapshot_npu [OF snap d] by blast
    then obtain s where "d = npuDevice (view_npu e) root x s" by (auto simp: npu_usable_def Let_def)
    moreover have "CHR ''-'' \<notin> set (smi_Name x)" "smi_Name x \<noteq> ''vfio''"
      using named [OF x(1)] x(2) by (auto simp: smi_named_def list_all_iff)
    ultimately show ?thesis
      using x by (intro exI [of _ xs] exI [of _ x] exI [of _ s]) (simp add: lowerBus_def baseName_deviceName)
  qed
  have pass: "baseName (Name d) = ''vfio''" if "d \<in> set (snap_vfio snap)" for d
    using vfio_usable_name [OF snapshot_vfio [OF snap that]] by blast
  fix d d'
  assume "d \<in> set (snap_npu snap @ snap_vfio snap)" "d' \<in> set (snap_npu snap @ snap_vfio snap)"
    and n: "Name d = Name d'"
  then consider "d \<in> set (snap_npu snap)" "d' \<in> set (snap_npu snap)"
    | "d \<in> set (snap_vfio snap)" "d' \<in> set (snap_vfio snap)"
    | "d \<in> set (snap_npu snap)" "d' \<in> set (snap_vfio snap)"
    | "d \<in> set (snap_vfio snap)" "d' \<in> set (snap_npu snap)" by auto
  then show "lowerBus d = lowerBus d'"
  proof cases
    case 1
    from native [OF 1(1)] obtain xs x where x: "inventoryFn e = Inr xs" "x \<in> set xs"
      "lowerBus d = ToLower (smi_PCIBusID x)" "baseName (Name d) = smi_Name x" by blast
    from native [OF 1(2)] obtain ys y where y: "inventoryFn e = Inr ys" "y \<in> set ys"
      "lowerBus d' = ToLower (smi_PCIBusID y)" "baseName (Name d') = smi_Name y" by blast
    have "smi_Name x = smi_Name y" "ys = xs" using x y n by auto
    with x y named [OF x(1)] have "x = y" by (auto simp: smi_named_def distinct_map inj_on_def)
    with x y show ?thesis by simp
  next
    case 2
    then show ?thesis using snapshot_vfio [OF snap] vfio_usable_name_inj n by blast
  next
    case 3
    then show ?thesis using native [OF 3(1)] pass [OF 3(2)] n by metis
  next
    case 4
    then show ?thesis using native [OF 4(2)] pass [OF 4(1)] n by metis
  qed
qed

text \<open>Without any assumption on rbln-smi the passthrough names alone are distinct.\<close>

lemma snapshot_vfio_names:
  assumes "snapshot_of e root known snap"
  shows "distinct (map Name (snap_vfio snap))"
proof (rule distinct_names [where f = lowerBus])
  show "distinct (map lowerBus (snap_vfio snap))" using assms by (simp add: snapshot_of_def)
qed (rule vfio_usable_name_inj [OF snapshot_vfio [OF assms] snapshot_vfio [OF assms]])

section \<open>The published inventory makes no difference to a complete read\<close>

lemma vfio_known_irrelevant:
  assumes "enumerateVfioDevices sy root k1 = Inr (d1, s1)" "enumerateVfioDevices sy root k2 = Inr (d2, s2)"
  shows "d1 = d2"
proof -
  have e: "vfioEntry sy root k1 b = Inr (Publish d) \<longleftrightarrow> vfioEntry sy root k2 b = Inr (Publish d)" for b d
    by (simp add: vfioEntry_Publish)
  have "(case vfioEntry sy root k1 b of Inr (Publish d) \<Rightarrow> Some d | _ \<Rightarrow> None) =
      (case vfioEntry sy root k2 b of Inr (Publish d) \<Rightarrow> Some d | _ \<Rightarrow> None)" (is "?l = ?r") for b
  proof (cases "\<exists>d. vfioEntry sy root k1 b = Inr (Publish d)")
    case True
    then obtain d where d: "vfioEntry sy root k1 b = Inr (Publish d)" by blast
    then have "vfioEntry sy root k2 b = Inr (Publish d)" by (simp only: e)
    with d show ?thesis by simp
  next
    case False
    then have "?l = None" "?r = None" using e by (auto split: sum.splits outcome.splits)
    then show ?thesis by simp
  qed
  then have "published (vfioEntry sy root k1) = published (vfioEntry sy root k2)"
    by (simp add: published_def fun_eq_iff)
  with assms show ?thesis by (auto simp: enumerateVfioDevices_def enum_loop_Inr split: sum.splits)
qed

lemma nativeCandidate_True:
  "nativeCandidate sy root known b = Inr True \<longleftrightarrow>
     (let p = filepath_Join [root, b] in
      pciAddress b \<and> isRebellionsPCI sy p known = Inr True \<and> readPCIDriver sy p = Inr nativePCIDriverName \<and>
      (case readSRIOVNumVFs sy p of Inl err \<Rightarrow> errors_Is_NotExist err | Inr n \<Rightarrow> \<not> n > 0))"
  by (auto simp: nativeCandidate_def Let_def split: sum.splits if_splits)

lemma nativeCandidate_known:
  "nativeCandidate sy root k1 b = Inr True \<longleftrightarrow> nativeCandidate sy root k2 b = Inr True"
  by (simp add: nativeCandidate_True isRebellionsPCI_True)

lemma count_known_irrelevant:
  assumes "countNativeCandidates sy root k1 = Inr m" "countNativeCandidates sy root k2 = Inr n"
  shows "m = n"
proof -
  obtain es where es: "os_ReadDir sy root = Inr es"
    using assms(1) by (auto simp: countNativeCandidates_def split: sum.splits)
  have "filter (\<lambda>x. nativeCandidate sy root k1 x = Inr True) es = filter (\<lambda>x. nativeCandidate sy root k2 x = Inr True) es"
    by (rule filter_cong [OF refl]) (rule nativeCandidate_known)
  with assms es show ?thesis by (simp add: countNativeCandidates_def countLoop_Inr)
qed

lemma snapshot_known_irrelevant:
  assumes "snapshot_of e root k1 a" "snapshot_of e root k2 b"
  shows "snap_npu a = snap_npu b \<and> snap_vfio a = snap_vfio b"
proof -
  obtain vs ns where a: "enumerateVfioDevices (view_vfio e) root k1 = Inr (snap_vfio a, vs)"
    "countNativeCandidates (view_count e) root k1 = Inr (snap_candidates a)"
    "if snap_candidates a > 0 then enumerateNpuDevices (view_npu e) root (inventoryFn e) = Inr (snap_npu a, ns)
     else snap_npu a = []"
    using assms(1) unfolding snapshot_of_def by (metis (full_types))
  obtain vs' ns' where b: "enumerateVfioDevices (view_vfio e) root k2 = Inr (snap_vfio b, vs')"
    "countNativeCandidates (view_count e) root k2 = Inr (snap_candidates b)"
    "if snap_candidates b > 0 then enumerateNpuDevices (view_npu e) root (inventoryFn e) = Inr (snap_npu b, ns')
     else snap_npu b = []"
    using assms(2) unfolding snapshot_of_def by (metis (full_types))
  have "snap_candidates a = snap_candidates b" by (rule count_known_irrelevant [OF a(2) b(2)])
  with a(3) b(3) vfio_known_irrelevant [OF a(1) b(1)] show ?thesis by (auto split: if_splits)
qed

section \<open>Transition logging\<close>

definition failedRead :: LogRecord where
  "failedRead = (LevelError, ''Device scan failed, keeping last inventory'', [])"

definition failedNpu :: LogRecord where
  "failedNpu = (LevelError, ''NPU enumeration failed, keeping last inventory'', [])"

text \<open>Did this tick fail to read sysfs, and did it fail to read the native inventory?\<close>

definition sysfs_fails :: "scan_env \<Rightarrow> DeviceState \<Rightarrow> bool" where
  "sysfs_fails e s = isl (scanSysfs e (state_sysfsRoot s) (knownBuses s))"

definition npu_fails :: "scan_env \<Rightarrow> DeviceState \<Rightarrow> bool" where
  "npu_fails e s \<longleftrightarrow>
     (case scanSysfs e (state_sysfsRoot s) (knownBuses s) of
        Inl _ \<Rightarrow> npuFailing (scan s)
      | Inr (_, _, candidates) \<Rightarrow>
          candidates > 0 \<and> isl (enumerateNpuDevices (view_npu e) (state_sysfsRoot s) (inventoryFn e)))"

lemma commit_logs: "scanCommit snap s = (s', ch, logs) \<Longrightarrow> failedRead \<notin> set logs \<and> failedNpu \<notin> set logs"
  by (auto simp: scanCommit_def Let_def failedRead_def failedNpu_def logSkippedDevices_def
      split: if_splits prod.splits option.splits)

lemma checkSnapshot_logs:
  "checkSnapshot st logs snap = (st', logs', r) \<Longrightarrow>
     st' = st \<and> (failedRead \<in> set logs' \<longleftrightarrow> failedRead \<in> set logs) \<and> (failedNpu \<in> set logs' \<longleftrightarrow> failedNpu \<in> set logs)"
  by (auto simp: checkSnapshot_def failedRead_def failedNpu_def split: option.splits)

lemma scanRead_flags:
  assumes "scanRead e root known st = (st', logs, r)"
  shows "sysfsFailing st' = isl (scanSysfs e root known)"
    and "slow st' = slow st"
    and "failedRead \<in> set logs \<longleftrightarrow> isl (scanSysfs e root known) \<and> \<not> sysfsFailing st"
  using assms
  by (auto simp: scanRead_def Let_def failedRead_def failedNpu_def level_defs
      split: sum.splits if_splits prod.splits dest!: checkSnapshot_logs)

end
