(* ===== verification/Validate.thy ===== *)
theory Validate
  imports Scan
begin

text \<open>
  \<open>cmd/npu-kubelet-plugin/validate_device.go\<close>: the check of an allocated device against the live
  PCI state, right before anything is created for it.
\<close>

definition validateAllocatedDevice :: "sysfs \<Rightarrow> string \<Rightarrow> Device \<Rightarrow> goerr option" where
  "validateAllocatedDevice sy root d =
     (case devicePCIBusID d of
        Inl err \<Rightarrow> Some err
      | Inr bus \<Rightarrow>
          let devPath = filepath_Join [root, ToLower bus] in
          (case readSysfsValue sy devPath ''vendor'' of
             Inl err \<Rightarrow> Some err
           | Inr vendorID \<Rightarrow>
               if \<not> EqualFold vendorID rblnPCIVendorID
               then Some (Errorf ''PCI vendor changed for %s'' [bus])
               else
                 let wantDriver = (if isVfioDevice d then vfioPCIDriverName else nativePCIDriverName) in
                 (case readPCIDriver sy devPath of
                    Inl err \<Rightarrow> Some err
                  | Inr driver \<Rightarrow>
                      if driver \<noteq> wantDriver
                      then Some (Errorf ''PCI driver for %s is %q, expected %q'' [bus, driver, wantDriver])
                      else (case probeSRIOV sy root bus of
                              Inl err \<Rightarrow> Some err
                            | Inr info \<Rightarrow>
                                if isHostingPF info \<or>
                                   partitionMode info \<noteq> deviceStringAttr d partitionModeAttributeKey \<or>
                                   \<not> EqualFold (parentPCIBusID info) (deviceStringAttr d parentPCIBusIDAttributeKey)
                                then Some (Errorf ''SR-IOV layout changed for %s'' [bus])
                                else if isVfioDevice d then
                                  (case isolatedIOMMUGroup sy devPath bus of
                                     Inl err \<Rightarrow> Some err
                                   | Inr grp \<Rightarrow>
                                       if deviceIntAttr d iommuGroupAttributeKey \<noteq> Some grp
                                       then Some (Errorf ''IOMMU group changed for %s'' [bus])
                                       else None)
                                else None))))"

text \<open>The live state a device stands for.\<close>

definition live :: "sysfs \<Rightarrow> string \<Rightarrow> Device \<Rightarrow> bool" where
  "live sy root d \<longleftrightarrow>
     (let bus = deviceStringAttr d pciBusIDAttributeKey; devPath = filepath_Join [root, ToLower bus] in
      bus \<noteq> [] \<and>
      (\<exists>v. readSysfsValue sy devPath ''vendor'' = Inr v \<and> EqualFold v rblnPCIVendorID) \<and>
      readPCIDriver sy devPath = Inr (if isVfioDevice d then vfioPCIDriverName else nativePCIDriverName) \<and>
      (\<exists>info. probeSRIOV sy root bus = Inr info \<and> \<not> isHostingPF info \<and>
              partitionMode info = deviceStringAttr d partitionModeAttributeKey \<and>
              EqualFold (parentPCIBusID info) (deviceStringAttr d parentPCIBusIDAttributeKey)) \<and>
      (isVfioDevice d \<longrightarrow>
         (\<exists>grp. isolatedIOMMUGroup sy devPath bus = Inr grp \<and> deviceIntAttr d iommuGroupAttributeKey = Some grp)))"

lemma validate_None: "validateAllocatedDevice sy root d = None \<longleftrightarrow> live sy root d"
proof (cases "devicePCIBusID d")
  case (Inl err)
  then have "deviceStringAttr d pciBusIDAttributeKey = []"
    by (auto simp: devicePCIBusID_def deviceStringAttr_def split: option.splits if_splits)
  with Inl show ?thesis by (simp add: validateAllocatedDevice_def live_def)
next
  case (Inr bus)
  then have b: "bus \<noteq> []" "deviceStringAttr d pciBusIDAttributeKey = bus"
    by (simp_all add: devicePCIBusID_Inr)
  show ?thesis
    unfolding validateAllocatedDevice_def live_def Inr Let_def b(2)
    by (auto simp: b(1) split: sum.splits if_splits)
qed

text \<open>
  A passthrough device that enumeration published passes the check in the view it was read from.
  The two read the same directory when the address is spelled in lower case, as sysfs does; a
  native device also needs its vendor to be readable, which its enumeration does not look at.
\<close>

lemma vfio_usable_live:
  assumes "vfio_usable sy root b d" "ToLower b = b"
  shows "live sy root d"
  using assms pciAddress_nonempty
  by (auto simp: vfio_usable_def live_def Let_def)

lemma npu_usable_live:
  assumes "npu_usable sy root x d"
    and "readSysfsValue sy (filepath_Join [root, ToLower (smi_PCIBusID x)]) ''vendor'' = Inr v"
    and "EqualFold v rblnPCIVendorID"
  shows "live sy root d"
  using assms probeSRIOV_Inr pciAddress_nonempty
  by (auto simp: npu_usable_def live_def Let_def)

text \<open>
  Enumerating a function again in another view: what the two results have to agree on for a claim
  on the one to be served by the other.
\<close>

definition same_binding :: "Device \<Rightarrow> Device \<Rightarrow> bool" where
  "same_binding d d' \<longleftrightarrow>
     Name d' = Name d \<and> isVfioDevice d' = isVfioDevice d \<and>
     deviceStringAttr d' pciBusIDAttributeKey = deviceStringAttr d pciBusIDAttributeKey \<and>
     deviceStringAttr d' partitionModeAttributeKey = deviceStringAttr d partitionModeAttributeKey \<and>
     EqualFold (deviceStringAttr d' parentPCIBusIDAttributeKey) (deviceStringAttr d parentPCIBusIDAttributeKey) \<and>
     (isVfioDevice d \<longrightarrow> deviceIntAttr d' iommuGroupAttributeKey = deviceIntAttr d iommuGroupAttributeKey)"

lemma deviceName_partition: "partitionMode s = partitionMode t \<Longrightarrow> deviceName s base = deviceName t base"
  by (auto simp: deviceName_def partitionMode_def split: if_splits)

lemma same_binding_devices:
  "same_binding (vfioDevice sy0 root b (deviceName s0 nm) s0 g0) (vfioDevice sy root b (deviceName s nm) s g) \<longleftrightarrow>
     partitionMode s = partitionMode s0 \<and> EqualFold (parentPCIBusID s) (parentPCIBusID s0) \<and> g = g0"
  "same_binding (npuDevice sy1 root x t0) (npuDevice sy root x t) \<longleftrightarrow>
     partitionMode t = partitionMode t0 \<and> EqualFold (parentPCIBusID t) (parentPCIBusID t0)"
  using deviceName_partition [of s s0 nm] deviceName_partition [of t t0 "smi_Name x"] by (auto simp: same_binding_def)

lemma vfio_reenumeration:
  assumes "vfioEntry sy0 root known0 b = Inr (Publish d)" "ToLower b = b"
  shows "live sy root d \<and> readSysfsValue sy (filepath_Join [root, b]) ''class'' = Inr npuPCIClassID \<longleftrightarrow>
         (\<exists>d'. vfioEntry sy root known b = Inr (Publish d') \<and> same_binding d d')"
proof -
  obtain s0 g0 where d: "d = vfioDevice sy0 root b (deviceName s0 (vfioDeviceName b)) s0 g0" and b: "pciAddress b"
    using assms(1) by (auto simp: vfioEntry_Publish vfio_usable_def Let_def)
  have "live sy root d \<and> readSysfsValue sy (filepath_Join [root, b]) ''class'' = Inr npuPCIClassID \<longleftrightarrow>
      (\<exists>v. readSysfsValue sy (filepath_Join [root, b]) ''vendor'' = Inr v \<and> EqualFold v rblnPCIVendorID) \<and>
      readPCIDriver sy (filepath_Join [root, b]) = Inr vfioPCIDriverName \<and>
      readSysfsValue sy (filepath_Join [root, b]) ''class'' = Inr npuPCIClassID \<and>
      (\<exists>s. probeSRIOV sy root b = Inr s \<and> \<not> isHostingPF s \<and> partitionMode s = partitionMode s0 \<and>
           EqualFold (parentPCIBusID s) (parentPCIBusID s0)) \<and>
      isolatedIOMMUGroup sy (filepath_Join [root, b]) b = Inr g0"
    using b pciAddress_nonempty assms(2) by (auto simp: live_def d Let_def)
  also have "\<dots> \<longleftrightarrow> (\<exists>d'. vfio_usable sy root b d' \<and> same_binding d d')"
    using b by (auto simp: vfio_usable_def d Let_def same_binding_devices)
  finally show ?thesis by (simp add: vfioEntry_Publish)
qed

lemma npu_reenumeration:
  assumes "npuEntry sy1 root x = Inr (Publish n)"
  shows "live sy root n \<longleftrightarrow>
         (\<exists>v. readSysfsValue sy (filepath_Join [root, ToLower (smi_PCIBusID x)]) ''vendor'' = Inr v \<and>
              EqualFold v rblnPCIVendorID) \<and>
         (\<exists>n'. npuEntry sy root x = Inr (Publish n') \<and> same_binding n n')"
proof -
  let ?b = "smi_PCIBusID x"
  obtain s0 where n: "n = npuDevice sy1 root x s0" and s0: "probeSRIOV sy1 root ?b = Inr s0"
    using assms by (auto simp: npuEntry_Publish npu_usable_def Let_def)
  then have "?b \<noteq> []" using probeSRIOV_Inr pciAddress_nonempty by auto
  then have "live sy root n \<longleftrightarrow>
      (\<exists>v. readSysfsValue sy (filepath_Join [root, ToLower ?b]) ''vendor'' = Inr v \<and> EqualFold v rblnPCIVendorID) \<and>
      readPCIDriver sy (filepath_Join [root, ToLower ?b]) = Inr nativePCIDriverName \<and>
      (\<exists>s. probeSRIOV sy root ?b = Inr s \<and> \<not> isHostingPF s \<and> partitionMode s = partitionMode s0 \<and>
           EqualFold (parentPCIBusID s) (parentPCIBusID s0))"
    by (auto simp: live_def n Let_def)
  moreover have "os_Stat sy (filepath_Join [root, ToLower ?b]) = Inr ()" if "probeSRIOV sy root ?b = Inr s" for s
    using that by (auto simp: probeSRIOV_def Let_def split: if_splits sum.splits)
  ultimately show ?thesis
    by (auto simp: npuEntry_Publish npu_usable_def n Let_def same_binding_devices)
qed

end
