(* ===== verification/Device_Nodes.thy ===== *)
theory Device_Nodes
  imports Prepared Vfio
begin

text \<open>
  Waiting for device nodes and the container edits of one device: \<open>waitForDeviceNode\<close>,
  \<open>newDeviceNode\<close>, \<open>applyConfig\<close> of \<open>state.go\<close> and \<open>vfioContainerEdits\<close> of \<open>vfio.go\<close>.

  \<open>dev_env\<close> is the part of the host these functions see: what \<open>os.Stat\<close> answers for a path at a
  time (in nanoseconds since the wait began), how much later the clock is read to compare it with
  the deadline, and by how much the scheduler overshoots a \<open>time.Sleep\<close> begun at a time.
  \<open>time.Sleep(d)\<close> lasts \<open>d\<close> plus that overshoot. The loop stops because every turn moves the clock.
\<close>

definition deviceNodePollTimeout :: nat where
  "deviceNodePollTimeout = 5000000000"

definition deviceNodePollInterval :: nat where
  "deviceNodePollInterval = 100000000"

record dev_env =
  dev_Stat :: "string \<Rightarrow> nat \<Rightarrow> unit result"
  stat_delay :: "nat \<Rightarrow> nat"
  sleep_overshoot :: "nat \<Rightarrow> nat"

function waitLoop :: "dev_env \<Rightarrow> string \<Rightarrow> nat \<Rightarrow> unit result" where
  "waitLoop env hostPath now =
     (case dev_Stat env hostPath now of
        Inr fi \<Rightarrow> Inr fi
      | Inl err \<Rightarrow>
          if \<not> errors_Is_NotExist err then Inl err
          else let checked = now + stat_delay env now in
            if checked > deviceNodePollTimeout then Inl err
            else waitLoop env hostPath (checked + deviceNodePollInterval + sleep_overshoot env checked))"
  by pat_completeness auto
termination
  by (relation "measure (\<lambda>(env, hostPath, now). Suc deviceNodePollTimeout - now)")
     (auto simp: deviceNodePollInterval_def)

declare waitLoop.simps [simp del]

definition waitForDeviceNode :: "dev_env \<Rightarrow> string \<Rightarrow> unit result" where
  "waitForDeviceNode env hostPath = waitLoop env hostPath 0"

definition newDeviceNode :: "dev_env \<Rightarrow> string \<Rightarrow> string \<Rightarrow> DeviceNode result" where
  "newDeviceNode env containerPath hostPath =
     (case waitForDeviceNode env hostPath of
        Inl err \<Rightarrow> Inl (Wrapf ''stat device %q: %w'' [hostPath] err)
      | Inr _ \<Rightarrow> Inr \<lparr>node_Path = containerPath, node_HostPath = hostPath, node_Permissions = [],
                      node_UID = None, node_GID = None\<rparr>)"

definition applyConfig ::
    "dev_env \<Rightarrow> (string, Device) gomap \<Rightarrow> string \<Rightarrow> string \<Rightarrow> ContainerEdits result" where
  "applyConfig env allocatable device hostRsdPath =
     (case newDeviceNode env ''/dev/rsd0'' hostRsdPath of
        Inl err \<Rightarrow> Inl (Wrapf ''rsd device node: %w'' [] err)
      | Inr rsdNode \<Rightarrow>
          (case gm_get allocatable device of
             None \<Rightarrow> Inl (Errorf ''allocatable device %q not found'' [device])
           | Some d \<Rightarrow>
               let nodeName = deviceStringAttr d deviceNodeNameAttributeKey in
               if nodeName = [] \<or> nodeName = ''.'' \<or> nodeName = ''..'' \<or> filepath_Base nodeName \<noteq> nodeName
               then Inl (Errorf ''invalid native device node name %q for %s'' [nodeName, device])
               else let rblnPath = filepath_Join [''/dev'', nodeName] in
                 case newDeviceNode env rblnPath rblnPath of
                   Inl err \<Rightarrow> Inl (Wrapf ''rbln device node: %w'' [] err)
                 | Inr rblnNode \<Rightarrow> Inr \<lparr>DeviceNodes = [rsdNode, rblnNode], Mounts = [], Hooks = []\<rparr>))"

definition vfioDevDir :: string where
  "vfioDevDir = ''/dev/vfio''"

definition vfioContainerDevPath :: string where
  "vfioContainerDevPath = ''/dev/vfio/vfio''"

definition qemuUID :: "32 word" where "qemuUID = 107"
definition qemuGID :: "32 word" where "qemuGID = 107"

definition vfioNode :: "string \<Rightarrow> DeviceNode" where
  "vfioNode path = \<lparr>node_Path = path, node_HostPath = path, node_Permissions = ''mrw'',
                    node_UID = Some qemuUID, node_GID = Some qemuGID\<rparr>"

fun vfioNodes :: "dev_env \<Rightarrow> string list \<Rightarrow> DeviceNode list result" where
  "vfioNodes env [] = Inr []"
| "vfioNodes env (path # paths) =
     (case waitForDeviceNode env path of
        Inl err \<Rightarrow> Inl (Wrapf ''vfio device node %q: %w'' [path] err)
      | Inr _ \<Rightarrow>
          (case vfioNodes env paths of
             Inl err \<Rightarrow> Inl err
           | Inr nodes \<Rightarrow> Inr (vfioNode path # nodes)))"

definition vfioContainerEdits :: "dev_env \<Rightarrow> Device \<Rightarrow> Mount list \<Rightarrow> ContainerEdits result" where
  "vfioContainerEdits env d metadataMounts =
     (case deviceIOMMUGroup d of
        Inl err \<Rightarrow> Inl err
      | Inr grp \<Rightarrow>
          (case vfioNodes env [vfioContainerDevPath, filepath_Join [vfioDevDir, grp]] of
             Inl err \<Rightarrow> Inl err
           | Inr nodes \<Rightarrow> Inr \<lparr>DeviceNodes = nodes, Mounts = metadataMounts, Hooks = []\<rparr>))"

section \<open>The wait\<close>

text \<open>The clock reading at which the turn after the one begun at a time starts.\<close>

definition nextPoll :: "dev_env \<Rightarrow> nat \<Rightarrow> nat" where
  "nextPoll env now = now + stat_delay env now + deviceNodePollInterval + sleep_overshoot env (now + stat_delay env now)"

lemma waitLoop_step:
  "waitLoop env p now =
     (case dev_Stat env p now of
        Inr fi \<Rightarrow> Inr fi
      | Inl err \<Rightarrow>
          if errors_Is_NotExist err \<and> now + stat_delay env now \<le> deviceNodePollTimeout
          then waitLoop env p (nextPoll env now) else Inl err)"
  by (subst waitLoop.simps) (auto simp: nextPoll_def Let_def split: sum.split)

lemma waitLoop_induct:
  assumes "\<And>now. (\<And>e. dev_Stat env p now = Inl e \<Longrightarrow> errors_Is_NotExist e \<Longrightarrow>
      now + stat_delay env now \<le> deviceNodePollTimeout \<Longrightarrow> P (nextPoll env now)) \<Longrightarrow> P now"
  shows "P now"
proof (induction "Suc deviceNodePollTimeout - now" arbitrary: now rule: less_induct)
  case less
  show ?case
  proof (rule assms)
    fix e assume "now + stat_delay env now \<le> deviceNodePollTimeout"
    then show "P (nextPoll env now)" by (intro less) (simp add: nextPoll_def deviceNodePollInterval_def)
  qed
qed

text \<open>
  A node that is there, or appears and stays, is always found if it appears early enough for one
  more turn to see it before the deadline is compared.
\<close>

lemma waitLoop_finds:
  assumes "\<And>t. t < appears \<Longrightarrow> \<exists>e. dev_Stat env p t = Inl e \<and> errors_Is_NotExist e"
    and "\<And>t. appears \<le> t \<Longrightarrow> dev_Stat env p t = Inr ()"
    and "\<And>t. stat_delay env t \<le> late" "appears + late \<le> deviceNodePollTimeout"
  shows "waitLoop env p now = Inr ()"
proof (induction now rule: waitLoop_induct [where env = env and p = p])
  case (1 now)
  show ?case
  proof (cases "appears \<le> now")
    case False
    then obtain e where e: "dev_Stat env p now = Inl e" "errors_Is_NotExist e"
      using assms(1) [of now] by auto
    have "now + stat_delay env now \<le> deviceNodePollTimeout" using assms(3) [of now] assms(4) False by simp
    with e 1 [OF e] show ?thesis by (simp add: waitLoop_step [of env p now])
  qed (simp add: waitLoop_step [of env p now] assms(2))
qed

text \<open>A result is an answer \<open>os.Stat\<close> gave, and absence is final only after the timeout.\<close>

lemma waitLoop_outcome:
  "\<exists>t\<ge>now. dev_Stat env p t = waitLoop env p now \<and>
     (\<forall>e. waitLoop env p now = Inl e \<longrightarrow> errors_Is_NotExist e \<longrightarrow> t + stat_delay env t > deviceNodePollTimeout)"
proof (induction now rule: waitLoop_induct [where env = env and p = p])
  case (1 now)
  show ?case
  proof (cases "\<exists>e. dev_Stat env p now = Inl e \<and> errors_Is_NotExist e \<and> now + stat_delay env now \<le> deviceNodePollTimeout")
    case True
    then obtain e where e: "dev_Stat env p now = Inl e" "errors_Is_NotExist e"
      "now + stat_delay env now \<le> deviceNodePollTimeout" by blast
    then have w: "waitLoop env p now = waitLoop env p (nextPoll env now)"
      by (simp add: waitLoop_step [of env p now])
    have "now \<le> nextPoll env now" by (simp add: nextPoll_def)
    with 1 [OF e] show ?thesis unfolding w by (meson le_trans)
  next
    case False
    then have w: "waitLoop env p now = dev_Stat env p now"
      by (auto simp: waitLoop_step [of env p now] split: sum.split)
    show ?thesis unfolding w by (rule exI [of _ now]) (use False in force)
  qed
qed

lemma newDeviceNode_Inr:
  "newDeviceNode env c h = Inr n \<Longrightarrow> node_Path n = c \<and> node_HostPath n = h"
  by (auto simp: newDeviceNode_def split: sum.splits)

section \<open>Edits of one device\<close>

text \<open>A path directly below \<open>/dev\<close>.\<close>

definition dev_child :: "string \<Rightarrow> bool" where
  "dev_child p \<longleftrightarrow> (\<exists>w. plain_name w \<and> p = ''/dev/'' @ w)"

lemma Base_plain:
  "w \<noteq> [] \<Longrightarrow> w \<noteq> ''.'' \<Longrightarrow> w \<noteq> ''..'' \<Longrightarrow> w \<noteq> ''/'' \<Longrightarrow> filepath_Base w = w \<Longrightarrow> plain_name w"
  using filepath_Base_no_slash [of w] by (auto simp: plain_name_def)

lemma dev_abs_path: "abs_path [''dev''] = ''/dev''"
  by (simp add: abs_path_def)

lemma Join_dev: "plain_name w \<Longrightarrow> filepath_Join [''/dev'', w] = ''/dev/'' @ w"
  using filepath_Join_plain [of "[''dev'']" "[w]"]
  by (simp add: dev_abs_path abs_path_def) (simp add: plain_name_def)

lemma Base_slash: "filepath_Base ''/'' = ''/''" "filepath_Join [''/dev'', ''/''] = ''/dev''"
  by code_simp+

text \<open>The guard of \<open>applyConfig\<close> lets through plain names and the name \<open>/\<close>.\<close>

lemma applyConfig_Inr:
  assumes "applyConfig env alloc name rsd = Inr edits"
  shows "\<exists>d rsdNode rblnNode. gm_get alloc name = Some d \<and>
     edits = \<lparr>DeviceNodes = [rsdNode, rblnNode], Mounts = [], Hooks = []\<rparr> \<and>
     node_Path rsdNode = ''/dev/rsd0'' \<and> node_HostPath rsdNode = rsd \<and>
     node_Path rblnNode = node_HostPath rblnNode \<and>
     (let w = deviceStringAttr d deviceNodeNameAttributeKey in
       plain_name w \<and> node_Path rblnNode = ''/dev/'' @ w \<or> w = ''/'' \<and> node_Path rblnNode = ''/dev'')"
proof -
  obtain d rsdNode rblnNode where d: "gm_get alloc name = Some d"
    and r: "newDeviceNode env ''/dev/rsd0'' rsd = Inr rsdNode"
    and w: "deviceStringAttr d deviceNodeNameAttributeKey \<notin> {[], ''.'', ''..''}"
      "filepath_Base (deviceStringAttr d deviceNodeNameAttributeKey) = deviceStringAttr d deviceNodeNameAttributeKey"
    and b: "newDeviceNode env (filepath_Join [''/dev'', deviceStringAttr d deviceNodeNameAttributeKey])
              (filepath_Join [''/dev'', deviceStringAttr d deviceNodeNameAttributeKey]) = Inr rblnNode"
    and e: "edits = \<lparr>DeviceNodes = [rsdNode, rblnNode], Mounts = [], Hooks = []\<rparr>"
    using assms by (auto simp: applyConfig_def Let_def split: sum.splits option.splits if_splits)
  then show ?thesis
    using newDeviceNode_Inr [OF r] newDeviceNode_Inr [OF b] Base_slash Base_plain Join_dev
    by (cases "deviceStringAttr d deviceNodeNameAttributeKey = ''/''") (auto simp: Let_def)
qed

lemma vfioContainerEdits_Inr:
  assumes "vfioContainerEdits env d ms = Inr edits"
  shows "\<exists>g. deviceIntAttr d iommuGroupAttributeKey = Some g \<and>
     DeviceNodes edits = [vfioNode vfioContainerDevPath, vfioNode (filepath_Join [vfioDevDir, FormatInt g])] \<and>
     Mounts edits = ms \<and> Hooks edits = []"
  using assms
  by (auto simp: vfioContainerEdits_def deviceIOMMUGroup_def deviceIntAttr_def
      split: sum.splits option.splits)

end
