(* ===== verification/Rsd_Group.thy ===== *)
theory Rsd_Group
  imports Prepared
begin

text \<open>
  \<open>cmd/npu-kubelet-plugin/rsd_group.go\<close>: RSD groups are created by rblnlib-go and checked by the
  driver against what rbln-smi reports afterwards.

  \<open>rsd_env\<close> holds the answers of others: \<open>RecreateRsdGroup\<close> of rblnlib-go, \<open>os.Stat\<close> of a path (is
  it a directory, and its permission bits), \<open>exec.LookPath\<close>, the output of the command and its
  decoding.
\<close>

unbundle bit_operations_syntax

record file_info =
  fi_IsDir :: bool
  fi_Perm :: "32 word"

record smi_group_device =
  grp_GroupID :: string
  grp_BusID :: string

record rsd_env =
  lib_RecreateRsdGroup :: "string list \<Rightarrow> string result"
  rsd_Stat :: "string \<Rightarrow> file_info result"
  exec_LookPath :: "string \<Rightarrow> string result"
  exec_Output :: "string \<Rightarrow> string list \<Rightarrow> string result"
  json_RblnSmi :: "string \<Rightarrow> smi_group_device list result"

definition smiPaths :: "string list" where
  "smiPaths = [''/usr/bin/rbln-smi'', ''/run/rbln/driver/usr/bin/rbln-smi'',
               ''/host/usr/bin/rbln-smi'', ''/host/driver/usr/bin/rbln-smi'']"

text \<open>\<open>0x49\<close> is the mode mask \<open>0o111\<close>.\<close>

definition is_executable :: "rsd_env \<Rightarrow> string \<Rightarrow> bool" where
  "is_executable env path \<longleftrightarrow>
     (case rsd_Stat env path of Inl err \<Rightarrow> False | Inr fi \<Rightarrow> \<not> fi_IsDir fi \<and> fi_Perm fi AND 0x49 \<noteq> 0)"

definition readGroupedInventory :: "rsd_env \<Rightarrow> smi_group_device list result" where
  "readGroupedInventory env =
     (let found = (case find (is_executable env) smiPaths of
                     Some path \<Rightarrow> Inr path
                   | None \<Rightarrow> exec_LookPath env ''rbln-smi'')
      in case found of
           Inl err \<Rightarrow> Inl err
         | Inr command \<Rightarrow>
             (case exec_Output env command [''-g'', ''-j''] of
                Inl err \<Rightarrow> Inl (Wrapf ''read RSD group membership: %w'' [] err)
              | Inr data \<Rightarrow>
                  (case json_RblnSmi env data of
                     Inl err \<Rightarrow> Inl (Wrapf ''decode RSD group membership: %w'' [] err)
                   | Inr info \<Rightarrow> Inr info)))"

text \<open>The loop over \<open>info.Devices\<close>, with the members seen so far.\<close>

fun memberLoop ::
    "string \<Rightarrow> (string, bool) gomap \<Rightarrow> smi_group_device list \<Rightarrow> (string, bool) gomap \<Rightarrow> (string, bool) gomap result" where
  "memberLoop grp wanted [] seen = Inr seen"
| "memberLoop grp wanted (d # ds) seen =
     (if grp_GroupID d \<noteq> grp then memberLoop grp wanted ds seen
      else let bus = ToLower (grp_BusID d) in
        if \<not> gm_has wanted bus \<or> gm_has seen bus
        then Inl (Errorf ''RSD group %s contains unexpected or duplicate device %s'' [grp, grp_BusID d])
        else memberLoop grp wanted ds (gm_put bus True seen))"

definition validateRSDMembership :: "string \<Rightarrow> string list \<Rightarrow> smi_group_device list \<Rightarrow> goerr option" where
  "validateRSDMembership path expected info =
     (let (grp, ok) = CutPrefix path ''/dev/rsd'' in
      if \<not> ok \<or> Atoi grp = None \<or> the (Atoi grp) \<le> 0 \<or> grp \<noteq> Itoa (the (Atoi grp))
      then Some (Errorf ''invalid private RSD group path %q'' [path])
      else let wanted = gm_set_of (map ToLower expected) in
        if length wanted = 0 then Some (Errorf ''RSD group %s has no requested devices'' [grp])
        else (case memberLoop grp wanted info gm_empty of
                Inl err \<Rightarrow> Some err
              | Inr seen \<Rightarrow>
                  if length seen \<noteq> length wanted
                  then Some (Errorf ''RSD group %s contains %d of %d requested devices''
                               [grp, Itoa (int (length seen)), Itoa (int (length wanted))])
                  else None))"

definition recreateValidatedRSDGroup :: "rsd_env \<Rightarrow> string list \<Rightarrow> string result" where
  "recreateValidatedRSDGroup env busIDs =
     (case lib_RecreateRsdGroup env busIDs of
        Inl err \<Rightarrow> Inl err
      | Inr path \<Rightarrow>
          (case readGroupedInventory env of
             Inl err \<Rightarrow> Inl err
           | Inr info \<Rightarrow>
               (case validateRSDMembership path busIDs info of
                  Some err \<Rightarrow> Inl err
                | None \<Rightarrow> Inr path)))"

section \<open>What the check establishes\<close>

text \<open>The members rbln-smi reports for a group, by lower-case address, with repetitions.\<close>

definition members :: "string \<Rightarrow> smi_group_device list \<Rightarrow> string list" where
  "members grp info = map (\<lambda>d. ToLower (grp_BusID d)) (filter (\<lambda>d. grp_GroupID d = grp) info)"

lemma members_simps [simp]:
  "members grp [] = []"
  "members grp (d # ds) = (if grp_GroupID d = grp then ToLower (grp_BusID d) # members grp ds else members grp ds)"
  by (simp_all add: members_def)

text \<open>A private group's path is \<open>/dev/rsdN\<close> with a positive number in canonical form.\<close>

definition private_rsd :: "string \<Rightarrow> nat \<Rightarrow> bool" where
  "private_rsd path n \<longleftrightarrow> 0 < n \<and> int n < 2 ^ 63 \<and> path = ''/dev/rsd'' @ format_nat n"

lemma memberLoop_Inr:
  "gm_ok seen \<Longrightarrow> memberLoop grp wanted info seen = Inr seen' \<longleftrightarrow>
     (\<forall>b \<in> set (members grp info). gm_has wanted b \<and> \<not> gm_has seen b) \<and>
     distinct (members grp info) \<and>
     seen' = fold (\<lambda>k m. gm_put k True m) (members grp info) seen"
proof (induction grp wanted info seen rule: memberLoop.induct)
  case (2 grp wanted d ds seen)
  let ?bus = "ToLower (grp_BusID d)"
  show ?case
  proof (cases "grp_GroupID d = grp")
    case False
    with "2" show ?thesis by simp
  next
    case True
    show ?thesis
    proof (cases "\<not> gm_has wanted ?bus \<or> gm_has seen ?bus")
      case False
      have IH: "memberLoop grp wanted ds (gm_put ?bus True seen) = Inr seen' \<longleftrightarrow>
        (\<forall>b \<in> set (members grp ds). gm_has wanted b \<and> \<not> gm_has (gm_put ?bus True seen) b) \<and>
        distinct (members grp ds) \<and>
        seen' = fold (\<lambda>k m. gm_put k True m) (members grp ds) (gm_put ?bus True seen)"
        using "2.IH"(2) [OF _ refl False] True "2.prems" by simp
      show ?thesis using True False IH by (auto simp: Let_def)
    qed (use True in \<open>auto simp: Let_def\<close>)
  qed
qed auto

lemma Atoi_canonical:
  "(\<exists>i. Atoi g = Some i \<and> \<not> i \<le> 0 \<and> g = Itoa i) \<longleftrightarrow> (\<exists>n. 0 < n \<and> int n < 2 ^ 63 \<and> g = format_nat n)"
proof
  assume "\<exists>i. Atoi g = Some i \<and> \<not> i \<le> 0 \<and> g = Itoa i"
  then obtain i where "Atoi g = Some i" "0 < i" "g = Itoa i" by auto
  then show "\<exists>n. 0 < n \<and> int n < 2 ^ 63 \<and> g = format_nat n"
    using ParseInt_range [of g i]
    by (intro exI [of _ "nat i"]) (auto simp: Atoi_def Itoa_def FormatInt_def)
next
  assume "\<exists>n. 0 < n \<and> int n < 2 ^ 63 \<and> g = format_nat n"
  then obtain n where "0 < n" "int n < 2 ^ 63" "g = format_nat n" by auto
  then show "\<exists>i. Atoi g = Some i \<and> \<not> i \<le> 0 \<and> g = Itoa i"
    by (intro exI [of _ "int n"]) (auto simp: Atoi_def Itoa_def FormatInt_def ParseInt_format_nat)
qed

lemma subset_card_eq: "A \<subseteq> B \<Longrightarrow> finite B \<Longrightarrow> card A = card B \<longleftrightarrow> A = B"
  using card_subset_eq by metis

lemma validateRSDMembership_None:
  "validateRSDMembership path expected info = None \<longleftrightarrow>
     expected \<noteq> [] \<and>
     (\<exists>n. private_rsd path n \<and>
        distinct (members (format_nat n) info) \<and>
        set (members (format_nat n) info) = ToLower ` set expected)"
proof (cases "CutPrefix path ''/dev/rsd''")
  case (Pair g ok)
  let ?w = "gm_set_of (map ToLower expected)"
  have w0: "length ?w = 0 \<longleftrightarrow> expected = []"
    by (simp add: length_gm_set_of)
  have loop: "(case memberLoop g ?w info gm_empty of
       Inl err \<Rightarrow> Some err
     | Inr seen \<Rightarrow> if length seen \<noteq> length ?w then Some (E seen) else None) = None \<longleftrightarrow>
     distinct (members g info) \<and> set (members g info) = ToLower ` set expected" for E
  proof (cases "memberLoop g ?w info gm_empty")
    case (Inr seen)
    then have m: "set (members g info) \<subseteq> ToLower ` set expected" "distinct (members g info)"
      "seen = gm_set_of (members g info)"
      by (auto simp: memberLoop_Inr) (simp add: gm_set_of_def)
    have "length seen = length ?w \<longleftrightarrow> card (set (members g info)) = card (ToLower ` set expected)"
      by (simp add: m(3) length_gm_set_of)
    also have "\<dots> \<longleftrightarrow> set (members g info) = ToLower ` set expected"
      by (rule subset_card_eq [OF m(1)]) simp
    finally show ?thesis using Inr m(2) by auto
  next
    case (Inl e)
    then have "\<nexists>seen. memberLoop g ?w info gm_empty = Inr seen" by simp
    then have "\<not> ((\<forall>b \<in> set (members g info). b \<in> ToLower ` set expected) \<and> distinct (members g info))"
      by (auto simp: memberLoop_Inr)
    with Inl show ?thesis by auto
  qed
  have path: "ok \<and> (\<exists>i. Atoi g = Some i \<and> \<not> i \<le> 0 \<and> g = Itoa i) \<longleftrightarrow> (\<exists>n. private_rsd path n \<and> g = format_nat n)"
    using CutPrefix_iff [of path "''/dev/rsd''" g] Pair by (auto simp: Atoi_canonical private_rsd_def)
  have uniq: "private_rsd path n \<Longrightarrow> g = format_nat n" for n
    using CutPrefix_iff [of path "''/dev/rsd''" "format_nat n"] Pair by (simp add: private_rsd_def)
  have "validateRSDMembership path expected info = None \<longleftrightarrow>
    (ok \<and> (\<exists>i. Atoi g = Some i \<and> \<not> i \<le> 0 \<and> g = Itoa i)) \<and> expected \<noteq> [] \<and>
    distinct (members g info) \<and> set (members g info) = ToLower ` set expected"
    unfolding validateRSDMembership_def Pair Let_def prod.case w0
    using loop by (auto split: option.split)
  then show ?thesis
    unfolding path using uniq by auto
qed

end
