(* ===== verification/Host_Fs.thy ===== *)
theory Host_Fs
  imports Go_Strings
begin

text \<open>
  The part of the host file system the driver writes, as Go's \<open>os\<close> package shows it: a finite map
  from paths (lists of segments below the root) to directories and regular files. There are no
  symbolic links below the metadata directory, the only tree the driver writes through \<open>os\<close>.

  \<open>fs_env\<close> is the environment of one driver call: which \<open>os\<close> calls fail and with which error.
  \<open>os.WriteFile\<close> may fail before it opens the file, or after it truncated it and wrote some bytes.
  A failing \<open>os.MkdirAll\<close> may have made some of the directories (\<open>mkdir_done\<close>: how many segments it
  got through), and a failing \<open>os.RemoveAll\<close>, whose order is not specified, may have removed any
  part of the tree below its directory (\<open>remove_left\<close>: the paths it did not get to; what is above
  them is left as well). A failing \<open>os.Rename\<close> leaves the tree as it was.
\<close>

datatype node = Dir | File string

type_synonym path = "string list"
type_synonym hostfs = "(path, node) gomap"

datatype syscall = ReadFileCall | ReadDirCall | MkdirAllCall | RenameCall | RemoveAllCall

record fs_env =
  fs_fault :: "syscall \<Rightarrow> string \<Rightarrow> goerr option"
  write_fault :: "string \<Rightarrow> (goerr \<times> nat option) option"
  mkdir_done :: "string \<Rightarrow> nat"
  remove_left :: "path \<Rightarrow> bool"

definition segs :: "string \<Rightarrow> path" where
  "segs p = filter (\<lambda>w. w \<noteq> []) (Split (CHR ''/'') p)"

definition under :: "path \<Rightarrow> path \<Rightarrow> bool" where
  "under q k \<longleftrightarrow> take (length q) k = q"

definition isdir :: "hostfs \<Rightarrow> path \<Rightarrow> bool" where
  "isdir fs q \<longleftrightarrow> q = [] \<or> gm_get fs q = Some Dir"

definition fs_ReadFile :: "fs_env \<Rightarrow> string \<Rightarrow> hostfs \<Rightarrow> string result" where
  "fs_ReadFile env p fs =
     (case fs_fault env ReadFileCall p of
        Some err \<Rightarrow> Inl err
      | None \<Rightarrow>
          (case gm_get fs (segs p) of
             Some (File c) \<Rightarrow> Inr c
           | Some Dir \<Rightarrow> Inl (OsError ''read'' ''is a directory'')
           | None \<Rightarrow> Inl (ErrNotExist p)))"

fun mkdirs :: "path \<Rightarrow> path \<Rightarrow> hostfs \<Rightarrow> hostfs \<times> goerr option" where
  "mkdirs made [] fs = (fs, None)"
| "mkdirs made (w # ws) fs =
     (let q = made @ [w] in
      case gm_get fs q of
        Some (File c) \<Rightarrow> (fs, Some (OsError ''mkdir'' ''not a directory''))
      | Some Dir \<Rightarrow> mkdirs q ws fs
      | None \<Rightarrow> mkdirs q ws (gm_put q Dir fs))"

definition fs_MkdirAll :: "fs_env \<Rightarrow> string \<Rightarrow> hostfs \<Rightarrow> hostfs \<times> goerr option" where
  "fs_MkdirAll env p fs =
     (case fs_fault env MkdirAllCall p of
        Some err \<Rightarrow> (fst (mkdirs [] (take (mkdir_done env p) (segs p)) fs), Some err)
      | None \<Rightarrow> mkdirs [] (segs p) fs)"

definition fs_WriteFile :: "fs_env \<Rightarrow> string \<Rightarrow> string \<Rightarrow> hostfs \<Rightarrow> hostfs \<times> goerr option" where
  "fs_WriteFile env p data fs =
     (let q = segs p in
      case write_fault env p of
        Some (err, None) \<Rightarrow> (fs, Some err)
      | fault \<Rightarrow>
          if q = [] \<or> gm_get fs q = Some Dir then (fs, Some (OsError ''open'' ''is a directory''))
          else if \<not> isdir fs (butlast q) then (fs, Some (ErrNotExist p))
          else (case fault of
                  Some (err, Some n) \<Rightarrow> (gm_put q (File (take n data)) fs, Some err)
                | _ \<Rightarrow> (gm_put q (File data) fs, None)))"

definition fs_Rename :: "fs_env \<Rightarrow> string \<Rightarrow> string \<Rightarrow> hostfs \<Rightarrow> hostfs \<times> goerr option" where
  "fs_Rename env a b fs =
     (case fs_fault env RenameCall a of
        Some err \<Rightarrow> (fs, Some err)
      | None \<Rightarrow>
          (case gm_get fs (segs a) of
             Some (File c) \<Rightarrow>
               if segs b = [] \<or> gm_get fs (segs b) = Some Dir \<or> \<not> isdir fs (butlast (segs b))
               then (fs, Some (OsError ''rename'' ''invalid target''))
               else (gm_put (segs b) (File c) (gm_del (segs a) fs), None)
           | Some Dir \<Rightarrow> (fs, Some (OsError ''rename'' ''is a directory''))
           | None \<Rightarrow> (fs, Some (ErrNotExist a))))"

definition fs_RemoveAll :: "fs_env \<Rightarrow> string \<Rightarrow> hostfs \<Rightarrow> hostfs \<times> goerr option" where
  "fs_RemoveAll env p fs =
     (case fs_fault env RemoveAllCall p of
        Some err \<Rightarrow> (filter (\<lambda>(k, v). \<not> under (segs p) k \<or> list_ex (\<lambda>(j, u). under k j \<and> remove_left env j) fs) fs, Some err)
      | None \<Rightarrow> (filter (\<lambda>(k, v). \<not> under (segs p) k) fs, None))"

definition children :: "hostfs \<Rightarrow> path \<Rightarrow> (string \<times> bool) list" where
  "children fs q =
     map (\<lambda>(k, v). (last k, v = Dir)) (filter (\<lambda>(k, v). length k = Suc (length q) \<and> under q k) fs)"

text \<open>A regular file on the way to a path, which the host reports instead of a missing entry.\<close>

definition through_file :: "hostfs \<Rightarrow> path \<Rightarrow> bool" where
  "through_file fs q \<longleftrightarrow> list_ex (\<lambda>n. gm_get fs (take n q) \<notin> {None, Some Dir}) [0..<length q]"

definition fs_ReadDir :: "fs_env \<Rightarrow> string \<Rightarrow> hostfs \<Rightarrow> (string \<times> bool) list result" where
  "fs_ReadDir env p fs =
     (case fs_fault env ReadDirCall p of
        Some err \<Rightarrow> Inl err
      | None \<Rightarrow>
          (if isdir fs (segs p) then Inr (children fs (segs p))
           else if gm_get fs (segs p) = None \<and> \<not> through_file fs (segs p) then Inl (ErrNotExist p)
           else Inl (OsError ''readdir'' ''not a directory'')))"

section \<open>Well-formed trees\<close>

text \<open>Names are plain and every entry hangs below a directory.\<close>

definition fs_ok :: "hostfs \<Rightarrow> bool" where
  "fs_ok fs \<longleftrightarrow> gm_ok fs \<and>
     (\<forall>k \<in> set (gm_keys fs). k \<noteq> [] \<and> list_all plain_name k \<and> isdir fs (butlast k))"

lemma segs_abs_path [simp]: "list_all plain_name ws \<Longrightarrow> segs (abs_path ws) = ws"
proof (cases "ws = []")
  case False
  assume ws: "list_all plain_name ws"
  then have "filter (\<lambda>w. w \<noteq> []) ws = ws"
    by (auto simp: filter_id_conv list_all_iff plain_name_def)
  with ws False show ?thesis by (simp add: segs_def Split_abs_path)
qed (simp add: segs_def abs_path_def)

lemma under_refl [simp]: "under q q" "under [] k"
  by (simp_all add: under_def)

lemma under_append [simp]: "under q (q @ r)"
  by (simp add: under_def)

lemma under_iff: "under q k \<longleftrightarrow> (\<exists>r. k = q @ r)"
  unfolding under_def by (metis append_eq_conv_conj append_take_drop_id)

lemma under_snoc_same: "under (q @ [m]) k \<Longrightarrow> under (q @ [n]) k \<Longrightarrow> m = n"
  by (auto simp: under_iff)

lemma through_file_under:
  assumes "through_file fs q"
  shows "\<exists>k c. under k q \<and> gm_get fs k = Some (File c)"
proof -
  obtain n v where "gm_get fs (take n q) = Some v" "v \<noteq> Dir"
    using assms by (auto simp: through_file_def list_ex_iff)
  then obtain c where "gm_get fs (take n q) = Some (File c)" by (cases v) auto
  moreover have "under (take n q) q" by (metis append_take_drop_id under_append)
  ultimately show ?thesis by blast
qed

lemma gm_get_filter: "gm_get (filter (\<lambda>(k, v). P k) m) k = (if P k then gm_get m k else None)"
  unfolding gm_get_def by (induction m) auto

lemma gm_ok_filter: "gm_ok m \<Longrightarrow> gm_ok (filter P m)"
  by (induction m) auto

lemma gm_get_RemoveAll:
  "fs_RemoveAll env p fs = (fs', None) \<Longrightarrow>
     gm_get fs' k = (if under (segs p) k then None else gm_get fs k)"
  by (auto simp: fs_RemoveAll_def gm_get_filter split: option.splits)

text \<open>A removal, however it ends, takes entries away below its directory and does nothing else.\<close>

lemma RemoveAll_below:
  "fs_RemoveAll env p fs = (fs', e) \<Longrightarrow> gm_get fs' k = gm_get fs k \<or> gm_get fs' k = None \<and> under (segs p) k"
  by (auto simp: fs_RemoveAll_def gm_get_filter split: option.splits if_splits)

lemma under_child:
  assumes "length k = Suc (length q)" and "under q k"
  shows "k = q @ [last k]"
proof -
  obtain r where r: "k = q @ r" using assms(2) by (auto simp: under_iff)
  with assms(1) obtain x where "r = [x]" by (auto simp: length_Suc_conv)
  with r show ?thesis by simp
qed

lemma children_iff:
  assumes "gm_ok fs"
  shows "(n, b) \<in> set (children fs q) \<longleftrightarrow> (\<exists>v. gm_get fs (q @ [n]) = Some v \<and> b = (v = Dir))"
proof
  assume "(n, b) \<in> set (children fs q)"
  then obtain k v where kv: "(k, v) \<in> set fs" "length k = Suc (length q)" "under q k" "n = last k" "b = (v = Dir)"
    by (auto simp: children_def)
  then have "k = q @ [n]"
    using under_child by blast
  moreover have "gm_get fs k = Some v"
    using kv(1) assms gm_keys_distinct [of fs] by (simp add: gm_get_def gm_keys_def)
  ultimately show "\<exists>v. gm_get fs (q @ [n]) = Some v \<and> b = (v = Dir)" using kv(5) by blast
next
  assume "\<exists>v. gm_get fs (q @ [n]) = Some v \<and> b = (v = Dir)"
  then obtain v where "(q @ [n], v) \<in> set fs" "b = (v = Dir)"
    by (auto simp: gm_get_def dest: map_of_SomeD)
  then show "(n, b) \<in> set (children fs q)"
    by (force simp: children_def)
qed

lemma children_distinct: "gm_ok fs \<Longrightarrow> distinct (map fst (children fs q))"
proof -
  assume ok: "gm_ok fs"
  let ?c = "filter (\<lambda>(k, v). length k = Suc (length q) \<and> under q k) fs"
  have d: "distinct (map fst ?c)"
    using ok gm_keys_distinct [of fs] by (simp add: gm_keys_def distinct_map_filter)
  have k: "k = q @ [last k]" if "k \<in> set (map fst ?c)" for k
    using that under_child by auto
  have "inj_on last (set (map fst ?c))"
    using k by (metis (no_types, lifting) inj_on_def)
  with d have "distinct (map last (map fst ?c))"
    by (simp only: distinct_map)
  then show ?thesis
    by (simp add: children_def comp_def case_prod_unfold)
qed

section \<open>Every operation keeps trees well-formed\<close>

lemma fs_ok_gm_ok [simp]: "fs_ok fs \<Longrightarrow> gm_ok fs"
  by (simp add: fs_ok_def)

lemma fs_ok_get:
  "fs_ok fs \<longleftrightarrow> gm_ok fs \<and>
     (\<forall>k v. gm_get fs k = Some v \<longrightarrow> k \<noteq> [] \<and> list_all plain_name k \<and> isdir fs (butlast k))"
  by (auto simp: fs_ok_def set_gm_keys)

lemma fs_ok_put:
  assumes "fs_ok fs" "q \<noteq> []" "list_all plain_name q" "isdir fs (butlast q)"
    and "gm_get fs q = Some Dir \<longrightarrow> v = Dir"
  shows "fs_ok (gm_put q v fs)"
  using assms unfolding fs_ok_get isdir_def by (auto simp: append_butlast_last_id)

lemma fs_ok_filter:
  assumes "fs_ok fs" "\<And>k. P k \<Longrightarrow> P (butlast k)"
  shows "fs_ok (filter (\<lambda>(k, v). P k) fs)"
  using assms unfolding fs_ok_get isdir_def by (auto simp: gm_get_filter gm_ok_filter split: if_splits)

lemma under_butlast: "under q (butlast k) \<Longrightarrow> under q k" "under k j \<Longrightarrow> under (butlast k) j"
  by (cases k rule: rev_cases; auto simp: under_iff)+

lemma fs_ok_RemoveAll: "fs_ok fs \<Longrightarrow> fs_RemoveAll env p fs = (fs', e) \<Longrightarrow> fs_ok fs'"
  using fs_ok_filter [of fs "\<lambda>k. \<not> under (segs p) k"]
    fs_ok_filter [of fs "\<lambda>k. \<not> under (segs p) k \<or> list_ex (\<lambda>(j, u). under k j \<and> remove_left env j) fs"]
  by (auto simp: fs_RemoveAll_def list_ex_iff dest: under_butlast split: option.splits)

lemma fs_ok_mkdirs:
  "fs_ok fs \<Longrightarrow> isdir fs made \<Longrightarrow> list_all plain_name (made @ ws) \<Longrightarrow> mkdirs made ws fs = (fs', e) \<Longrightarrow> fs_ok fs'"
proof (induction made ws fs rule: mkdirs.induct)
  case (2 made w ws fs)
  show ?case
  proof (cases "gm_get fs (made @ [w])")
    case None
    then have "fs_ok (gm_put (made @ [w]) Dir fs)"
      using "2.prems" by (intro fs_ok_put) auto
    with "2.IH"(1) [OF refl None] None "2.prems" show ?thesis
      by (auto simp: isdir_def Let_def)
  next
    case (Some v)
    with "2.IH"(2) [OF refl Some] "2.prems" show ?thesis by (cases v) (auto simp: isdir_def Let_def)
  qed
qed auto

lemma fs_ok_MkdirAll:
  assumes "fs_ok fs" "list_all plain_name ws" "fs_MkdirAll env (abs_path ws) fs = (fs', e)"
  shows "fs_ok fs'"
proof -
  have "fs_ok fs1" if "mkdirs [] (take n ws) fs = (fs1, e1)" for n fs1 e1
    using fs_ok_mkdirs [OF assms(1) _ _ that] assms(2) by (auto simp: isdir_def list_all_iff dest: in_set_takeD)
  from this [of "length ws"] this [of "mkdir_done env (abs_path ws)" "fst (mkdirs [] (take (mkdir_done env (abs_path ws)) ws) fs)"]
  show ?thesis using assms(2,3) by (auto simp: fs_MkdirAll_def prod_eq_iff split: option.splits)
qed

lemma fs_ok_WriteFile:
  "fs_ok fs \<Longrightarrow> list_all plain_name ws \<Longrightarrow> fs_WriteFile env (abs_path ws) data fs = (fs', e) \<Longrightarrow> fs_ok fs'"
  by (auto simp: fs_WriteFile_def Let_def split: option.splits prod.splits if_splits intro!: fs_ok_put)

lemma fs_ok_del_file:
  assumes "fs_ok fs" "gm_get fs q = Some (File c)"
  shows "fs_ok (gm_del q fs)"
  unfolding fs_ok_get
proof (intro conjI allI impI)
  fix k v
  assume "gm_get (gm_del q fs) k = Some v"
  then have "gm_get fs k = Some v" by (simp split: if_splits)
  with assms have k: "k \<noteq> []" "list_all plain_name k" "isdir fs (butlast k)"
    unfolding fs_ok_get by blast+
  then show "k \<noteq> []" "list_all plain_name k" "isdir (gm_del q fs) (butlast k)"
    using assms(2) by (auto simp: isdir_def)
qed (use assms in simp)

lemma fs_ok_Rename:
  assumes "fs_ok fs" "list_all plain_name ws" "fs_Rename env a (abs_path ws) fs = (fs', e)"
  shows "fs_ok fs'"
proof (cases "\<exists>c. fs' = gm_put ws (File c) (gm_del (segs a) fs)")
  case True
  then obtain c where c: "fs' = gm_put ws (File c) (gm_del (segs a) fs)" by blast
  show ?thesis
  proof (cases "fs' = fs")
    case False
    with assms c obtain c' where g: "gm_get fs (segs a) = Some (File c')" "ws \<noteq> []" "gm_get fs ws \<noteq> Some Dir"
      "isdir fs (butlast ws)"
      by (auto simp: fs_Rename_def split: option.splits node.splits if_splits)
    have "isdir (gm_del (segs a) fs) (butlast ws)"
      using g by (auto simp: isdir_def)
    with g assms(1,2) fs_ok_del_file [OF assms(1) g(1)] show ?thesis
      unfolding c by (intro fs_ok_put) auto
  qed (use assms in simp)
next
  case False
  then have "fs' = fs"
    using assms by (auto simp: fs_Rename_def split: option.splits node.splits if_splits)
  with assms show ?thesis by simp
qed

section \<open>What an operation leaves alone\<close>

text \<open>Only paths at or below \<open>q\<close> changed, apart from directories created above it.\<close>

definition changes_below :: "path \<Rightarrow> hostfs \<Rightarrow> hostfs \<Rightarrow> bool" where
  "changes_below q fs fs' \<longleftrightarrow>
     (\<forall>k. gm_get fs' k = gm_get fs k \<or> under q k \<or>
          under k q \<and> gm_get fs k = None \<and> gm_get fs' k = Some Dir)"

lemma changes_below_refl [simp]: "changes_below q fs fs"
  by (simp add: changes_below_def)

lemma changes_below_trans:
  "changes_below q fs fs1 \<Longrightarrow> changes_below q fs1 fs2 \<Longrightarrow> changes_below q fs fs2"
  unfolding changes_below_def by (metis option.distinct(1))

lemma changes_below_put: "under q k \<Longrightarrow> changes_below q fs (gm_put k v fs)"
  by (auto simp: changes_below_def)

lemma changes_below_del: "under q k \<Longrightarrow> changes_below q fs (gm_del k fs)"
  by (auto simp: changes_below_def)

lemma changes_below_mkdir:
  "under k q \<or> under q k \<Longrightarrow> gm_get fs k = None \<Longrightarrow> changes_below q fs (gm_put k Dir fs)"
  by (auto simp: changes_below_def)

lemma mkdirs_changes:
  "mkdirs made ws fs = (fs', e) \<Longrightarrow> under (made @ ws) q \<or> under q (made @ ws) \<Longrightarrow> changes_below q fs fs'"
proof (induction made ws fs rule: mkdirs.induct)
  case (2 made w ws fs)
  have side: "under (made @ [w]) q \<or> under q (made @ [w])"
    using "2.prems"(2) by (auto simp: under_iff append_eq_append_conv2 Cons_eq_append_conv)
  show ?case
  proof (cases "gm_get fs (made @ [w])")
    case None
    then have "changes_below q (gm_put (made @ [w]) Dir fs) fs'"
      using "2.IH"(1) [OF refl None] "2.prems" None by (simp add: Let_def)
    with changes_below_mkdir [OF side None] show ?thesis by (rule changes_below_trans)
  next
    case (Some v)
    with "2.IH"(2) [OF refl Some] "2.prems" show ?thesis by (cases v) (auto simp: Let_def)
  qed
qed simp

lemma MkdirAll_changes:
  assumes "fs_MkdirAll env p fs = (fs', e)" "under (segs p) q \<or> under q (segs p)"
  shows "changes_below q fs fs'"
proof -
  have side: "under (take n ws) q \<or> under q (take n ws)" if "under ws q \<or> under q ws" for n and ws :: path
    using that
  proof
    assume "under ws q"
    then obtain r where "q = ws @ r" by (auto simp: under_iff)
    then have "q = take n ws @ (drop n ws @ r)" by simp
    then show ?thesis by (metis under_append)
  next
    assume "under q ws"
    then obtain r where "ws = q @ r" by (auto simp: under_iff)
    then show ?thesis by (cases "length q \<le> n") (auto simp: under_def min_def)
  qed
  show ?thesis
  proof (cases "fs_fault env MkdirAllCall p")
    case None
    with assms mkdirs_changes [of "[]" "segs p" fs fs' e q] show ?thesis by (simp add: fs_MkdirAll_def)
  next
    case (Some err)
    then have "mkdirs [] (take (mkdir_done env p) (segs p)) fs = (fs', snd (mkdirs [] (take (mkdir_done env p) (segs p)) fs))"
      using assms(1) by (simp add: fs_MkdirAll_def prod_eq_iff)
    from mkdirs_changes [OF this] side [OF assms(2)] show ?thesis by simp
  qed
qed

lemma WriteFile_changes:
  "fs_WriteFile env p data fs = (fs', e) \<Longrightarrow> under q (segs p) \<Longrightarrow> changes_below q fs fs'"
  by (auto simp: fs_WriteFile_def Let_def changes_below_put split: option.splits prod.splits if_splits)

lemma Rename_changes:
  "fs_Rename env a b fs = (fs', e) \<Longrightarrow> under q (segs a) \<Longrightarrow> under q (segs b) \<Longrightarrow> changes_below q fs fs'"
  by (auto simp: fs_Rename_def split: option.splits node.splits if_splits
      intro: changes_below_trans [OF changes_below_del changes_below_put])

end
