(* ===== verification/Kubevirt_Metadata.thy ===== *)
theory Kubevirt_Metadata
  imports Host_Fs Prepared
begin

text \<open>
  \<open>cmd/npu-kubelet-plugin/kubevirt_metadata.go\<close>: the per-claim metadata files KubeVirt reads.
  Container paths follow claim names, host paths follow claim UIDs; every host directory carries
  an owner marker. \<open>json.Marshal\<close> is an argument. The order in which Go walks the map of requests
  is an argument too (\<open>order\<close>, applied to the map's keys): the language leaves it open.
\<close>

definition kubevirtMetadataBasePath :: string where
  "kubevirtMetadataBasePath = ''/var/run/kubernetes.io/dra-device-attributes''"

definition kubevirtMetadataAPIVersion :: string where
  "kubevirtMetadataAPIVersion = ''metadata.resource.k8s.io/v1alpha1''"

definition kubevirtMetadataKind :: string where
  "kubevirtMetadataKind = ''DeviceMetadata''"

definition resourceClaimsSubdir :: string where
  "resourceClaimsSubdir = ''resourceclaims''"

definition resourceClaimTemplateSubdir :: string where
  "resourceClaimTemplateSubdir = ''resourceclaimtemplates''"

definition kubevirtMetadataOwnerFile :: string where
  "kubevirtMetadataOwnerFile = ''.claim-uid''"

definition podClaimNameAnnotation :: string where
  "podClaimNameAnnotation = ''resource.kubernetes.io/pod-claim-name''"

record kubevirtMetadataDevice =
  kv_Driver :: string
  kv_Pool :: string
  kv_Name :: string
  kv_Attributes :: attributes

record kubevirtDeviceMetadataRequest =
  kv_RequestName :: string
  kv_Devices :: "kubevirtMetadataDevice list"

record kubevirtDeviceMetadata =
  kv_APIVersion :: string
  kv_Kind :: string
  kv_PodClaimName :: "string option"
  kv_Requests :: "kubevirtDeviceMetadataRequest list"

record kv_env =
  kv_fs :: fs_env
  json_Marshal :: "kubevirtDeviceMetadata \<Rightarrow> string result"
  order :: "string list \<Rightarrow> string list"

definition podClaimName :: "ResourceClaim \<Rightarrow> string option" where
  "podClaimName claim =
     (case gm_get (claim_Annotations claim) podClaimNameAnnotation of
        Some v \<Rightarrow> if v \<noteq> [] then Some v else None
      | None \<Rightarrow> None)"

definition kubevirtMetadataContainerDirs :: "string \<Rightarrow> ResourceClaim \<Rightarrow> string list" where
  "kubevirtMetadataContainerDirs basePath claim =
     filepath_Join [basePath, resourceClaimsSubdir, claim_Name claim] #
     (case podClaimName claim of
        Some v \<Rightarrow> [filepath_Join [basePath, resourceClaimTemplateSubdir, v]]
      | None \<Rightarrow> [])"

definition kubevirtMetadataHostDir :: "string \<Rightarrow> string \<Rightarrow> string" where
  "kubevirtMetadataHostDir basePath claimUID =
     filepath_Join [basePath, resourceClaimsSubdir, ''.uid-'' @ claimUID]"

definition kubevirtMetadataRequestName :: "DeviceRequestAllocationResult \<Rightarrow> string" where
  "kubevirtMetadataRequestName result = fst (Cut (CHR ''/'') (res_Request result))"

definition kubevirtMetadataFilePath :: "string \<Rightarrow> string \<Rightarrow> string" where
  "kubevirtMetadataFilePath claimDir requestName =
     filepath_Join [claimDir, requestName, DriverName @ ''-metadata.json'']"

definition kubevirtMetadataMounts :: "string \<Rightarrow> ResourceClaim \<Rightarrow> string \<Rightarrow> Mount list" where
  "kubevirtMetadataMounts basePath claim requestName =
     (let hostPath = kubevirtMetadataFilePath (kubevirtMetadataHostDir basePath (claim_UID claim)) requestName in
      map (\<lambda>claimDir. \<lparr>mount_HostPath = hostPath,
                       mount_ContainerPath = kubevirtMetadataFilePath claimDir requestName,
                       mount_Options = [''ro'', ''bind''], mount_Type = []\<rparr>)
        (kubevirtMetadataContainerDirs basePath claim))"

definition claimMetadataOwnership :: "fs_env \<Rightarrow> string \<Rightarrow> string \<Rightarrow> hostfs \<Rightarrow> hostfs \<times> goerr option" where
  "claimMetadataOwnership env claimDir claimUID fs =
     (let ownerPath = filepath_Join [claimDir, kubevirtMetadataOwnerFile] in
      case fs_ReadFile env ownerPath fs of
        Inr data \<Rightarrow>
          (fs, if TrimSpace data \<noteq> claimUID
               then Some (Errorf ''metadata directory %s is owned by claim %s: another claim with the same name is prepared on this node''
                            [claimDir, TrimSpace data])
               else None)
      | Inl _ \<Rightarrow>
          (case fs_MkdirAll env claimDir fs of
             (fs1, Some err) \<Rightarrow> (fs1, Some (Wrapf ''create metadata claim dir %s: %w'' [claimDir] err))
           | (fs1, None) \<Rightarrow>
               (case fs_WriteFile env ownerPath (claimUID @ [CHR 0x0A]) fs1 of
                  (fs2, Some err) \<Rightarrow> (fs2, Some (Wrapf ''write owner marker %s: %w'' [ownerPath] err))
                | (fs2, None) \<Rightarrow> (fs2, None))))"

text \<open>The allocation results of the claim; a claim without allocation never gets here.\<close>

definition claimResults :: "ResourceClaim \<Rightarrow> DeviceRequestAllocationResult list" where
  "claimResults claim = (case claim_Allocation claim of Some rs \<Rightarrow> rs | None \<Rightarrow> [])"

definition metadataDevice :: "DeviceRequestAllocationResult \<Rightarrow> Device \<Rightarrow> kubevirtMetadataDevice" where
  "metadataDevice result d =
     \<lparr>kv_Driver = DriverName, kv_Pool = res_Pool result, kv_Name = res_Device result,
      kv_Attributes = Attributes d\<rparr>"

fun devicesByRequest ::
    "(string, Device) gomap \<Rightarrow> DeviceRequestAllocationResult list \<Rightarrow>
     (string, kubevirtMetadataDevice list) gomap \<Rightarrow> (string, kubevirtMetadataDevice list) gomap" where
  "devicesByRequest allocatable [] m = m"
| "devicesByRequest allocatable (result # rs) m =
     (if res_Driver result \<noteq> DriverName then devicesByRequest allocatable rs m
      else (case gm_get allocatable (res_Device result) of
              None \<Rightarrow> devicesByRequest allocatable rs m
            | Some d \<Rightarrow>
                let requestName = kubevirtMetadataRequestName result;
                    old = (case gm_get m requestName of Some ds \<Rightarrow> ds | None \<Rightarrow> [])
                in devicesByRequest allocatable rs (gm_put requestName (old @ [metadataDevice result d]) m)))"

definition requestMetadata :: "string option \<Rightarrow> string \<Rightarrow> kubevirtMetadataDevice list \<Rightarrow> kubevirtDeviceMetadata" where
  "requestMetadata pcn requestName devices =
     \<lparr>kv_APIVersion = kubevirtMetadataAPIVersion, kv_Kind = kubevirtMetadataKind,
      kv_PodClaimName = pcn, kv_Requests = [\<lparr>kv_RequestName = requestName, kv_Devices = devices\<rparr>]\<rparr>"

definition writeRequest ::
    "kv_env \<Rightarrow> string \<Rightarrow> string option \<Rightarrow> string \<Rightarrow> kubevirtMetadataDevice list \<Rightarrow> hostfs \<Rightarrow> hostfs \<times> goerr option" where
  "writeRequest env claimDir pcn requestName devices fs =
     (let path = kubevirtMetadataFilePath claimDir requestName;
          dir = filepath_Dir path;
          tmp = path @ ''.tmp''
      in case fs_MkdirAll (kv_fs env) dir fs of
           (fs1, Some err) \<Rightarrow> (fs1, Some (Wrapf ''create metadata dir %s: %w'' [dir] err))
         | (fs1, None) \<Rightarrow>
             (case json_Marshal env (requestMetadata pcn requestName devices) of
                Inl err \<Rightarrow> (fs1, Some (Wrapf ''marshal metadata for request %s: %w'' [requestName] err))
              | Inr data \<Rightarrow>
                  (case fs_WriteFile (kv_fs env) tmp data fs1 of
                     (fs2, Some err) \<Rightarrow> (fs2, Some (Wrapf ''write metadata %s: %w'' [tmp] err))
                   | (fs2, None) \<Rightarrow>
                       (case fs_Rename (kv_fs env) tmp path fs2 of
                          (fs3, Some err) \<Rightarrow> (fs3, Some (Wrapf ''publish metadata %s: %w'' [path] err))
                        | (fs3, None) \<Rightarrow> (fs3, None)))))"

fun writeRequests ::
    "kv_env \<Rightarrow> string \<Rightarrow> string option \<Rightarrow> (string, kubevirtMetadataDevice list) gomap \<Rightarrow> string list \<Rightarrow>
     hostfs \<Rightarrow> hostfs \<times> goerr option" where
  "writeRequests env claimDir pcn byRequest [] fs = (fs, None)"
| "writeRequests env claimDir pcn byRequest (r # rs) fs =
     (case gm_get byRequest r of
        None \<Rightarrow> writeRequests env claimDir pcn byRequest rs fs
      | Some devices \<Rightarrow>
          (case writeRequest env claimDir pcn r devices fs of
             (fs', Some err) \<Rightarrow> (fs', Some err)
           | (fs', None) \<Rightarrow> writeRequests env claimDir pcn byRequest rs fs'))"

definition writeKubeVirtMetadata ::
    "kv_env \<Rightarrow> string \<Rightarrow> ResourceClaim \<Rightarrow> (string, Device) gomap \<Rightarrow> hostfs \<Rightarrow> hostfs \<times> goerr option" where
  "writeKubeVirtMetadata env basePath claim allocatable fs =
     (let byRequest = devicesByRequest allocatable (claimResults claim) gm_empty;
          claimDir = kubevirtMetadataHostDir basePath (claim_UID claim)
      in case claimMetadataOwnership (kv_fs env) claimDir (claim_UID claim) fs of
           (fs1, Some err) \<Rightarrow> (fs1, Some err)
         | (fs1, None) \<Rightarrow>
             writeRequests env claimDir (podClaimName claim) byRequest (order env (gm_keys byRequest)) fs1)"

fun removeEntries ::
    "fs_env \<Rightarrow> string \<Rightarrow> string \<Rightarrow> (string \<times> bool) list \<Rightarrow> hostfs \<Rightarrow> hostfs \<times> goerr option" where
  "removeEntries env parent claimUID [] fs = (fs, None)"
| "removeEntries env parent claimUID ((name, dir) # es) fs =
     (if \<not> dir then removeEntries env parent claimUID es fs
      else let claimDir = filepath_Join [parent, name] in
        case fs_ReadFile env (filepath_Join [claimDir, kubevirtMetadataOwnerFile]) fs of
          Inl _ \<Rightarrow> removeEntries env parent claimUID es fs
        | Inr data \<Rightarrow>
            if TrimSpace data \<noteq> claimUID then removeEntries env parent claimUID es fs
            else (case fs_RemoveAll env claimDir fs of
                    (fs', Some err) \<Rightarrow> (fs', Some (Wrapf ''remove metadata dir %s: %w'' [claimDir] err))
                  | (fs', None) \<Rightarrow> removeEntries env parent claimUID es fs'))"

fun removeSubdirs :: "fs_env \<Rightarrow> string \<Rightarrow> string \<Rightarrow> string list \<Rightarrow> hostfs \<Rightarrow> hostfs \<times> goerr option" where
  "removeSubdirs env basePath claimUID [] fs = (fs, None)"
| "removeSubdirs env basePath claimUID (subdir # subdirs) fs =
     (let parent = filepath_Join [basePath, subdir] in
      case fs_ReadDir env parent fs of
        Inl err \<Rightarrow>
          if os_IsNotExist err then removeSubdirs env basePath claimUID subdirs fs
          else (fs, Some (Wrapf ''scan metadata dir %s: %w'' [parent] err))
      | Inr entries \<Rightarrow>
          (case removeEntries env parent claimUID entries fs of
             (fs', Some err) \<Rightarrow> (fs', Some err)
           | (fs', None) \<Rightarrow> removeSubdirs env basePath claimUID subdirs fs'))"

definition removeKubeVirtMetadataForClaim :: "fs_env \<Rightarrow> string \<Rightarrow> string \<Rightarrow> hostfs \<Rightarrow> hostfs \<times> goerr option" where
  "removeKubeVirtMetadataForClaim env basePath claimUID fs =
     removeSubdirs env basePath claimUID [resourceClaimsSubdir, resourceClaimTemplateSubdir] fs"

section \<open>Owner markers\<close>

definition markerOf :: "hostfs \<Rightarrow> path \<Rightarrow> string option" where
  "markerOf fs q =
     (case gm_get fs (q @ [kubevirtMetadataOwnerFile]) of Some (File c) \<Rightarrow> Some (TrimSpace c) | _ \<Rightarrow> None)"

text \<open>A path at or below a claim directory whose marker names the claim.\<close>

definition owned :: "hostfs \<Rightarrow> path \<Rightarrow> string list \<Rightarrow> string \<Rightarrow> path \<Rightarrow> bool" where
  "owned fs bs subdirs uid k \<longleftrightarrow>
     (\<exists>sub \<in> set subdirs. \<exists>n. under (bs @ [sub, n]) k \<and> markerOf fs (bs @ [sub, n]) = Some uid)"

lemma plain_consts [simp]:
  "plain_name kubevirtMetadataOwnerFile" "plain_name resourceClaimsSubdir"
  "plain_name resourceClaimTemplateSubdir" "plain_name (DriverName @ ''-metadata.json'')"
  by (simp_all add: plain_name_def kubevirtMetadataOwnerFile_def resourceClaimsSubdir_def
      resourceClaimTemplateSubdir_def DriverName_def)

lemma markerOf_ReadFile:
  assumes "list_all plain_name q"
    and "fs_ReadFile env (abs_path (q @ [kubevirtMetadataOwnerFile])) fs = Inr c"
  shows "markerOf fs q = Some (TrimSpace c)"
  using assms by (auto simp: fs_ReadFile_def markerOf_def split: option.splits node.splits)

lemma markerOf_restrict:
  assumes "\<And>k. gm_get fs' k = gm_get fs k \<or> gm_get fs' k = None"
  shows "markerOf fs' q = Some u \<Longrightarrow> markerOf fs q = Some u"
  using assms [of "q @ [kubevirtMetadataOwnerFile]"] by (auto simp: markerOf_def)

subsection \<open>Removal\<close>

lemma Join_child:
  "list_all plain_name ps \<Longrightarrow> ps \<noteq> [] \<Longrightarrow> plain_name n \<Longrightarrow> filepath_Join [abs_path ps, n] = abs_path (ps @ [n])"
  using filepath_Join_plain [of ps "[n]"] by simp

lemma removeEntries_safe:
  assumes "list_all plain_name ps" "ps \<noteq> []" "\<forall>e \<in> set es. plain_name (fst e)"
    and "removeEntries env (abs_path ps) uid es fs = (fs', e)"
  shows "gm_get fs' k = gm_get fs k \<or>
         gm_get fs' k = None \<and> (\<exists>n. under (ps @ [n]) k \<and> markerOf fs (ps @ [n]) = Some uid)"
  using assms
proof (induction es arbitrary: fs)
  case (Cons p es)
  obtain n d where p: "p = (n, d)" by fastforce
  let ?cd = "abs_path (ps @ [n])"
  have pl: "list_all plain_name (ps @ [n])" using Cons.prems p by simp
  have J: "filepath_Join [abs_path ps, n] = ?cd"
    using Cons.prems p by (simp add: Join_child)
  have O: "filepath_Join [?cd, kubevirtMetadataOwnerFile] = abs_path ((ps @ [n]) @ [kubevirtMetadataOwnerFile])"
    using pl by (intro Join_child) auto
  have rest: "removeEntries env (abs_path ps) uid es fs = (fs', e) \<Longrightarrow> ?case"
    using Cons.IH [of fs] Cons.prems(1-3) by simp
  show ?case
  proof (cases "d \<and> (\<exists>c. fs_ReadFile env (abs_path ((ps @ [n]) @ [kubevirtMetadataOwnerFile])) fs = Inr c \<and>
                     TrimSpace c = uid)")
    case False
    then show ?thesis
      using Cons.prems(4) rest by (auto simp: p J O Let_def split: sum.splits if_splits)
  next
    case True
    then obtain c where c: "fs_ReadFile env (abs_path ((ps @ [n]) @ [kubevirtMetadataOwnerFile])) fs = Inr c"
      "TrimSpace c = uid" "d" by blast
    then have m: "markerOf fs (ps @ [n]) = Some uid"
      using markerOf_ReadFile [OF pl c(1)] by simp
    obtain fs1 e1 where r: "fs_RemoveAll env ?cd fs = (fs1, e1)" by fastforce
    show ?thesis
    proof (cases e1)
      case (Some err)
      then have "fs' = fs1" using Cons.prems(4) r c by (simp add: p J O)
      with RemoveAll_below [OF r, of k] m pl show ?thesis by auto
    next
      case None
      have g: "gm_get fs1 k = (if under (ps @ [n]) k then None else gm_get fs k)" for k
        using gm_get_RemoveAll [OF r [unfolded None], of k] pl by simp
      have "removeEntries env (abs_path ps) uid es fs1 = (fs', e)"
        using Cons.prems(4) r c None by (simp add: p J O)
      then have "gm_get fs' k = gm_get fs1 k \<or>
         gm_get fs' k = None \<and> (\<exists>n. under (ps @ [n]) k \<and> markerOf fs1 (ps @ [n]) = Some uid)"
        using Cons.IH [of fs1] Cons.prems(1-3) by simp
      with g m markerOf_restrict [of fs1 fs] show ?thesis by (metis (full_types))
    qed
  qed
qed simp

lemma removeEntries_complete:
  assumes "list_all plain_name ps" "ps \<noteq> []" "\<forall>e \<in> set es. plain_name (fst e)"
    and "\<And>p. fs_fault env ReadFileCall p = None"
    and "removeEntries env (abs_path ps) uid es fs = (fs', None)"
    and "(n, True) \<in> set es" "markerOf fs (ps @ [n]) = Some uid" "under (ps @ [n]) k"
  shows "gm_get fs' k = None"
  using assms
proof (induction es arbitrary: fs)
  case (Cons p es)
  obtain m d where p: "p = (m, d)" by fastforce
  let ?cd = "abs_path (ps @ [m])"
  have pl: "list_all plain_name (ps @ [m])" using Cons.prems p by simp
  have J: "filepath_Join [abs_path ps, m] = ?cd"
    using Cons.prems p by (simp add: Join_child)
  have O: "filepath_Join [?cd, kubevirtMetadataOwnerFile] = abs_path ((ps @ [m]) @ [kubevirtMetadataOwnerFile])"
    using pl by (intro Join_child) auto
  have rd: "fs_ReadFile env (abs_path ((ps @ [m]) @ [kubevirtMetadataOwnerFile])) fs = Inr c \<and> TrimSpace c = uid
      \<longleftrightarrow> gm_get fs ((ps @ [m]) @ [kubevirtMetadataOwnerFile]) = Some (File c) \<and> TrimSpace c = uid" for c
    using pl Cons.prems(4) by (auto simp: fs_ReadFile_def split: option.splits node.splits)
  show ?case
  proof (cases "d \<and> markerOf fs (ps @ [m]) = Some uid")
    case True
    then obtain c where c: "fs_ReadFile env (abs_path ((ps @ [m]) @ [kubevirtMetadataOwnerFile])) fs = Inr c"
      "TrimSpace c = uid" "d"
      using rd by (auto simp: markerOf_def split: option.splits node.splits)
    then obtain fs1 where r: "fs_RemoveAll env ?cd fs = (fs1, None)"
      and rest: "removeEntries env (abs_path ps) uid es fs1 = (fs', None)"
      using Cons.prems(5) by (auto simp: p J O Let_def split: prod.splits option.splits)
    have g: "gm_get fs1 k = (if under (ps @ [m]) k then None else gm_get fs k)" for k
      using gm_get_RemoveAll [OF r, of k] pl by simp
    show ?thesis
    proof (cases "m = n")
      case True
      then have "gm_get fs1 k = None" using g Cons.prems(8) by simp
      then show ?thesis
        using removeEntries_safe [OF Cons.prems(1,2) _ rest, of k] Cons.prems(3) by auto
    next
      case False
      then have "\<not> under (ps @ [m]) ((ps @ [n]) @ [kubevirtMetadataOwnerFile])"
        by (auto simp: under_iff)
      then have "markerOf fs1 (ps @ [n]) = Some uid"
        using Cons.prems(7) g by (simp add: markerOf_def)
      then show ?thesis
        using Cons.IH [of fs1] Cons.prems rest False p by auto
    qed
  next
    case False
    have ne: "TrimSpace c \<noteq> uid" if "d" "fs_ReadFile env (abs_path ((ps @ [m]) @ [kubevirtMetadataOwnerFile])) fs = Inr c" for c
      using False that markerOf_ReadFile [OF pl that(2)] by simp
    have "removeEntries env (abs_path ps) uid es fs = (fs', None)"
    proof (cases "fs_ReadFile env (abs_path ((ps @ [m]) @ [kubevirtMetadataOwnerFile])) fs")
      case (Inr c)
      with ne Cons.prems(5) show ?thesis by (cases d) (simp_all add: p J O)
    qed (use Cons.prems(5) in \<open>cases d, simp_all add: p J O\<close>)
    moreover have "(n, True) \<in> set es"
      using False Cons.prems(6,7) p by auto
    ultimately show ?thesis
      using Cons.IH [of fs] Cons.prems by simp
  qed
qed simp

lemma ReadDir_children:
  "list_all plain_name q \<Longrightarrow> fs_ReadDir env (abs_path q) fs = Inr es \<Longrightarrow> es = children fs q \<and> isdir fs q"
  by (auto simp: fs_ReadDir_def split: option.splits if_splits)

lemma children_plain:
  assumes "fs_ok fs" "e \<in> set (children fs q)"
  shows "plain_name (fst e)"
proof -
  obtain n b where e: "e = (n, b)" by fastforce
  with assms obtain v where "gm_get fs (q @ [n]) = Some v"
    using children_iff [of fs n b q] by auto
  with assms(1) show ?thesis unfolding fs_ok_get e by fastforce
qed

lemma removeEntries_ok:
  "fs_ok fs \<Longrightarrow> removeEntries env p uid es fs = (fs', e) \<Longrightarrow> fs_ok fs'"
proof (induction env p uid es fs rule: removeEntries.induct)
  case (2 env parent uid name dir es fs)
  show ?case
  proof (cases "fs_RemoveAll env (filepath_Join [parent, name]) fs")
    case (Pair fs1 e1)
    then have "fs_ok fs1" using "2.prems"(1) by (rule fs_ok_RemoveAll [rotated])
    with Pair "2" show ?thesis
      by (cases e1) (auto simp: Let_def split: if_splits sum.splits)
  qed
qed simp

lemma removeSubdirs_safe:
  assumes "list_all plain_name bs" "bs \<noteq> []" "list_all plain_name subdirs" "fs_ok fs"
    and "removeSubdirs env (abs_path bs) uid subdirs fs = (fs', e)"
  shows "gm_get fs' k = gm_get fs k \<or> gm_get fs' k = None \<and> owned fs bs subdirs uid k"
  using assms
proof (induction subdirs arbitrary: fs)
  case (Cons sub subdirs)
  have pl: "list_all plain_name (bs @ [sub])" using Cons.prems by simp
  have J: "filepath_Join [abs_path bs, sub] = abs_path (bs @ [sub])"
    using Cons.prems by (simp add: Join_child)
  show ?case
  proof (cases "fs_ReadDir env (abs_path (bs @ [sub])) fs")
    case (Inl err)
    with Cons.prems(5) have "fs' = fs \<or> removeSubdirs env (abs_path bs) uid subdirs fs = (fs', e)"
      by (auto simp: J Let_def split: if_splits)
    with Cons.IH [of fs] Cons.prems show ?thesis by (auto simp: owned_def)
  next
    case (Inr es)
    obtain fs1 e1 where r: "removeEntries env (abs_path (bs @ [sub])) uid es fs = (fs1, e1)" by fastforce
    have es: "\<forall>x \<in> set es. plain_name (fst x)"
      using ReadDir_children [OF pl Inr] children_plain [OF Cons.prems(4)] by auto
    have safe: "gm_get fs1 k = gm_get fs k \<or> gm_get fs1 k = None \<and> owned fs bs [sub] uid k" for k
      using removeEntries_safe [OF pl _ es r, of k] by (auto simp: owned_def)
    have ok1: "fs_ok fs1" using removeEntries_ok [OF Cons.prems(4) r] .
    have mono: "owned fs1 bs subdirs uid k \<Longrightarrow> owned fs bs (sub # subdirs) uid k"
      using markerOf_restrict [of fs1 fs] safe by (fastforce simp: owned_def)
    show ?thesis
    proof (cases e1)
      case (Some err)
      then have "fs' = fs1" using Cons.prems(5) Inr r by (simp add: J)
      with safe [of k] show ?thesis by (auto simp: owned_def)
    next
      case None
      then have "removeSubdirs env (abs_path bs) uid subdirs fs1 = (fs', e)"
        using Cons.prems(5) Inr r by (simp add: J)
      then have "gm_get fs' k = gm_get fs1 k \<or> gm_get fs' k = None \<and> owned fs1 bs subdirs uid k"
        using Cons.IH [of fs1] Cons.prems(1-3) ok1 by simp
      with safe [of k] mono show ?thesis by (auto simp: owned_def)
    qed
  qed
qed simp

lemma marker_entry:
  assumes "fs_ok fs" "markerOf fs (q @ [n]) = Some uid"
  shows "(n, True) \<in> set (children fs q) \<and> isdir fs q"
proof -
  obtain c where "gm_get fs ((q @ [n]) @ [kubevirtMetadataOwnerFile]) = Some (File c)"
    using assms(2) by (auto simp: markerOf_def split: option.splits node.splits)
  with assms(1) have "isdir fs (butlast ((q @ [n]) @ [kubevirtMetadataOwnerFile]))"
    unfolding fs_ok_get by blast
  then have d: "gm_get fs (q @ [n]) = Some Dir" by (simp add: isdir_def butlast_append)
  with assms(1) have "isdir fs (butlast (q @ [n]))" unfolding fs_ok_get by blast
  with d assms(1) show ?thesis by (auto simp: children_iff)
qed

lemma removeSubdirs_complete:
  assumes "list_all plain_name bs" "bs \<noteq> []" "list_all plain_name subdirs" "fs_ok fs"
    and nf: "\<And>p. fs_fault env ReadFileCall p = None" "\<And>p. fs_fault env ReadDirCall p = None"
    and "removeSubdirs env (abs_path bs) uid subdirs fs = (fs', None)"
    and "owned fs bs subdirs uid k"
  shows "gm_get fs' k = None"
  using assms(1-4,7-8)
proof (induction subdirs arbitrary: fs)
  case (Cons sub subdirs)
  have pl: "list_all plain_name (bs @ [sub])" using Cons.prems by simp
  have J: "filepath_Join [abs_path bs, sub] = abs_path (bs @ [sub])"
    using Cons.prems by (simp add: Join_child)
  obtain s n where sn: "s \<in> set (sub # subdirs)" "under (bs @ [s, n]) k" "markerOf fs (bs @ [s, n]) = Some uid"
    using Cons.prems(6) by (auto simp: owned_def)
  have ent: "(n, True) \<in> set (children fs (bs @ [s])) \<and> isdir fs (bs @ [s])"
    using marker_entry [of fs "bs @ [s]" n] Cons.prems(4) sn(3) by simp
  show ?case
  proof (cases "fs_ReadDir env (abs_path (bs @ [sub])) fs")
    case (Inl err)
    then have "\<not> isdir fs (bs @ [sub])" "removeSubdirs env (abs_path bs) uid subdirs fs = (fs', None)"
      using Cons.prems(5) pl nf by (auto simp: J Let_def fs_ReadDir_def split: if_splits)
    moreover from this have "owned fs bs subdirs uid k"
      using sn ent by (auto simp: owned_def)
    ultimately show ?thesis using Cons.IH [of fs] Cons.prems by simp
  next
    case (Inr es)
    then obtain fs1 where r: "removeEntries env (abs_path (bs @ [sub])) uid es fs = (fs1, None)"
      and rest: "removeSubdirs env (abs_path bs) uid subdirs fs1 = (fs', None)"
      using Cons.prems(5) by (auto simp: J Let_def split: prod.splits option.splits)
    have es: "\<forall>x \<in> set es. plain_name (fst x)" "es = children fs (bs @ [sub])"
      using ReadDir_children [OF pl Inr] children_plain [OF Cons.prems(4)] by auto
    have ok1: "fs_ok fs1" using removeEntries_ok [OF Cons.prems(4) r] .
    show ?thesis
    proof (cases "s = sub")
      case True
      then have "gm_get fs1 k = None"
        using removeEntries_complete [OF pl _ es(1) nf(1) r, of n k] ent es(2) sn by simp
      then show ?thesis
        using removeSubdirs_safe [OF Cons.prems(1,2) _ ok1 rest, of k] Cons.prems(3) by auto
    next
      case False
      have "\<not> under ((bs @ [sub]) @ [m]) ((bs @ [s, n]) @ [kubevirtMetadataOwnerFile])" for m
        using False by (auto simp: under_iff)
      then have "gm_get fs1 ((bs @ [s, n]) @ [kubevirtMetadataOwnerFile]) =
          gm_get fs ((bs @ [s, n]) @ [kubevirtMetadataOwnerFile])"
        using removeEntries_safe [OF pl _ es(1) r] by blast
      then have "markerOf fs1 (bs @ [s, n]) = Some uid"
        using sn(3) by (simp add: markerOf_def)
      then have "owned fs1 bs subdirs uid k"
        using sn False by (auto simp: owned_def)
      then show ?thesis using Cons.IH [of fs1] Cons.prems(1-3) ok1 rest by simp
    qed
  qed
qed (simp add: owned_def)

end
