(* ===== verification/Kubevirt_Writes.thy ===== *)
theory Kubevirt_Writes
  imports Kubevirt_Metadata
begin

text \<open>
  What writing a claim's metadata does to the host tree: everything it changes lies in the
  directory named after the claim's UID, a success leaves the owner marker and one file per
  request, and the tree stays well-formed.
\<close>

section \<open>Paths\<close>

definition uid_ok :: "string \<Rightarrow> bool" where
  "uid_ok uid \<longleftrightarrow> (\<forall>c \<in> set uid. \<not> is_space c \<and> c \<noteq> CHR ''/'')"

definition request_ok :: "string \<Rightarrow> bool" where
  "request_ok r \<longleftrightarrow> plain_name r \<and> r \<noteq> kubevirtMetadataOwnerFile"

definition hostSegs :: "path \<Rightarrow> string \<Rightarrow> path" where
  "hostSegs bs uid = bs @ [resourceClaimsSubdir, ''.uid-'' @ uid]"

definition metadataFile :: string where
  "metadataFile = DriverName @ ''-metadata.json''"

lemma plain_metadataFile [simp]: "plain_name metadataFile" "plain_name (metadataFile @ ''.tmp'')"
  by (simp_all add: plain_name_def metadataFile_def DriverName_def)

lemma plain_uid_dir: "uid_ok uid \<Longrightarrow> plain_name (''.uid-'' @ uid)"
  by (auto simp: uid_ok_def plain_name_def)

lemma hostSegs_plain: "list_all plain_name bs \<Longrightarrow> uid_ok uid \<Longrightarrow> list_all plain_name (hostSegs bs uid)"
  by (simp add: hostSegs_def plain_uid_dir del: append_Cons)

lemma hostSegs_nonempty [simp]: "hostSegs bs uid \<noteq> []"
  by (simp add: hostSegs_def)

lemma hostSegs_inj: "hostSegs bs u = hostSegs bs v \<longleftrightarrow> u = v"
  by (simp add: hostSegs_def)

lemma hostSegs_apart: "u \<noteq> v \<Longrightarrow> under (hostSegs bs u) k \<Longrightarrow> \<not> under (hostSegs bs v) k"
  by (auto simp: hostSegs_def under_iff)

lemma hostDir_abs:
  "list_all plain_name bs \<Longrightarrow> bs \<noteq> [] \<Longrightarrow> uid_ok uid \<Longrightarrow>
     kubevirtMetadataHostDir (abs_path bs) uid = abs_path (hostSegs bs uid)"
  using filepath_Join_plain [of bs "[resourceClaimsSubdir, ''.uid-'' @ uid]"] plain_uid_dir [of uid]
  by (simp add: kubevirtMetadataHostDir_def hostSegs_def)

lemma filePath_abs:
  "list_all plain_name q \<Longrightarrow> q \<noteq> [] \<Longrightarrow> plain_name r \<Longrightarrow>
     kubevirtMetadataFilePath (abs_path q) r = abs_path (q @ [r, metadataFile])"
  using filepath_Join_plain [of q "[r, metadataFile]"] plain_metadataFile(1)
  by (simp add: kubevirtMetadataFilePath_def metadataFile_def)

lemma abs_path_suffix: "abs_path (ws @ [f]) @ x = abs_path (ws @ [f @ x])"
  by (cases "ws = []") (simp_all add: abs_path_def Join_with_append)

lemma TrimSpace_marker: "uid_ok uid \<Longrightarrow> TrimSpace (uid @ [CHR 0x0A]) = uid"
proof -
  assume u: "uid_ok uid"
  have nl: "is_space (CHR 0x0A)" by (simp add: is_space_def)
  have d: "dropWhile is_space (xs @ ys) = xs @ ys" if "\<forall>c \<in> set xs. \<not> is_space c" "xs \<noteq> []" for xs ys
    using that by (cases xs) auto
  show ?thesis
  proof (cases "uid = []")
    case False
    then have "rev uid \<noteq> []" by simp
    have "\<forall>c \<in> set (rev uid). \<not> is_space c" using u by (simp add: uid_ok_def)
    then show ?thesis
      using d [of uid "[CHR 0x0A]"] d [of "rev uid" "[]"] False u nl by (simp add: TrimSpace_def uid_ok_def)
  qed (simp add: TrimSpace_def nl)
qed

section \<open>Ownership\<close>

lemma changes_keep:
  "changes_below q fs fs' \<Longrightarrow> \<not> under q k \<Longrightarrow> gm_get fs k = Some v \<Longrightarrow> gm_get fs' k = Some v"
  unfolding changes_below_def by (metis option.distinct(1))

lemma changes_below_weaken: "changes_below (q @ r) fs fs' \<Longrightarrow> changes_below q fs fs'"
  unfolding changes_below_def by (auto simp: under_iff append_eq_append_conv2)

lemma WriteFile_ok:
  "fs_WriteFile env (abs_path q) data fs = (fs', None) \<Longrightarrow> list_all plain_name q \<Longrightarrow> fs' = gm_put q (File data) fs"
  by (auto simp: fs_WriteFile_def Let_def split: option.splits prod.splits if_splits)

lemma Rename_ok:
  "fs_Rename env (abs_path a) (abs_path b) fs = (fs', None) \<Longrightarrow> list_all plain_name a \<Longrightarrow> list_all plain_name b \<Longrightarrow>
     \<exists>c. gm_get fs a = Some (File c) \<and> fs' = gm_put b (File c) (gm_del a fs)"
  by (auto simp: fs_Rename_def split: option.splits node.splits if_splits)

lemma ownership_changes:
  assumes "list_all plain_name q" "q \<noteq> []"
    and "claimMetadataOwnership env (abs_path q) uid fs = (fs', e)"
  shows "changes_below q fs fs'"
proof -
  have J: "filepath_Join [abs_path q, kubevirtMetadataOwnerFile] = abs_path (q @ [kubevirtMetadataOwnerFile])"
    using assms by (simp add: Join_child)
  have w: "changes_below q fs1 fs2"
    if "fs_WriteFile env (abs_path (q @ [kubevirtMetadataOwnerFile])) data fs1 = (fs2, x)" for data fs1 fs2 x
    using WriteFile_changes [OF that] assms(1) by simp
  have m: "changes_below q fs fs1" if "fs_MkdirAll env (abs_path q) fs = (fs1, x)" for fs1 x
    using MkdirAll_changes [OF that] assms(1) by simp
  show ?thesis
    using assms(3) unfolding claimMetadataOwnership_def J Let_def
    by (auto split: sum.splits prod.splits option.splits dest!: m w intro: changes_below_trans)
qed

lemma ownership_marker:
  assumes "list_all plain_name q" "q \<noteq> []" "uid_ok uid"
    and "claimMetadataOwnership env (abs_path q) uid fs = (fs', None)"
  shows "markerOf fs' q = Some uid"
proof -
  have pl: "list_all plain_name (q @ [kubevirtMetadataOwnerFile])" using assms by simp
  have J: "filepath_Join [abs_path q, kubevirtMetadataOwnerFile] = abs_path (q @ [kubevirtMetadataOwnerFile])"
    using assms by (simp add: Join_child)
  show ?thesis
  proof (cases "fs_ReadFile env (abs_path (q @ [kubevirtMetadataOwnerFile])) fs")
    case (Inr data)
    with assms(4) have "TrimSpace data = uid" "fs' = fs"
      by (auto simp: claimMetadataOwnership_def J split: if_splits)
    with markerOf_ReadFile [OF assms(1) Inr] show ?thesis by simp
  next
    case (Inl err)
    with assms(4) obtain fs1 where
      "fs_WriteFile env (abs_path (q @ [kubevirtMetadataOwnerFile])) (uid @ [CHR 0x0A]) fs1 = (fs', None)"
      by (auto simp: claimMetadataOwnership_def J Let_def split: prod.splits option.splits)
    from WriteFile_ok [OF this pl] show ?thesis
      by (simp add: markerOf_def TrimSpace_marker [OF assms(3)])
  qed
qed

text \<open>A directory that names another owner is refused and not touched.\<close>

lemma ownership_refused:
  assumes "list_all plain_name q" "q \<noteq> []" "markerOf fs q = Some other" "other \<noteq> uid"
    and "\<And>p. fs_fault env ReadFileCall p = None"
  shows "\<exists>e. claimMetadataOwnership env (abs_path q) uid fs = (fs, Some e)"
proof -
  have J: "filepath_Join [abs_path q, kubevirtMetadataOwnerFile] = abs_path (q @ [kubevirtMetadataOwnerFile])"
    using assms by (simp add: Join_child)
  obtain c where "gm_get fs (q @ [kubevirtMetadataOwnerFile]) = Some (File c)" "TrimSpace c = other"
    using assms(3) by (auto simp: markerOf_def split: option.splits node.splits)
  then have "fs_ReadFile env (abs_path (q @ [kubevirtMetadataOwnerFile])) fs = Inr c"
    using assms(1,5) by (simp add: fs_ReadFile_def)
  with \<open>TrimSpace c = other\<close> assms(4) show ?thesis
    by (simp add: claimMetadataOwnership_def J)
qed

section \<open>One request\<close>

lemma writeRequest_steps:
  assumes q: "list_all plain_name q" "q \<noteq> []" and r: "plain_name r"
    and w: "writeRequest env (abs_path q) pcn r ds fs = (fs', e)"
  shows "changes_below (q @ [r]) fs fs' \<and> (fs_ok fs \<longrightarrow> fs_ok fs') \<and>
    (e = None \<longrightarrow> (\<exists>data. json_Marshal env (requestMetadata pcn r ds) = Inr data \<and>
                     gm_get fs' (q @ [r, metadataFile]) = Some (File data)))"
proof -
  let ?dir = "q @ [r]" and ?file = "q @ [r, metadataFile]" and ?tmp = "q @ [r, metadataFile @ ''.tmp'']"
  have pl: "list_all plain_name ?dir" "list_all plain_name ?file" "list_all plain_name ?tmp"
    using q r plain_metadataFile by (simp_all del: append_assoc)
  have P: "kubevirtMetadataFilePath (abs_path q) r = abs_path ?file"
    using q r by (rule filePath_abs)
  have D: "filepath_Dir (abs_path ?file) = abs_path ?dir"
    using filepath_Dir_abs_path [of ?dir metadataFile] pl(1) by simp
  have T: "abs_path ?file @ ''.tmp'' = abs_path ?tmp"
    using abs_path_suffix [of ?dir metadataFile "''.tmp''"] by simp
  have u: "under ?dir ?file" "under ?dir ?tmp" by (simp_all add: under_iff)
  obtain fs1 e1 where m: "fs_MkdirAll (kv_fs env) (abs_path ?dir) fs = (fs1, e1)" by fastforce
  have c1: "changes_below ?dir fs fs1" "fs_ok fs \<longrightarrow> fs_ok fs1"
    using MkdirAll_changes [OF m, of ?dir] fs_ok_MkdirAll [OF _ pl(1) m] pl(1) by auto
  show ?thesis
  proof (cases "e1 = None \<and> (\<exists>data. json_Marshal env (requestMetadata pcn r ds) = Inr data)")
    case False
    then have "fs' = fs1 \<and> e \<noteq> None"
      using w m by (auto simp: writeRequest_def P D T Let_def split: sum.splits option.splits)
    with c1 show ?thesis by auto
  next
    case True
    then obtain data where j: "e1 = None" "json_Marshal env (requestMetadata pcn r ds) = Inr data" by blast
    obtain fs2 e2 where wf: "fs_WriteFile (kv_fs env) (abs_path ?tmp) data fs1 = (fs2, e2)" by fastforce
    have c2: "changes_below ?dir fs1 fs2" "fs_ok fs1 \<longrightarrow> fs_ok fs2"
      using WriteFile_changes [OF wf, of ?dir] fs_ok_WriteFile [OF _ pl(3) wf] pl(3) u(2) by auto
    show ?thesis
    proof (cases e2)
      case (Some err)
      then have "fs' = fs2 \<and> e \<noteq> None"
        using w m j wf by (simp add: writeRequest_def P D T) blast
      with c1 c2 show ?thesis using changes_below_trans by blast
    next
      case None
      obtain fs3 e3 where rn: "fs_Rename (kv_fs env) (abs_path ?tmp) (abs_path ?file) fs2 = (fs3, e3)" by fastforce
      have c3: "changes_below ?dir fs2 fs3" "fs_ok fs2 \<longrightarrow> fs_ok fs3"
        using Rename_changes [OF rn, of ?dir] fs_ok_Rename [OF _ pl(2) rn] pl(2,3) u by auto
      have fin: "fs' = fs3 \<and> (e = None \<longrightarrow> e3 = None)"
        using w m j wf None rn by (cases e3) (auto simp: writeRequest_def P D T Let_def)
      have "gm_get fs3 ?file = Some (File data)" if "e3 = None"
        using Rename_ok [OF rn [unfolded that] pl(3,2)] WriteFile_ok [OF wf [unfolded None] pl(3)] by auto
      with fin j c1 c2 c3 show ?thesis using changes_below_trans by blast
    qed
  qed
qed

section \<open>All requests\<close>

lemma writeRequests_steps:
  assumes "list_all plain_name q" "q \<noteq> []"
    and "\<And>r. gm_get byRequest r \<noteq> None \<Longrightarrow> plain_name r"
    and "writeRequests env (abs_path q) pcn byRequest rs fs = (fs', e)"
  shows "changes_below q fs fs' \<and> (fs_ok fs \<longrightarrow> fs_ok fs')"
  using assms(4)
proof (induction rs arbitrary: fs)
  case (Cons r rs)
  show ?case
  proof (cases "gm_get byRequest r")
    case (Some ds)
    obtain fs1 e1 where w: "writeRequest env (abs_path q) pcn r ds fs = (fs1, e1)" by fastforce
    have s: "changes_below q fs fs1" "fs_ok fs \<longrightarrow> fs_ok fs1"
      using writeRequest_steps [OF assms(1,2) _ w] assms(3) [of r] Some changes_below_weaken by auto
    show ?thesis
    proof (cases e1)
      case None
      then have "writeRequests env (abs_path q) pcn byRequest rs fs1 = (fs', e)"
        using Cons.prems Some w by simp
      from Cons.IH [OF this] s show ?thesis using changes_below_trans by blast
    qed (use Cons.prems Some w s in simp)
  qed (use Cons in simp)
qed simp

lemma writeRequests_keep:
  assumes "list_all plain_name q" "q \<noteq> []"
    and "\<And>r. gm_get byRequest r \<noteq> None \<Longrightarrow> plain_name r"
    and "writeRequests env (abs_path q) pcn byRequest rs fs = (fs', e)"
    and "gm_get fs k = Some v" "\<And>r. gm_get byRequest r \<noteq> None \<Longrightarrow> \<not> under (q @ [r]) k"
  shows "gm_get fs' k = Some v"
  using assms(4,5)
proof (induction rs arbitrary: fs)
  case (Cons r rs)
  show ?case
  proof (cases "gm_get byRequest r")
    case (Some ds)
    obtain fs1 e1 where w: "writeRequest env (abs_path q) pcn r ds fs = (fs1, e1)" by fastforce
    have "changes_below (q @ [r]) fs fs1"
      using writeRequest_steps [OF assms(1,2) _ w] assms(3) [of r] Some by auto
    then have "gm_get fs1 k = Some v"
      using changes_keep Cons.prems(2) assms(6) [of r] Some by fastforce
    with Cons Some w show ?thesis by (cases e1) auto
  qed (use Cons in simp)
qed simp

lemma writeRequests_files:
  assumes "list_all plain_name q" "q \<noteq> []"
    and names: "\<And>r. gm_get byRequest r \<noteq> None \<Longrightarrow> plain_name r"
    and "writeRequests env (abs_path q) pcn byRequest rs fs = (fs', None)"
    and "r \<in> set rs" "gm_get byRequest r = Some ds"
  shows "\<exists>data. json_Marshal env (requestMetadata pcn r ds) = Inr data \<and>
           gm_get fs' (q @ [r, metadataFile]) = Some (File data)"
  using assms(4,5)
proof (induction rs arbitrary: fs)
  case (Cons r' rs)
  show ?case
  proof (cases "r \<in> set rs")
    case True
    with Cons show ?thesis by (auto split: option.splits prod.splits)
  next
    case False
    then have r': "r' = r" using Cons.prems(2) by simp
    obtain fs1 where w: "writeRequest env (abs_path q) pcn r ds fs = (fs1, None)"
      and rest: "writeRequests env (abs_path q) pcn byRequest rs fs1 = (fs', None)"
      using Cons.prems(1) assms(6) r' by (auto split: prod.splits option.splits)
    obtain data where d: "json_Marshal env (requestMetadata pcn r ds) = Inr data"
      "gm_get fs1 (q @ [r, metadataFile]) = Some (File data)"
      using writeRequest_steps [OF assms(1,2) _ w] names [of r] assms(6) by auto
    have keep: "writeRequests env (abs_path q) pcn (gm_del r byRequest) rs fs1 = (fs', None)"
      using rest False
    proof (induction rs arbitrary: fs1)
      case (Cons x xs)
      then show ?case by (auto split: option.splits prod.splits)
    qed simp
    have "gm_get fs' (q @ [r, metadataFile]) = Some (File data)"
      by (rule writeRequests_keep [OF assms(1,2) _ keep d(2)])
         (auto simp: under_iff names split: if_splits)
    with d(1) show ?thesis by blast
  qed
qed simp

section \<open>The whole write\<close>

text \<open>The devices of one request, in allocation order.\<close>

definition requestDevices ::
    "(string, Device) gomap \<Rightarrow> DeviceRequestAllocationResult list \<Rightarrow> string \<Rightarrow> kubevirtMetadataDevice list" where
  "requestDevices allocatable rs r =
     [metadataDevice res (the (gm_get allocatable (res_Device res))).
        res \<leftarrow> rs, res_Driver res = DriverName \<and> gm_get allocatable (res_Device res) \<noteq> None \<and>
                  kubevirtMetadataRequestName res = r]"

lemma requestDevices_simps [simp]:
  "requestDevices allocatable [] r = []"
  "requestDevices allocatable (res # rs) r =
     (if res_Driver res = DriverName \<and> gm_get allocatable (res_Device res) \<noteq> None \<and> kubevirtMetadataRequestName res = r
      then [metadataDevice res (the (gm_get allocatable (res_Device res)))] else []) @ requestDevices allocatable rs r"
  by (simp_all add: requestDevices_def)

lemma devicesByRequest_get:
  "gm_get (devicesByRequest allocatable rs m) r =
     (if requestDevices allocatable rs r = [] then gm_get m r
      else Some ((case gm_get m r of Some ds \<Rightarrow> ds | None \<Rightarrow> []) @ requestDevices allocatable rs r))"
proof (induction rs arbitrary: m)
  case (Cons res rs)
  show ?case
  proof (cases "res_Driver res = DriverName")
    case True
    then show ?thesis
    proof (cases "gm_get allocatable (res_Device res)")
      case (Some d)
      with True show ?thesis
        by (cases "kubevirtMetadataRequestName res = r") (simp_all add: Cons.IH Let_def)
    qed (simp add: Cons.IH)
  qed (simp add: Cons.IH)
qed simp

lemma devicesByRequest_ok: "gm_ok m \<Longrightarrow> gm_ok (devicesByRequest allocatable rs m)"
  by (induction allocatable rs m rule: devicesByRequest.induct) (auto simp: Let_def split: option.splits)

lemma byRequest_names:
  assumes "\<forall>res \<in> set rs. plain_name (kubevirtMetadataRequestName res)"
    and "gm_get (devicesByRequest allocatable rs gm_empty) r \<noteq> None"
  shows "plain_name r"
proof -
  have "requestDevices allocatable rs r \<noteq> []"
    using assms(2) by (auto simp: devicesByRequest_get split: if_splits)
  then show ?thesis
    using assms(1) by (auto simp: requestDevices_def split: if_splits)
qed

lemma ownership_fs_ok:
  assumes "list_all plain_name q" "q \<noteq> []" "fs_ok fs"
    and "claimMetadataOwnership env (abs_path q) uid fs = (fs', e)"
  shows "fs_ok fs'"
proof -
  have pl: "list_all plain_name (q @ [kubevirtMetadataOwnerFile])" using assms by simp
  have J: "filepath_Join [abs_path q, kubevirtMetadataOwnerFile] = abs_path (q @ [kubevirtMetadataOwnerFile])"
    using assms by (simp add: Join_child)
  show ?thesis
    using assms(4) assms(3) unfolding claimMetadataOwnership_def J Let_def
    by (auto split: sum.splits prod.splits option.splits
        dest: fs_ok_MkdirAll [OF _ assms(1)] fs_ok_WriteFile [OF _ pl])
qed

lemma write_steps:
  assumes "list_all plain_name bs" "bs \<noteq> []" "uid_ok (claim_UID claim)"
    and "\<forall>res \<in> set (claimResults claim). plain_name (kubevirtMetadataRequestName res)"
    and "writeKubeVirtMetadata env (abs_path bs) claim allocatable fs = (fs', e)"
  shows "changes_below (hostSegs bs (claim_UID claim)) fs fs' \<and> (fs_ok fs \<longrightarrow> fs_ok fs')"
proof -
  let ?q = "hostSegs bs (claim_UID claim)"
  let ?m = "devicesByRequest allocatable (claimResults claim) gm_empty"
  have q: "list_all plain_name ?q" "?q \<noteq> []"
    using assms(1,3) by (simp_all add: hostSegs_plain)
  have names: "\<And>r. gm_get ?m r \<noteq> None \<Longrightarrow> plain_name r"
    using byRequest_names [OF assms(4)] by blast
  obtain fs1 e1 where o: "claimMetadataOwnership (kv_fs env) (abs_path ?q) (claim_UID claim) fs = (fs1, e1)"
    by fastforce
  have 1: "changes_below ?q fs fs1" "fs_ok fs \<longrightarrow> fs_ok fs1"
    using ownership_changes [OF q o] ownership_fs_ok [OF q _ o] by auto
  show ?thesis
  proof (cases e1)
    case None
    then have "writeRequests env (abs_path ?q) (podClaimName claim) ?m (order env (gm_keys ?m)) fs1 = (fs', e)"
      using assms(5) o by (simp add: writeKubeVirtMetadata_def hostDir_abs [OF assms(1-3)] Let_def)
    from writeRequests_steps [OF q names this] 1 show ?thesis
      using changes_below_trans by blast
  qed (use assms(5) o 1 in \<open>simp add: writeKubeVirtMetadata_def hostDir_abs [OF assms(1-3)]\<close>)
qed

lemma write_ok:
  assumes "list_all plain_name bs" "bs \<noteq> []" "uid_ok (claim_UID claim)"
    and names: "\<forall>res \<in> set (claimResults claim). request_ok (kubevirtMetadataRequestName res)"
    and perm: "\<And>ks. set (order env ks) = set ks"
    and "writeKubeVirtMetadata env (abs_path bs) claim allocatable fs = (fs', None)"
  shows "markerOf fs' (hostSegs bs (claim_UID claim)) = Some (claim_UID claim)"
    and "requestDevices allocatable (claimResults claim) r \<noteq> [] \<Longrightarrow>
      \<exists>data. json_Marshal env (requestMetadata (podClaimName claim) r
                (requestDevices allocatable (claimResults claim) r)) = Inr data \<and>
             gm_get fs' (hostSegs bs (claim_UID claim) @ [r, metadataFile]) = Some (File data)"
proof -
  let ?q = "hostSegs bs (claim_UID claim)"
  let ?m = "devicesByRequest allocatable (claimResults claim) gm_empty"
  have q: "list_all plain_name ?q" "?q \<noteq> []"
    using assms(1,3) by (simp_all add: hostSegs_plain)
  have pn: "\<And>r. gm_get ?m r \<noteq> None \<Longrightarrow> plain_name r"
    using byRequest_names [of "claimResults claim"] names by (auto simp: request_ok_def)
  obtain fs1 where o: "claimMetadataOwnership (kv_fs env) (abs_path ?q) (claim_UID claim) fs = (fs1, None)"
    and w: "writeRequests env (abs_path ?q) (podClaimName claim) ?m (order env (gm_keys ?m)) fs1 = (fs', None)"
    using assms(6) by (auto simp: writeKubeVirtMetadata_def hostDir_abs [OF assms(1-3)] Let_def
        split: prod.splits option.splits)
  obtain c where c: "gm_get fs1 (?q @ [kubevirtMetadataOwnerFile]) = Some (File c)" "TrimSpace c = claim_UID claim"
    using ownership_marker [OF q assms(3) o] by (auto simp: markerOf_def split: option.splits node.splits)
  have "\<not> under (?q @ [r]) (?q @ [kubevirtMetadataOwnerFile])" if "gm_get ?m r \<noteq> None" for r
  proof -
    have "requestDevices allocatable (claimResults claim) r \<noteq> []"
      using that by (auto simp: devicesByRequest_get split: if_splits)
    then have "r \<noteq> kubevirtMetadataOwnerFile"
      using names by (auto simp: requestDevices_def request_ok_def split: if_splits)
    then show ?thesis by (simp add: under_def)
  qed
  from writeRequests_keep [OF q pn w c(1) this]
  show "markerOf fs' ?q = Some (claim_UID claim)" using c(2) by (simp add: markerOf_def)
  assume r: "requestDevices allocatable (claimResults claim) r \<noteq> []"
  then have g: "gm_get ?m r = Some (requestDevices allocatable (claimResults claim) r)"
    by (simp add: devicesByRequest_get)
  then have "r \<in> set (order env (gm_keys ?m))"
    using perm by (simp add: set_gm_keys)
  from writeRequests_files [OF q pn w this g]
  show "\<exists>data. json_Marshal env (requestMetadata (podClaimName claim) r
                (requestDevices allocatable (claimResults claim) r)) = Inr data \<and>
             gm_get fs' (?q @ [r, metadataFile]) = Some (File data)" .
qed

lemma removeSubdirs_fs_ok:
  "fs_ok fs \<Longrightarrow> removeSubdirs env b uid subdirs fs = (fs', e) \<Longrightarrow> fs_ok fs'"
proof (induction env b uid subdirs fs rule: removeSubdirs.induct)
  case (2 env b uid sub subs fs)
  show ?case
  proof (cases "fs_ReadDir env (filepath_Join [b, sub]) fs")
    case (Inr es)
    obtain fs1 e1 where r: "removeEntries env (filepath_Join [b, sub]) uid es fs = (fs1, e1)" by fastforce
    then have "fs_ok fs1" using removeEntries_ok "2.prems"(1) by blast
    with "2" Inr r show ?thesis by (cases e1) (auto simp: Let_def)
  qed (use "2" in \<open>auto simp: Let_def split: if_splits\<close>)
qed simp

end
