(* ===== verification/Prepare.thy ===== *)
theory Prepare
  imports Validate Device_Nodes Rsd_Group Kubevirt_Writes
begin

text \<open>
  Preparing and unpreparing a claim (\<open>Prepare\<close>, \<open>Unprepare\<close> and \<open>prepareDevices\<close> of
  \<open>cmd/npu-kubelet-plugin/state.go\<close>).

  \<open>world\<close> is what the two operations change: the checkpoint, the CDI spec directory and the host
  tree with the metadata. \<open>prep_env\<close> is what they ask for: the answers of the checkpoint manager
  (kubelet's: a read returns the stored checkpoint or fails, a write replaces it or fails and
  leaves it), the live sysfs, \<open>rsdGroupFn\<close>, the device nodes, the CDI library, the host calls.
\<close>

record world =
  w_claims :: PreparedClaims
  w_specs :: specdir
  w_fs :: hostfs

record prep_env =
  GetCheckpoint_err :: "goerr option"
  CreateCheckpoint_err :: "goerr option"
  env_sysfs :: sysfs
  rsdGroupFn :: "string list \<Rightarrow> string result"
  env_dev :: dev_env
  env_cdi :: cdi_env
  env_kv :: kv_env

section \<open>prepareDevices\<close>

text \<open>A map lookup of a key that is not there gives the zero device.\<close>

definition zeroDevice :: Device where
  "zeroDevice = \<lparr>Name = [], Attributes = gm_empty, Capacity = gm_empty\<rparr>"

definition allocated :: "DeviceState \<Rightarrow> string \<Rightarrow> Device" where
  "allocated s name = (case gm_get (allocatable s) name of Some d \<Rightarrow> d | None \<Rightarrow> zeroDevice)"

fun validateResults ::
    "sysfs \<Rightarrow> DeviceState \<Rightarrow> DeviceRequestAllocationResult list \<Rightarrow> DeviceRequestAllocationResult list \<Rightarrow>
     DeviceRequestAllocationResult list result" where
  "validateResults sy s [] results = Inr results"
| "validateResults sy s (result # rs) results =
     (if res_Driver result \<noteq> DriverName then validateResults sy s rs results
      else (case gm_get (allocatable s) (res_Device result) of
              None \<Rightarrow> Inl (Errorf ''requested device is not allocatable: %v'' [res_Device result])
            | Some d \<Rightarrow>
                if res_Pool result \<noteq> nodeName s
                then Inl (Errorf ''allocated pool %q does not match this node %q'' [res_Pool result, nodeName s])
                else (case validateAllocatedDevice sy (state_sysfsRoot s) d of
                        Some err \<Rightarrow> Inl (Wrapf ''allocated device %s is unavailable: %w'' [res_Device result] err)
                      | None \<Rightarrow> validateResults sy s rs (results @ [result]))))"

fun nativeBusIDs :: "DeviceState \<Rightarrow> DeviceRequestAllocationResult list \<Rightarrow> string list \<Rightarrow> string list result" where
  "nativeBusIDs s [] ids = Inr ids"
| "nativeBusIDs s (result # rs) ids =
     (let d = allocated s (res_Device result) in
      if isVfioDevice d then nativeBusIDs s rs ids
      else (case devicePCIBusID d of
              Inl err \<Rightarrow> Inl err
            | Inr busID \<Rightarrow> nativeBusIDs s rs (ids @ [busID])))"

definition preparedDevice ::
    "cdi_env \<Rightarrow> DeviceState \<Rightarrow> ResourceClaim \<Rightarrow> DeviceRequestAllocationResult \<Rightarrow> bool \<Rightarrow> ContainerEdits \<Rightarrow> PreparedDevice" where
  "preparedDevice env s claim result isVfio edits =
     \<lparr>prep_Device = \<lparr>RequestNames = [res_Request result], PoolName = res_Pool result,
                     DeviceName = res_Device result,
                     CdiDeviceIds = GetClaimDevices env (cdi s) (claim_UID claim) [res_Device result] (\<not> isVfio)\<rparr>,
      prep_Edits = edits\<rparr>"

fun prepareLoop ::
    "prep_env \<Rightarrow> DeviceState \<Rightarrow> ResourceClaim \<Rightarrow> string \<Rightarrow> DeviceNode list \<Rightarrow>
     DeviceRequestAllocationResult list \<Rightarrow> (string, bool) gomap \<Rightarrow> bool \<Rightarrow> PreparedDevices \<Rightarrow> PreparedDevices result" where
  "prepareLoop env s claim hostRsdPath rdsNodes [] metadataMounted rdsInjected pds = Inr pds"
| "prepareLoop env s claim hostRsdPath rdsNodes (result # rs) metadataMounted rdsInjected pds =
     (let d = allocated s (res_Device result) in
      if isVfioDevice d then
        let requestName = kubevirtMetadataRequestName result;
            fresh = \<not> gm_has metadataMounted requestName;
            mounts = (if fresh then kubevirtMetadataMounts kubevirtMetadataBasePath claim requestName else [])
        in case vfioContainerEdits (env_dev env) d mounts of
             Inl err \<Rightarrow> Inl err
           | Inr edits \<Rightarrow>
               prepareLoop env s claim hostRsdPath rdsNodes rs
                 (if fresh then gm_put requestName True metadataMounted else metadataMounted) rdsInjected
                 (pds @ [preparedDevice (env_cdi env) s claim result True edits])
      else
        (case applyConfig (env_dev env) (allocatable s) (res_Device result) hostRsdPath of
           Inl err \<Rightarrow> Inl err
         | Inr edits \<Rightarrow>
             let edits' = (if rdsInjected then edits
                           else edits\<lparr>DeviceNodes := DeviceNodes edits @ rdsNodes\<rparr>)
             in prepareLoop env s claim hostRsdPath rdsNodes rs metadataMounted True
                  (pds @ [preparedDevice (env_cdi env) s claim result False edits'])))"

text \<open>A failed read of the RDS spec is logged and leaves the list nil.\<close>

definition rdsNodesOf :: "prep_env \<Rightarrow> DeviceState \<Rightarrow> DeviceNode list" where
  "rdsNodesOf env s = (case getRDSDeviceNodes (env_cdi env) (cdi s) of Inr nodes \<Rightarrow> nodes | Inl _ \<Rightarrow> [])"

definition prepareDevices ::
    "prep_env \<Rightarrow> DeviceState \<Rightarrow> ResourceClaim \<Rightarrow> specdir \<Rightarrow> specdir \<times> PreparedDevices result" where
  "prepareDevices env s claim specs =
     (case claim_Allocation claim of
        None \<Rightarrow> (specs, Inl (Errorf ''claim not yet allocated'' []))
      | Some allocation \<Rightarrow>
          (case validateResults (env_sysfs env) s allocation [] of
             Inl err \<Rightarrow> (specs, Inl err)
           | Inr results \<Rightarrow>
               (case nativeBusIDs s results [] of
                  Inl err \<Rightarrow> (specs, Inl err)
                | Inr ids \<Rightarrow>
                    let npuBusIDs = sort ids in
                    if npuBusIDs \<noteq> [] then
                      (case CreateCommonSpecFile (env_cdi env) (cdi s) specs of
                         (specs1, Some err) \<Rightarrow> (specs1, Inl (Wrapf ''create common CDI spec: %w'' [] err))
                       | (specs1, None) \<Rightarrow>
                           (case rsdGroupFn env npuBusIDs of
                              Inl err \<Rightarrow> (specs1, Inl (Wrapf ''create RSD group for %v: %w'' npuBusIDs err))
                            | Inr hostRsdPath \<Rightarrow>
                                if hostRsdPath = []
                                then (specs1, Inl (Errorf ''RSD group creation returned no device path for %v'' npuBusIDs))
                                else (specs1, prepareLoop env s claim hostRsdPath (rdsNodesOf env s) results gm_empty False [])))
                    else (specs, prepareLoop env s claim [] [] results gm_empty False []))))"

section \<open>Prepare and Unprepare\<close>

fun vfioAmong :: "DeviceState \<Rightarrow> DeviceRequestAllocationResult list \<Rightarrow> bool" where
  "vfioAmong s [] = False"
| "vfioAmong s (result # rs) =
     (if res_Driver result \<noteq> DriverName then vfioAmong s rs
      else (case gm_get (allocatable s) (res_Device result) of
              Some d \<Rightarrow> isVfioDevice d \<or> vfioAmong s rs
            | None \<Rightarrow> vfioAmong s rs))"

definition claimHasVfioDevice :: "DeviceState \<Rightarrow> ResourceClaim \<Rightarrow> bool" where
  "claimHasVfioDevice s claim =
     (case claim_Allocation claim of None \<Rightarrow> False | Some rs \<Rightarrow> vfioAmong s rs)"

definition rollbackKubeVirtMetadata :: "prep_env \<Rightarrow> string \<Rightarrow> world \<Rightarrow> world" where
  "rollbackKubeVirtMetadata env claimUID w =
     w\<lparr>w_fs := fst (removeKubeVirtMetadataForClaim (kv_fs (env_kv env)) kubevirtMetadataBasePath claimUID (w_fs w))\<rparr>"

text \<open>\<open>preparedClaims[claimUID]\<close> is nil for an absent claim and for one without devices.\<close>

definition recorded :: "PreparedClaims \<Rightarrow> string \<Rightarrow> PreparedDevices" where
  "recorded claims uid = (case gm_get claims uid of Some pds \<Rightarrow> pds | None \<Rightarrow> [])"

definition writeMetadata :: "prep_env \<Rightarrow> DeviceState \<Rightarrow> ResourceClaim \<Rightarrow> world \<Rightarrow> world \<times> goerr option" where
  "writeMetadata env s claim w =
     (if claimHasVfioDevice s claim then
        (case writeKubeVirtMetadata (env_kv env) kubevirtMetadataBasePath claim (allocatable s) (w_fs w) of
           (fs, err) \<Rightarrow> (w\<lparr>w_fs := fs\<rparr>, err))
      else (w, None))"

definition Prepare :: "prep_env \<Rightarrow> DeviceState \<Rightarrow> ResourceClaim \<Rightarrow> world \<Rightarrow> world \<times> DRADevice list result" where
  "Prepare env s claim w =
     (let claimUID = claim_UID claim in
      case GetCheckpoint_err env of
        Some err \<Rightarrow> (w, Inl (Wrapf ''unable to sync from checkpoint: %w'' [] err))
      | None \<Rightarrow>
          if recorded (w_claims w) claimUID \<noteq> [] then (w, Inr (GetDevices (recorded (w_claims w) claimUID)))
          else
            (case prepareDevices env s claim (w_specs w) of
               (specs1, Inl err) \<Rightarrow> (w\<lparr>w_specs := specs1\<rparr>, Inl (Wrapf ''prepare failed: %w'' [] err))
             | (specs1, Inr pds) \<Rightarrow>
                 (case writeMetadata env s claim (w\<lparr>w_specs := specs1\<rparr>) of
                    (w2, Some err) \<Rightarrow>
                      (rollbackKubeVirtMetadata env claimUID w2,
                       Inl (Wrapf ''unable to write KubeVirt device metadata: %w'' [] err))
                  | (w2, None) \<Rightarrow>
                      (case CreateClaimSpecFile (env_cdi env) (cdi s) claimUID pds (w_specs w2) of
                         (specs3, Some err) \<Rightarrow>
                           (rollbackKubeVirtMetadata env claimUID (w2\<lparr>w_specs := specs3\<rparr>),
                            Inl (Wrapf ''unable to create CDI spec file for claim: %w'' [] err))
                       | (specs3, None) \<Rightarrow>
                           let w3 = w2\<lparr>w_specs := specs3\<rparr> in
                           (case CreateCheckpoint_err env of
                              Some err \<Rightarrow>
                                (rollbackKubeVirtMetadata env claimUID w3,
                                 Inl (Wrapf ''unable to sync to checkpoint: %w'' [] err))
                            | None \<Rightarrow>
                                (w3\<lparr>w_claims := gm_put claimUID pds (w_claims w3)\<rparr>, Inr (GetDevices pds)))))))"

definition unprepareDevices :: "string \<Rightarrow> PreparedDevices \<Rightarrow> goerr option" where
  "unprepareDevices claimUID devices = None"

definition Unprepare :: "prep_env \<Rightarrow> DeviceState \<Rightarrow> string \<Rightarrow> world \<Rightarrow> world \<times> goerr option" where
  "Unprepare env s claimUID w =
     (case GetCheckpoint_err env of
        Some err \<Rightarrow> (w, Some (Wrapf ''unable to sync from checkpoint: %w'' [] err))
      | None \<Rightarrow>
          if recorded (w_claims w) claimUID = [] then (w, None)
          else
            (case unprepareDevices claimUID (recorded (w_claims w) claimUID) of
               Some err \<Rightarrow> (w, Some (Wrapf ''unprepare failed: %w'' [] err))
             | None \<Rightarrow>
                 (case DeleteClaimSpecFile (env_cdi env) (cdi s) claimUID (w_specs w) of
                    (specs1, Some err) \<Rightarrow>
                      (w\<lparr>w_specs := specs1\<rparr>, Some (Wrapf ''unable to delete CDI spec file for claim: %w'' [] err))
                  | (specs1, None) \<Rightarrow>
                      (case removeKubeVirtMetadataForClaim (kv_fs (env_kv env)) kubevirtMetadataBasePath claimUID (w_fs w) of
                         (fs1, Some err) \<Rightarrow>
                           (w\<lparr>w_specs := specs1, w_fs := fs1\<rparr>,
                            Some (Wrapf ''unable to remove KubeVirt device metadata: %w'' [] err))
                       | (fs1, None) \<Rightarrow>
                           let w1 = w\<lparr>w_specs := specs1, w_fs := fs1\<rparr> in
                           (case CreateCheckpoint_err env of
                              Some err \<Rightarrow> (w1, Some (Wrapf ''unable to sync to checkpoint: %w'' [] err))
                            | None \<Rightarrow> (w1\<lparr>w_claims := gm_del claimUID (w_claims w1)\<rparr>, None))))))"

end
