(* ===== verification/Prepare_Devices.thy ===== *)
theory Prepare_Devices
  imports Prepare
begin

text \<open>
  What \<open>prepareDevices\<close> returns: the three loops against reference definitions without
  accumulators and flags, and the shape of its result.
\<close>

section \<open>The loops\<close>

definition ours :: "DeviceRequestAllocationResult \<Rightarrow> bool" where
  "ours r \<longleftrightarrow> res_Driver r = DriverName"

definition driverResults :: "ResourceClaim \<Rightarrow> DeviceRequestAllocationResult list" where
  "driverResults claim = filter ours (claimResults claim)"

definition admitted :: "sysfs \<Rightarrow> DeviceState \<Rightarrow> DeviceRequestAllocationResult \<Rightarrow> bool" where
  "admitted sy s r \<longleftrightarrow>
     (\<exists>d. gm_get (allocatable s) (res_Device r) = Some d \<and> res_Pool r = nodeName s \<and> live sy (state_sysfsRoot s) d)"

lemma validateResults_Inr:
  "validateResults sy s rs acc = Inr results \<longleftrightarrow>
     results = acc @ filter ours rs \<and> (\<forall>r \<in> set rs. ours r \<longrightarrow> admitted sy s r)"
proof (induction rs arbitrary: acc)
  case (Cons r rs)
  show ?case
  proof (cases "ours r")
    case True
    show ?thesis
    proof (cases "gm_get (allocatable s) (res_Device r)")
      case (Some d)
      with True Cons.IH show ?thesis
        by (cases "validateAllocatedDevice sy (state_sysfsRoot s) d")
           (auto simp: ours_def admitted_def validate_None [symmetric])
    qed (use True in \<open>auto simp: ours_def admitted_def\<close>)
  qed (use Cons.IH in \<open>simp add: ours_def\<close>)
qed auto

definition native :: "DeviceState \<Rightarrow> DeviceRequestAllocationResult \<Rightarrow> bool" where
  "native s r \<longleftrightarrow> \<not> isVfioDevice (allocated s (res_Device r))"

definition busOf :: "DeviceState \<Rightarrow> DeviceRequestAllocationResult \<Rightarrow> string" where
  "busOf s r = deviceStringAttr (allocated s (res_Device r)) pciBusIDAttributeKey"

lemma nativeBusIDs_Inr:
  "nativeBusIDs s rs acc = Inr ids \<longleftrightarrow>
     ids = acc @ map (busOf s) (filter (native s) rs) \<and> (\<forall>r \<in> set rs. native s r \<longrightarrow> busOf s r \<noteq> [])"
proof (induction rs arbitrary: acc)
  case (Cons r rs)
  show ?case
  proof (cases "native s r")
    case True
    show ?thesis
    proof (cases "devicePCIBusID (allocated s (res_Device r))")
      case (Inl err)
      then have "busOf s r = []"
        using devicePCIBusID_Inr [of "allocated s (res_Device r)" "busOf s r"] by (auto simp: busOf_def)
      with Inl True show ?thesis by (auto simp: native_def Let_def)
    next
      case (Inr b)
      then have "busOf s r = b" "b \<noteq> []" by (simp_all add: devicePCIBusID_Inr busOf_def)
      with Inr True Cons.IH show ?thesis by (simp add: native_def Let_def)
    qed
  qed (use Cons.IH in \<open>simp add: native_def Let_def\<close>)
qed auto

text \<open>
  The edits of one result, given the results before it: a passthrough device carries the
  metadata mounts of its request unless an earlier one does, and the first native device carries
  the RDS nodes.
\<close>

definition editsFor ::
    "prep_env \<Rightarrow> DeviceState \<Rightarrow> ResourceClaim \<Rightarrow> string \<Rightarrow> DeviceNode list \<Rightarrow>
     DeviceRequestAllocationResult list \<Rightarrow> DeviceRequestAllocationResult \<Rightarrow> ContainerEdits result" where
  "editsFor env s claim rsd rds before r =
     (if native s r then
        (case applyConfig (env_dev env) (allocatable s) (res_Device r) rsd of
           Inl err \<Rightarrow> Inl err
         | Inr edits \<Rightarrow>
             Inr (if list_ex (native s) before then edits
                  else edits\<lparr>DeviceNodes := DeviceNodes edits @ rds\<rparr>))
      else
        vfioContainerEdits (env_dev env) (allocated s (res_Device r))
          (if list_ex (\<lambda>b. \<not> native s b \<and> kubevirtMetadataRequestName b = kubevirtMetadataRequestName r) before
           then [] else kubevirtMetadataMounts kubevirtMetadataBasePath claim (kubevirtMetadataRequestName r)))"

definition preparedFor ::
    "prep_env \<Rightarrow> DeviceState \<Rightarrow> ResourceClaim \<Rightarrow> string \<Rightarrow> DeviceNode list \<Rightarrow>
     DeviceRequestAllocationResult list \<Rightarrow> DeviceRequestAllocationResult \<Rightarrow> PreparedDevice result" where
  "preparedFor env s claim rsd rds before r =
     (case editsFor env s claim rsd rds before r of
        Inl err \<Rightarrow> Inl err
      | Inr edits \<Rightarrow> Inr (preparedDevice (env_cdi env) s claim r (\<not> native s r) edits))"

fun prepareAll ::
    "prep_env \<Rightarrow> DeviceState \<Rightarrow> ResourceClaim \<Rightarrow> string \<Rightarrow> DeviceNode list \<Rightarrow>
     DeviceRequestAllocationResult list \<Rightarrow> DeviceRequestAllocationResult list \<Rightarrow> PreparedDevices result" where
  "prepareAll env s claim rsd rds before [] = Inr []"
| "prepareAll env s claim rsd rds before (r # rs) =
     (case preparedFor env s claim rsd rds before r of
        Inl err \<Rightarrow> Inl err
      | Inr pd \<Rightarrow>
          (case prepareAll env s claim rsd rds (before @ [r]) rs of
             Inl err \<Rightarrow> Inl err
           | Inr pds \<Rightarrow> Inr (pd # pds)))"

lemma prepareLoop_prepareAll:
  assumes "\<And>n. gm_has mounted n \<longleftrightarrow> list_ex (\<lambda>b. \<not> native s b \<and> kubevirtMetadataRequestName b = n) before"
    and "injected \<longleftrightarrow> list_ex (native s) before"
  shows "prepareLoop env s claim rsd rds rs mounted injected pds =
    (case prepareAll env s claim rsd rds before rs of Inl err \<Rightarrow> Inl err | Inr new \<Rightarrow> Inr (pds @ new))"
  using assms
proof (induction rs arbitrary: mounted injected pds before)
  case (Cons r rs)
  show ?case
  proof (cases "native s r")
    case True
    then have nv: "\<not> isVfioDevice (allocated s (res_Device r))" by (simp add: native_def)
    show ?thesis
    proof (cases "applyConfig (env_dev env) (allocatable s) (res_Device r) rsd")
      case (Inr edits)
      have "prepareLoop env s claim rsd rds rs mounted True pds' =
        (case prepareAll env s claim rsd rds (before @ [r]) rs of Inl err \<Rightarrow> Inl err | Inr new \<Rightarrow> Inr (pds' @ new))" for pds'
        using Cons.prems True by (intro Cons.IH) auto
      with Inr True nv Cons.prems(2) show ?thesis
        by (simp add: Let_def preparedFor_def editsFor_def split: sum.split)
    qed (use True nv in \<open>simp add: Let_def preparedFor_def editsFor_def\<close>)
  next
    case False
    then have v: "isVfioDevice (allocated s (res_Device r))" by (simp add: native_def)
    let ?n = "kubevirtMetadataRequestName r"
    let ?ms = "if \<not> gm_has mounted ?n then kubevirtMetadataMounts kubevirtMetadataBasePath claim ?n else []"
    have e: "editsFor env s claim rsd rds before r = vfioContainerEdits (env_dev env) (allocated s (res_Device r)) ?ms"
      using False Cons.prems(1) by (simp add: editsFor_def)
    show ?thesis
    proof (cases "vfioContainerEdits (env_dev env) (allocated s (res_Device r)) ?ms")
      case (Inr edits)
      have "prepareLoop env s claim rsd rds rs (if \<not> gm_has mounted ?n then gm_put ?n True mounted else mounted) injected pds' =
        (case prepareAll env s claim rsd rds (before @ [r]) rs of Inl err \<Rightarrow> Inl err | Inr new \<Rightarrow> Inr (pds' @ new))" for pds'
        using Cons.prems False by (intro Cons.IH) auto
      with Inr e v False show ?thesis
        by (simp add: Let_def preparedFor_def split: sum.split)
    qed (use e v False in \<open>simp add: Let_def preparedFor_def\<close>)
  qed
qed simp

lemma prepareAll_Inr:
  "prepareAll env s claim rsd rds before rs = Inr pds \<longleftrightarrow>
     length pds = length rs \<and>
     (\<forall>i < length rs. preparedFor env s claim rsd rds (before @ take i rs) (rs ! i) = Inr (pds ! i))"
proof (induction rs arbitrary: before pds)
  case (Cons r rs)
  have split: "(\<forall>i < length (r # rs). P i) \<longleftrightarrow> P 0 \<and> (\<forall>i < length rs. P (Suc i))" for P
    by (auto simp: less_Suc_eq_0_disj)
  show ?case
  proof (cases pds)
    case Nil
    then show ?thesis by (auto split: sum.splits)
  next
    case (Cons p ps)
    then show ?thesis
      unfolding split using Cons.IH [of "before @ [r]" ps]
      by (auto split: sum.splits)
  qed
qed auto

section \<open>The shape of the result\<close>

definition identity :: "cdi_env \<Rightarrow> DeviceState \<Rightarrow> ResourceClaim \<Rightarrow> DeviceRequestAllocationResult \<Rightarrow> DRADevice" where
  "identity env s claim r =
     \<lparr>RequestNames = [res_Request r], PoolName = res_Pool r, DeviceName = res_Device r,
      CdiDeviceIds = GetClaimDevices env (cdi s) (claim_UID claim) [res_Device r] (native s r)\<rparr>"

lemma preparedFor_Inr:
  "preparedFor env s claim rsd rds before r = Inr pd \<longleftrightarrow>
     editsFor env s claim rsd rds before r = Inr (prep_Edits pd) \<and> prep_Device pd = identity (env_cdi env) s claim r"
  by (cases pd) (auto simp: preparedFor_def preparedDevice_def identity_def split: sum.splits)

lemma prepareAll_identities:
  "prepareAll env s claim rsd rds before rs = Inr pds \<Longrightarrow>
     map prep_Device pds = map (identity (env_cdi env) s claim) rs"
  by (auto simp: prepareAll_Inr preparedFor_Inr list_eq_iff_nth_eq)

lemma prepareDevices_Inr:
  assumes "prepareDevices env s claim specs = (specs', Inr pds)"
  shows "\<exists>rsd rds. claim_Allocation claim \<noteq> None \<and>
     (\<forall>r \<in> set (driverResults claim). admitted (env_sysfs env) s r) \<and>
     prepareAll env s claim rsd rds [] (driverResults claim) = Inr pds \<and>
     (if list_ex (native s) (driverResults claim)
      then rsd \<noteq> [] \<and> rds = rdsNodesOf env s \<and>
           rsdGroupFn env (sort (map (busOf s) (filter (native s) (driverResults claim)))) = Inr rsd \<and>
           CreateCommonSpecFile (env_cdi env) (cdi s) specs = (specs', None)
      else rsd = [] \<and> rds = [] \<and> specs' = specs)"
proof -
  obtain al where al: "claim_Allocation claim = Some al"
    using assms by (cases "claim_Allocation claim") (auto simp: prepareDevices_def)
  then have D: "driverResults claim = filter ours al" by (simp add: driverResults_def claimResults_def)
  obtain rs where v: "validateResults (env_sysfs env) s al [] = Inr rs"
    using assms al by (cases "validateResults (env_sysfs env) s al []") (auto simp: prepareDevices_def)
  then have rs: "rs = driverResults claim" "\<forall>r \<in> set rs. admitted (env_sysfs env) s r"
    by (auto simp: validateResults_Inr D)
  obtain ids where i: "nativeBusIDs s rs [] = Inr ids"
    using assms al v by (cases "nativeBusIDs s rs []") (auto simp: prepareDevices_def)
  then have ids: "ids = map (busOf s) (filter (native s) rs)" by (simp add: nativeBusIDs_Inr)
  have "sort ids \<noteq> [] \<longleftrightarrow> ids \<noteq> []" by (metis length_0_conv length_sort)
  then have ex: "sort ids \<noteq> [] \<longleftrightarrow> list_ex (native s) rs"
    by (auto simp: ids filter_empty_conv list_ex_iff)
  have L: "prepareLoop env s claim rsd rds rs gm_empty False [] = prepareAll env s claim rsd rds [] rs" for rsd rds
    using prepareLoop_prepareAll [of gm_empty s "[]" False env claim rsd rds rs "[]"]
    by (simp split: sum.splits)
  show ?thesis
  proof (cases "list_ex (native s) rs")
    case True
    then obtain rsd where "CreateCommonSpecFile (env_cdi env) (cdi s) specs = (specs', None)"
      "rsdGroupFn env (sort ids) = Inr rsd" "rsd \<noteq> []" "prepareAll env s claim rsd (rdsNodesOf env s) [] rs = Inr pds"
      using assms al v i ex by (auto simp: prepareDevices_def Let_def L split: prod.splits option.splits sum.splits if_splits)
    with True rs al ids show ?thesis by auto
  next
    case False
    then have "specs' = specs" "prepareAll env s claim [] [] [] rs = Inr pds"
      using assms al v i ex by (auto simp: prepareDevices_def Let_def L)
    with False rs al show ?thesis by auto
  qed
qed

lemma prepareDevices_specs:
  assumes "prepareDevices env s claim specs = (specs', r)" "\<not> commonSpecName (env_cdi env) (cdi s) n"
  shows "gm_get specs' n = gm_get specs n"
  using assms CreateCommonSpecFile_frame [of "env_cdi env" "cdi s" specs _ _ n]
  by (auto simp: prepareDevices_def Let_def split: option.splits sum.splits prod.splits if_splits)

end
