(* ===== verification/Kubevirt_Rollback.thy ===== *)
theory Kubevirt_Rollback
  imports Kubevirt_Writes
begin

text \<open>
  Writing metadata and taking it back. A failed write is of one of two kinds: it left no new file,
  or the claim's directory carries the claim's marker, and then a removal by UID takes the whole
  directory away. The exception is a marker file that was written only in part.
\<close>

text \<open>Every file of the later tree, but those in \<open>X\<close>, was there before with the same content.\<close>

definition new_files_in :: "path set \<Rightarrow> hostfs \<Rightarrow> hostfs \<Rightarrow> bool" where
  "new_files_in X fs fs' \<longleftrightarrow> (\<forall>k c. k \<notin> X \<longrightarrow> gm_get fs' k = Some (File c) \<longrightarrow> gm_get fs k = Some (File c))"

abbreviation no_new_files :: "hostfs \<Rightarrow> hostfs \<Rightarrow> bool" where
  "no_new_files \<equiv> new_files_in {}"

lemma new_files_in_mono: "new_files_in X fs fs' \<Longrightarrow> X \<subseteq> Y \<Longrightarrow> new_files_in Y fs fs'"
  by (auto simp: new_files_in_def)

lemma new_files_in_trans: "new_files_in X a b \<Longrightarrow> no_new_files b c \<Longrightarrow> new_files_in X a c"
  by (simp add: new_files_in_def)

lemma no_new_files_refl [simp]: "no_new_files fs fs"
  by (simp add: new_files_in_def)

lemma no_new_files_trans: "no_new_files a b \<Longrightarrow> no_new_files b c \<Longrightarrow> no_new_files a c"
  by (simp add: new_files_in_def)

lemma no_new_files_remove:
  "(\<And>k. gm_get fs' k = gm_get fs k \<or> gm_get fs' k = None) \<Longrightarrow> no_new_files fs fs'"
  unfolding new_files_in_def by (metis option.distinct(1))

lemma mkdirs_no_files: "mkdirs made ws fs = (fs', e) \<Longrightarrow> no_new_files fs fs'"
proof (induction made ws fs rule: mkdirs.induct)
  case (2 made w ws fs)
  show ?case
  proof (cases "gm_get fs (made @ [w])")
    case None
    then have "no_new_files (gm_put (made @ [w]) Dir fs) fs'"
      using "2.IH"(1) [OF refl None] "2.prems" by (simp add: Let_def)
    moreover have "no_new_files fs (gm_put (made @ [w]) Dir fs)" by (auto simp: new_files_in_def)
    ultimately show ?thesis using no_new_files_trans by blast
  next
    case (Some v)
    with "2.IH"(2) [OF refl Some] "2.prems" show ?thesis by (cases v) (auto simp: Let_def)
  qed
qed simp

lemma MkdirAll_no_files: "fs_MkdirAll env p fs = (fs', e) \<Longrightarrow> no_new_files fs fs'"
  using mkdirs_no_files [of "[]" "take (mkdir_done env p) (segs p)" fs "fst (mkdirs [] (take (mkdir_done env p) (segs p)) fs)"]
  by (auto simp: fs_MkdirAll_def mkdirs_no_files prod_eq_iff split: option.splits)

text \<open>The write of the owner marker happens completely or not at all.\<close>

definition whole_marker :: "fs_env \<Rightarrow> path \<Rightarrow> string \<Rightarrow> bool" where
  "whole_marker env bs uid \<longleftrightarrow>
     (\<forall>err n. write_fault env (abs_path (hostSegs bs uid @ [kubevirtMetadataOwnerFile])) \<noteq> Some (err, Some n))"

text \<open>The marker, if its write can stop halfway.\<close>

definition torn_file :: "fs_env \<Rightarrow> path \<Rightarrow> string \<Rightarrow> path set" where
  "torn_file env bs uid = (if whole_marker env bs uid then {} else {hostSegs bs uid @ [kubevirtMetadataOwnerFile]})"

lemma ownership_failed:
  assumes "list_all plain_name bs" "bs \<noteq> []" "uid_ok uid"
    and "claimMetadataOwnership env (abs_path (hostSegs bs uid)) uid fs = (fs', Some e)"
  shows "new_files_in (torn_file env bs uid) fs fs'"
proof -
  let ?q = "hostSegs bs uid"
  have q: "list_all plain_name ?q" "?q \<noteq> []" using assms by (simp_all add: hostSegs_plain)
  have J: "filepath_Join [abs_path ?q, kubevirtMetadataOwnerFile] = abs_path (?q @ [kubevirtMetadataOwnerFile])"
    using q by (simp add: Join_child)
  have pl: "list_all plain_name (?q @ [kubevirtMetadataOwnerFile])" using q by simp
  have w: "new_files_in (torn_file env bs uid) fs1 fs2"
    if "fs_WriteFile env (abs_path (?q @ [kubevirtMetadataOwnerFile])) d fs1 = (fs2, Some x)" for d fs1 fs2 x
    using that segs_abs_path [OF pl]
    by (auto simp: fs_WriteFile_def whole_marker_def torn_file_def new_files_in_def Let_def
        split: option.splits prod.splits if_splits)
  have m: "new_files_in (torn_file env bs uid) fs fs1" if "fs_MkdirAll env (abs_path ?q) fs = (fs1, y)" for fs1 y
    using MkdirAll_no_files [OF that] by (simp add: new_files_in_def)
  have mw: "new_files_in (torn_file env bs uid) fs fs2"
    if "fs_MkdirAll env (abs_path ?q) fs = (fs1, y)"
      "fs_WriteFile env (abs_path (?q @ [kubevirtMetadataOwnerFile])) d fs1 = (fs2, Some x)" for fs1 fs2 y d x
    using m [OF that(1)] w [OF that(2)] by (simp add: new_files_in_def)
  have r: "new_files_in (torn_file env bs uid) fs fs" by (simp add: new_files_in_def)
  show ?thesis
    using assms(4) r unfolding claimMetadataOwnership_def J Let_def
    by (auto split: sum.splits prod.splits option.splits dest: m mw)
qed

lemma write_failed_or_marked:
  assumes "list_all plain_name bs" "bs \<noteq> []" "uid_ok (claim_UID claim)"
    and "\<forall>res \<in> set (claimResults claim). request_ok (kubevirtMetadataRequestName res)"
    and "writeKubeVirtMetadata env (abs_path bs) claim allocatable fs = (fs', e)"
  shows "new_files_in (torn_file (kv_fs env) bs (claim_UID claim)) fs fs' \<or> markerOf fs' (hostSegs bs (claim_UID claim)) = Some (claim_UID claim)"
proof -
  let ?q = "hostSegs bs (claim_UID claim)"
  let ?m = "devicesByRequest allocatable (claimResults claim) gm_empty"
  have q: "list_all plain_name ?q" "?q \<noteq> []" using assms by (simp_all add: hostSegs_plain)
  have names: "plain_name r \<and> r \<noteq> kubevirtMetadataOwnerFile" if "gm_get ?m r \<noteq> None" for r
    using that assms(4) by (fastforce simp: devicesByRequest_get requestDevices_def request_ok_def split: if_splits)
  obtain fs1 e1 where o: "claimMetadataOwnership (kv_fs env) (abs_path ?q) (claim_UID claim) fs = (fs1, e1)"
    by fastforce
  show ?thesis
  proof (cases e1)
    case None
    then have w: "writeRequests env (abs_path ?q) (podClaimName claim) ?m (order env (gm_keys ?m)) fs1 = (fs', e)"
      using assms(5) o by (simp add: writeKubeVirtMetadata_def hostDir_abs [OF assms(1-3)] Let_def)
    obtain c where c: "gm_get fs1 (?q @ [kubevirtMetadataOwnerFile]) = Some (File c)" "TrimSpace c = claim_UID claim"
      using ownership_marker [OF q assms(3) o [unfolded None]]
      by (auto simp: markerOf_def split: option.splits node.splits)
    have "\<not> under (?q @ [r]) (?q @ [kubevirtMetadataOwnerFile])" if "gm_get ?m r \<noteq> None" for r
      using names [OF that] by (auto simp: under_def)
    from writeRequests_keep [OF q _ w c(1) this] names show ?thesis
      using c(2) by (auto simp: markerOf_def)
  next
    case (Some err)
    then have "fs' = fs1" using assms(5) o
      by (simp add: writeKubeVirtMetadata_def hostDir_abs [OF assms(1-3)] Let_def)
    with ownership_failed [OF assms(1-3) o [unfolded Some]] show ?thesis by simp
  qed
qed

section \<open>Removal\<close>

text \<open>The calls of a removal succeed.\<close>

definition removal_works :: "fs_env \<Rightarrow> bool" where
  "removal_works env \<longleftrightarrow>
     (\<forall>p. fs_fault env ReadFileCall p = None \<and> fs_fault env ReadDirCall p = None \<and> fs_fault env RemoveAllCall p = None)"

lemma removeEntries_None:
  assumes "removal_works env"
  shows "snd (removeEntries env p uid es fs) = None"
  using assms
proof (induction env p uid es fs rule: removeEntries.induct)
  case (2 env parent uid name dir es fs)
  then show ?case
    by (auto simp: Let_def fs_RemoveAll_def removal_works_def split: sum.splits)
qed simp

lemma remove_marked:
  assumes "list_all plain_name bs" "bs \<noteq> []" "list_all plain_name subs" "fs_ok fs" "removal_works env"
    and "markerOf fs (hostSegs bs uid) = Some uid"
    and "removeSubdirs env (abs_path bs) uid (resourceClaimsSubdir # subs) fs = (fs', e)"
    and "under (hostSegs bs uid) k"
  shows "gm_get fs' k = None"
proof -
  let ?p = "bs @ [resourceClaimsSubdir]" and ?n = "''.uid-'' @ uid"
  have q: "hostSegs bs uid = ?p @ [?n]" by (simp add: hostSegs_def)
  have pl: "list_all plain_name ?p" using assms(1) by simp
  have J: "filepath_Join [abs_path bs, resourceClaimsSubdir] = abs_path ?p"
    using assms(1,2) by (simp add: Join_child)
  have ent: "(?n, True) \<in> set (children fs ?p)" "isdir fs ?p"
    using marker_entry [OF assms(4)] assms(6) q by auto
  have rd: "fs_ReadDir env (abs_path ?p) fs = Inr (children fs ?p)"
    using ent(2) pl assms(5) by (simp add: fs_ReadDir_def removal_works_def)
  obtain fs1 where r: "removeEntries env (abs_path ?p) uid (children fs ?p) fs = (fs1, None)"
    using removeEntries_None [OF assms(5)] by (metis prod.collapse)
  have rest: "removeSubdirs env (abs_path bs) uid subs fs1 = (fs', e)"
    using assms(7) rd r by (simp add: J)
  have "gm_get fs1 k = None"
    using removeEntries_complete [OF pl _ _ _ r ent(1), of k] children_plain [OF assms(4)] assms(5,6,8) q
    by (simp add: removal_works_def)
  moreover have "fs_ok fs1" using removeEntries_ok [OF assms(4) r] .
  ultimately show ?thesis
    using removeSubdirs_safe [OF assms(1-3) _ rest, of k] by auto
qed

lemma remove_no_files:
  assumes "list_all plain_name bs" "bs \<noteq> []" "list_all plain_name subs" "fs_ok fs"
    and "removeSubdirs env (abs_path bs) uid subs fs = (fs', e)"
  shows "no_new_files fs fs'"
proof (rule no_new_files_remove)
  show "gm_get fs' k = gm_get fs k \<or> gm_get fs' k = None" for k
    using removeSubdirs_safe [OF assms, of k] by (rule disj_forward) simp_all
qed

text \<open>Writing, however it ends, and then removing leaves no new file but a marker that was torn.\<close>

lemma write_then_remove:
  assumes "list_all plain_name bs" "bs \<noteq> []" "uid_ok (claim_UID claim)"
    and "\<forall>res \<in> set (claimResults claim). request_ok (kubevirtMetadataRequestName res)"
    and "fs_ok fs" "removal_works fenv"
    and w: "writeKubeVirtMetadata env (abs_path bs) claim allocatable fs = (fs1, e1)"
    and r: "removeKubeVirtMetadataForClaim fenv (abs_path bs) (claim_UID claim) fs1 = (fs2, e2)"
  shows "new_files_in (torn_file (kv_fs env) bs (claim_UID claim)) fs fs2"
proof -
  have pn: "\<forall>res \<in> set (claimResults claim). plain_name (kubevirtMetadataRequestName res)"
    using assms(4) by (simp add: request_ok_def)
  have st: "changes_below (hostSegs bs (claim_UID claim)) fs fs1" "fs_ok fs1"
    using write_steps [OF assms(1-3) pn w] assms(5) by auto
  have r': "removeSubdirs fenv (abs_path bs) (claim_UID claim) [resourceClaimsSubdir, resourceClaimTemplateSubdir] fs1 = (fs2, e2)"
    using r by (simp add: removeKubeVirtMetadataForClaim_def)
  have rem: "no_new_files fs1 fs2"
    using remove_no_files [OF assms(1,2) _ st(2) r'] by simp
  from write_failed_or_marked [OF assms(1-4) w] show ?thesis
  proof
    assume "new_files_in (torn_file (kv_fs env) bs (claim_UID claim)) fs fs1"
    with rem show ?thesis by (rule new_files_in_trans [rotated])
  next
    assume m: "markerOf fs1 (hostSegs bs (claim_UID claim)) = Some (claim_UID claim)"
    have gone: "under (hostSegs bs (claim_UID claim)) k \<Longrightarrow> gm_get fs2 k = None" for k
      using remove_marked [OF assms(1,2) _ st(2) assms(6) m r'] by simp
    show ?thesis unfolding new_files_in_def
    proof (intro allI impI)
      fix k c
      assume c: "gm_get fs2 k = Some (File c)"
      then have "gm_get fs1 k = Some (File c)" using rem by (simp add: new_files_in_def)
      moreover have "\<not> under (hostSegs bs (claim_UID claim)) k" using gone c by fastforce
      ultimately show "gm_get fs k = Some (File c)"
        using st(1) unfolding changes_below_def by (metis node.distinct(1) option.inject)
    qed
  qed
qed

end
