(* ===== verification/Claim_Lifecycle.thy ===== *)
theory Claim_Lifecycle
  imports Prepare_Devices Kubevirt_Rollback
begin

text \<open>
  \<open>Prepare\<close> and \<open>Unprepare\<close> as operations on the three stores of \<open>world\<close>: what a success records,
  what a failure leaves behind, what neither touches.
\<close>

section \<open>The metadata tree\<close>

definition metaBase :: path where
  "metaBase = [''var'', ''run'', ''kubernetes.io'', ''dra-device-attributes'']"

lemma metaBase_abs: "kubevirtMetadataBasePath = abs_path metaBase"
  by (simp add: kubevirtMetadataBasePath_def metaBase_def abs_path_def)

lemma metaBase_plain [simp]: "list_all plain_name metaBase" "metaBase \<noteq> []"
  by (simp_all add: metaBase_def plain_name_def)

abbreviation claimDirOf :: "string \<Rightarrow> path" where
  "claimDirOf uid \<equiv> hostSegs metaBase uid"

text \<open>
  What the API server validates in a claim: a UID without white space or slashes, request names
  that are DNS labels.
\<close>

definition claim_ok :: "ResourceClaim \<Rightarrow> bool" where
  "claim_ok claim \<longleftrightarrow> uid_ok (claim_UID claim) \<and>
     list_all (\<lambda>res. request_ok (kubevirtMetadataRequestName res)) (claimResults claim)"

lemma claim_okD:
  "claim_ok claim \<Longrightarrow> uid_ok (claim_UID claim)"
  "claim_ok claim \<Longrightarrow> \<forall>res \<in> set (claimResults claim). request_ok (kubevirtMetadataRequestName res)"
  "claim_ok claim \<Longrightarrow> \<forall>res \<in> set (claimResults claim). plain_name (kubevirtMetadataRequestName res)"
  by (auto simp: claim_ok_def list_all_iff request_ok_def)

section \<open>Paths through Prepare\<close>

lemma writeMetadata_frame:
  "writeMetadata env s claim w = (w2, e) \<Longrightarrow> w_claims w2 = w_claims w \<and> w_specs w2 = w_specs w"
  by (auto simp: writeMetadata_def split: if_splits prod.splits)

lemma rollback_frame [simp]:
  "w_claims (rollbackKubeVirtMetadata env uid w) = w_claims w"
  "w_specs (rollbackKubeVirtMetadata env uid w) = w_specs w"
  by (simp_all add: rollbackKubeVirtMetadata_def)

lemma Prepare_replay:
  "GetCheckpoint_err env = None \<Longrightarrow> recorded (w_claims w) (claim_UID claim) \<noteq> [] \<Longrightarrow>
     Prepare env s claim w = (w, Inr (GetDevices (recorded (w_claims w) (claim_UID claim))))"
  by (simp add: Prepare_def)

lemma Prepare_early:
  "GetCheckpoint_err env \<noteq> None \<or> recorded (w_claims w) (claim_UID claim) \<noteq> [] \<Longrightarrow> fst (Prepare env s claim w) = w"
  by (cases "GetCheckpoint_err env") (auto simp: Prepare_def)

lemma Prepare_fresh:
  assumes "Prepare env s claim w = (w', Inr ds)" "recorded (w_claims w) (claim_UID claim) = []"
  shows "\<exists>specs1 pds w2 specs3.
     prepareDevices env s claim (w_specs w) = (specs1, Inr pds) \<and>
     writeMetadata env s claim (w\<lparr>w_specs := specs1\<rparr>) = (w2, None) \<and>
     CreateClaimSpecFile (env_cdi env) (cdi s) (claim_UID claim) pds specs1 = (specs3, None) \<and>
     w' = w2\<lparr>w_specs := specs3, w_claims := gm_put (claim_UID claim) pds (w_claims w)\<rparr> \<and>
     ds = GetDevices pds"
proof -
  obtain specs1 pds where p: "prepareDevices env s claim (w_specs w) = (specs1, Inr pds)"
    using assms by (auto simp: Prepare_def Let_def split: option.splits prod.splits sum.splits)
  obtain w2 where w2: "writeMetadata env s claim (w\<lparr>w_specs := specs1\<rparr>) = (w2, None)"
    using assms p by (auto simp: Prepare_def Let_def split: option.splits prod.splits)
  have f: "w_claims w2 = w_claims w" "w_specs w2 = specs1" using writeMetadata_frame [OF w2] by auto
  obtain specs3 where c: "CreateClaimSpecFile (env_cdi env) (cdi s) (claim_UID claim) pds specs1 = (specs3, None)"
    using assms p w2 f by (auto simp: Prepare_def Let_def split: option.splits prod.splits)
  have "CreateCheckpoint_err env = None" "GetCheckpoint_err env = None"
    using assms p w2 f c by (auto simp: Prepare_def Let_def split: option.splits)
  with assms p w2 f c show ?thesis by (auto simp: Prepare_def)
qed

lemma Prepare_fresh_world:
  assumes "Prepare env s claim w = (w', Inr ds)" "recorded (w_claims w) (claim_UID claim) = []"
  obtains pds specs1 w2 where "w_claims w' = gm_put (claim_UID claim) pds (w_claims w)" "ds = GetDevices pds"
    "writeMetadata env s claim (w\<lparr>w_specs := specs1\<rparr>) = (w2, None)" "w_fs w' = w_fs w2"
proof -
  obtain specs1 pds w2 specs3 where "writeMetadata env s claim (w\<lparr>w_specs := specs1\<rparr>) = (w2, None)"
    "w' = w2\<lparr>w_specs := specs3, w_claims := gm_put (claim_UID claim) pds (w_claims w)\<rparr>" "ds = GetDevices pds"
    using Prepare_fresh [OF assms] by blast
  then show thesis using that [of pds specs1 w2] by simp
qed

text \<open>The ways to fail, and the world each leaves.\<close>

text \<open>What a claim is newly given: the devices of its allocation, all of them admitted.\<close>

lemma Prepare_gives:
  assumes "Prepare env s claim w = (w', Inr ds)" "recorded (w_claims w) (claim_UID claim) = []"
  shows "w_claims w' = gm_put (claim_UID claim) (recorded (w_claims w') (claim_UID claim)) (w_claims w)"
    and "GetDevices (recorded (w_claims w') (claim_UID claim)) = map (identity (env_cdi env) s claim) (driverResults claim)"
    and "\<forall>r \<in> set (driverResults claim). admitted (env_sysfs env) s r"
proof -
  obtain specs1 pds where p: "prepareDevices env s claim (w_specs w) = (specs1, Inr pds)"
    "w_claims w' = gm_put (claim_UID claim) pds (w_claims w)"
    using Prepare_fresh [OF assms] by fastforce
  then have r: "recorded (w_claims w') (claim_UID claim) = pds" by (simp add: recorded_def)
  from prepareDevices_Inr [OF p(1)] obtain rsd rds where
    "prepareAll env s claim rsd rds [] (driverResults claim) = Inr pds"
    and adm: "\<forall>r \<in> set (driverResults claim). admitted (env_sysfs env) s r" by blast
  then show "GetDevices (recorded (w_claims w') (claim_UID claim)) =
      map (identity (env_cdi env) s claim) (driverResults claim)"
    using prepareAll_identities r by (simp add: GetDevices_map)
  show "w_claims w' = gm_put (claim_UID claim) (recorded (w_claims w') (claim_UID claim)) (w_claims w)"
    using p(2) r by simp
  show "\<forall>r \<in> set (driverResults claim). admitted (env_sysfs env) s r" by (rule adm)
qed

lemma Prepare_failed:
  assumes "Prepare env s claim w = (w', Inl err)"
  shows "w' = w \<or> (\<exists>specs1 e. prepareDevices env s claim (w_specs w) = (specs1, Inl e) \<and> w' = w\<lparr>w_specs := specs1\<rparr>) \<or>
    (\<exists>specs1 pds w2 e specs3. prepareDevices env s claim (w_specs w) = (specs1, Inr pds) \<and>
       writeMetadata env s claim (w\<lparr>w_specs := specs1\<rparr>) = (w2, e) \<and>
       w' = rollbackKubeVirtMetadata env (claim_UID claim) (w2\<lparr>w_specs := specs3\<rparr>) \<and>
       (\<forall>n. n \<noteq> claimSpecName (env_cdi env) (cdi s) (claim_UID claim) \<longrightarrow> gm_get specs3 n = gm_get specs1 n) \<and>
       (gm_ok specs1 \<longrightarrow> gm_ok specs3))"
proof (cases "GetCheckpoint_err env \<noteq> None \<or> recorded (w_claims w) (claim_UID claim) \<noteq> []")
  case True
  from Prepare_early [OF this, of s] assms have "w' = w" by simp
  then show ?thesis by blast
next
  case False
  obtain specs1 r where p: "prepareDevices env s claim (w_specs w) = (specs1, r)" by fastforce
  show ?thesis
  proof (cases r)
    case (Inl e)
    with p assms False show ?thesis by (auto simp: Prepare_def)
  next
    case (Inr pds)
    obtain w2 e where w2: "writeMetadata env s claim (w\<lparr>w_specs := specs1\<rparr>) = (w2, e)" by fastforce
    have f: "w_specs w2 = specs1" "w2 = w2\<lparr>w_specs := specs1\<rparr>" using writeMetadata_frame [OF w2] by auto
    show ?thesis
    proof (cases e)
      case (Some x)
      then have "w' = rollbackKubeVirtMetadata env (claim_UID claim) (w2\<lparr>w_specs := specs1\<rparr>)"
        using assms False p Inr w2 f(2) by (auto simp: Prepare_def)
      with p Inr w2 show ?thesis by blast
    next
      case None
      obtain specs3 e3 where c: "CreateClaimSpecFile (env_cdi env) (cdi s) (claim_UID claim) pds specs1 = (specs3, e3)"
        by fastforce
      have "w' = rollbackKubeVirtMetadata env (claim_UID claim) (w2\<lparr>w_specs := specs3\<rparr>)"
        using assms False p Inr w2 None c f(1)
        by (cases e3) (auto simp: Prepare_def Let_def split: option.splits)
      moreover have "\<forall>n. n \<noteq> claimSpecName (env_cdi env) (cdi s) (claim_UID claim) \<longrightarrow> gm_get specs3 n = gm_get specs1 n"
        using CreateClaimSpecFile_err [of "env_cdi env" "cdi s" "claim_UID claim" pds specs1 specs3]
          CreateClaimSpecFile_ok [of "env_cdi env" "cdi s" "claim_UID claim" pds specs1 specs3] c
        by (cases e3) auto
      moreover have "gm_ok specs1 \<longrightarrow> gm_ok specs3" using CreateClaimSpecFile_gm_ok [OF c] by blast
      ultimately show ?thesis using p Inr w2 by blast
    qed
  qed
qed

section \<open>Failures\<close>

lemma Prepare_failed_claims:
  assumes "Prepare env s claim w = (w', Inl err)"
  shows "w_claims w' = w_claims w"
  using Prepare_failed [OF assms] writeMetadata_frame by fastforce

lemma Prepare_failed_files:
  assumes "Prepare env s claim w = (w', Inl err)" "claim_ok claim" "fs_ok (w_fs w)"
    and "removal_works (kv_fs (env_kv env))"
  shows "new_files_in (torn_file (kv_fs (env_kv env)) metaBase (claim_UID claim)) (w_fs w) (w_fs w')"
    (is "new_files_in ?X _ _")
proof -
  have roll: "new_files_in ?X (w_fs w) (w_fs (rollbackKubeVirtMetadata env (claim_UID claim) (w2\<lparr>w_specs := specs3\<rparr>)))"
    if w2: "writeMetadata env s claim (w\<lparr>w_specs := specs1\<rparr>) = (w2, e)" for specs1 w2 e specs3
  proof (cases "claimHasVfioDevice s claim")
    case True
    then have wk: "writeKubeVirtMetadata (env_kv env) (abs_path metaBase) claim (allocatable s) (w_fs w) = (w_fs w2, e)"
      using w2 by (auto simp: writeMetadata_def metaBase_abs split: prod.splits)
    obtain fs2 e2 where r: "removeKubeVirtMetadataForClaim (kv_fs (env_kv env)) (abs_path metaBase) (claim_UID claim) (w_fs w2) = (fs2, e2)"
      by fastforce
    show ?thesis
      using write_then_remove [OF metaBase_plain claim_okD(1,2) [OF assms(2)] assms(3,4) wk r] r
      by (simp add: rollbackKubeVirtMetadata_def metaBase_abs)
  next
    case False
    then have f: "w_fs w2 = w_fs w" using w2 by (auto simp: writeMetadata_def)
    obtain fs2 e2 where r: "removeSubdirs (kv_fs (env_kv env)) (abs_path metaBase) (claim_UID claim)
        [resourceClaimsSubdir, resourceClaimTemplateSubdir] (w_fs w) = (fs2, e2)"
      by fastforce
    have "new_files_in ?X (w_fs w) fs2"
      using new_files_in_mono [OF remove_no_files [OF metaBase_plain _ assms(3) r]] by simp
    with r f show ?thesis
      by (simp add: rollbackKubeVirtMetadata_def metaBase_abs removeKubeVirtMetadataForClaim_def)
  qed
  show ?thesis using Prepare_failed [OF assms(1)] roll by (auto simp: new_files_in_def)
qed

section \<open>Unprepare\<close>

lemma Unprepare_unrecorded:
  "GetCheckpoint_err env = None \<Longrightarrow> recorded (w_claims w) uid = [] \<Longrightarrow> Unprepare env s uid w = (w, None)"
  by (simp add: Unprepare_def)

lemma Unprepare_ok:
  assumes "Unprepare env s uid w = (w', None)" "recorded (w_claims w) uid \<noteq> []"
  shows "\<exists>fs1. removeKubeVirtMetadataForClaim (kv_fs (env_kv env)) kubevirtMetadataBasePath uid (w_fs w) = (fs1, None) \<and>
     w' = \<lparr>w_claims = gm_del uid (w_claims w), w_specs = gm_del (claimSpecName (env_cdi env) (cdi s) uid) (w_specs w),
           w_fs = fs1\<rparr>"
proof -
  obtain specs1 where d: "DeleteClaimSpecFile (env_cdi env) (cdi s) uid (w_specs w) = (specs1, None)"
    using assms by (auto simp: Unprepare_def unprepareDevices_def split: option.splits prod.splits)
  obtain fs1 where r: "removeKubeVirtMetadataForClaim (kv_fs (env_kv env)) kubevirtMetadataBasePath uid (w_fs w) = (fs1, None)"
    using assms d by (auto simp: Unprepare_def unprepareDevices_def Let_def split: option.splits prod.splits)
  have "CreateCheckpoint_err env = None" "GetCheckpoint_err env = None"
    using assms d r by (auto simp: Unprepare_def unprepareDevices_def Let_def split: option.splits)
  with assms d r DeleteClaimSpecFile_ok [OF d] show ?thesis
    by (auto simp: Unprepare_def unprepareDevices_def)
qed

lemma Unprepare_failed_claims:
  assumes "Unprepare env s uid w = (w', Some err)"
  shows "w_claims w' = w_claims w"
  using assms by (auto simp: Unprepare_def unprepareDevices_def Let_def split: option.splits prod.splits if_splits)

lemma Unprepare_claims:
  assumes "Unprepare env s uid w = (w', e)"
  shows "w_claims w' = w_claims w \<or> w_claims w' = gm_del uid (w_claims w)"
proof (cases e)
  case None
  show ?thesis
  proof (cases "recorded (w_claims w) uid = []")
    case True
    with assms None show ?thesis by (auto simp: Unprepare_def split: option.splits)
  next
    case False
    from Unprepare_ok [OF assms [unfolded None] False] show ?thesis by auto
  qed
next
  case (Some err)
  then show ?thesis using Unprepare_failed_claims assms by blast
qed

section \<open>Other claims\<close>

lemma Prepare_other_claims:
  assumes "Prepare env s claim w = (w', r)" "uid \<noteq> claim_UID claim"
  shows "gm_get (w_claims w') uid = gm_get (w_claims w) uid"
proof (cases r)
  case (Inl err)
  then show ?thesis using Prepare_failed_claims assms by simp
next
  case (Inr ds)
  show ?thesis
  proof (cases "recorded (w_claims w) (claim_UID claim) = []")
    case True
    from Prepare_fresh [OF assms(1) [unfolded Inr] True] assms(2) show ?thesis by auto
  next
    case False
    then show ?thesis using assms(1) Prepare_early [of env w claim s] by simp
  qed
qed

lemma Unprepare_other_claims:
  assumes "Unprepare env s uid' w = (w', e)" "uid \<noteq> uid'"
  shows "gm_get (w_claims w') uid = gm_get (w_claims w) uid"
  using Unprepare_claims [OF assms(1)] assms(2) by auto

end
