(* ===== verification/Claim_World.thy ===== *)
theory Claim_World
  imports Claim_Lifecycle
begin

text \<open>
  The invariant of the node's claim state and its consequences: every owner marker stands in the
  directory named after the claim it names, so claims do not reach into each other's metadata. The
  invariant is relative to a set \<open>T\<close> of claims a write of whose marker may have been torn; what
  their markers say is not known.
\<close>

abbreviation metaSubdirs :: "string list" where
  "metaSubdirs \<equiv> [resourceClaimsSubdir, resourceClaimTemplateSubdir]"

definition markers_ok :: "string set \<Rightarrow> hostfs \<Rightarrow> bool" where
  "markers_ok T fs \<longleftrightarrow>
     (\<forall>sub \<in> set metaSubdirs. \<forall>n u. markerOf fs (metaBase @ [sub, n]) = Some u \<longrightarrow>
        metaBase @ [sub, n] = claimDirOf u \<or> (\<exists>v \<in> T. metaBase @ [sub, n] = claimDirOf v))"

definition stores_ok :: "string set \<Rightarrow> world \<Rightarrow> bool" where
  "stores_ok T w \<longleftrightarrow> fs_ok (w_fs w) \<and> markers_ok T (w_fs w) \<and> gm_ok (w_claims w) \<and> gm_ok (w_specs w)"

abbreviation world_ok :: "world \<Rightarrow> bool" where
  "world_ok \<equiv> stores_ok {}"

text \<open>Outside the directories of a claim and of those whose marker may be torn.\<close>

definition beyond :: "string set \<Rightarrow> string \<Rightarrow> path \<Rightarrow> bool" where
  "beyond T uid k \<longleftrightarrow> (\<forall>v \<in> insert uid T. \<not> under (claimDirOf v) k)"

lemma beyond_none [simp]: "beyond {} uid k \<longleftrightarrow> \<not> under (claimDirOf uid) k"
  by (simp add: beyond_def)

lemma stores_ok_mono: "stores_ok T w \<Longrightarrow> T \<subseteq> T' \<Longrightarrow> stores_ok T' w"
  unfolding stores_ok_def markers_ok_def by blast

lemma markers_okD: "markers_ok T fs \<Longrightarrow> owned fs metaBase metaSubdirs uid k \<Longrightarrow> \<not> beyond T uid k"
  unfolding owned_def markers_ok_def beyond_def by (metis insertI1 insertI2)

lemma markers_okI:
  assumes "markers_ok T fs" "\<And>q u. markerOf fs' q = Some u \<Longrightarrow> markerOf fs q = Some u \<or> q = claimDirOf u"
  shows "markers_ok T fs'"
  using assms unfolding markers_ok_def by blast

lemma no_new_files_marker: "no_new_files fs fs' \<Longrightarrow> markerOf fs' q = Some u \<Longrightarrow> markerOf fs q = Some u"
  by (auto simp: new_files_in_def markerOf_def split: option.splits node.splits)

section \<open>Writing\<close>

lemma changed_marker:
  assumes "changes_below (claimDirOf uid) fs fs'" "sub \<in> set metaSubdirs"
    and "markerOf fs' (metaBase @ [sub, n]) = Some u" "markerOf fs (metaBase @ [sub, n]) \<noteq> Some u"
  shows "metaBase @ [sub, n] = claimDirOf uid"
proof -
  let ?k = "metaBase @ [sub, n] @ [kubevirtMetadataOwnerFile]"
  obtain c where c: "gm_get fs' ?k = Some (File c)" "TrimSpace c = u"
    using assms(3) by (auto simp: markerOf_def split: option.splits node.splits)
  then have "gm_get fs ?k \<noteq> gm_get fs' ?k" using assms(4) by (auto simp: markerOf_def)
  then have "under (claimDirOf uid) ?k"
    using assms(1) c(1) unfolding changes_below_def by (metis node.distinct(1) option.inject)
  then show ?thesis by (simp add: under_def hostSegs_def metaBase_def)
qed

lemma write_markers_ok:
  assumes "markers_ok T fs" "claim_ok claim"
    and "claim_UID claim \<in> T \<or> whole_marker (kv_fs env) metaBase (claim_UID claim)"
    and "writeKubeVirtMetadata env (abs_path metaBase) claim devs fs = (fs', e)"
  shows "markers_ok T fs'"
  unfolding markers_ok_def
proof (intro ballI allI impI)
  let ?q = "claimDirOf (claim_UID claim)"
  fix sub n u
  assume s: "sub \<in> set metaSubdirs" and u: "markerOf fs' (metaBase @ [sub, n]) = Some u"
  have ch: "changes_below ?q fs fs'"
    using write_steps [OF metaBase_plain claim_okD(1,3) [OF assms(2)] assms(4)] by simp
  show "metaBase @ [sub, n] = claimDirOf u \<or> (\<exists>v \<in> T. metaBase @ [sub, n] = claimDirOf v)"
  proof (cases "markerOf fs (metaBase @ [sub, n]) = Some u")
    case True
    then show ?thesis using assms(1) s unfolding markers_ok_def by blast
  next
    case False
    then have q: "metaBase @ [sub, n] = ?q" by (rule changed_marker [OF ch s u])
    show ?thesis
    proof (cases "claim_UID claim \<in> T")
      case True
      with q show ?thesis by blast
    next
      case out: False
      then have "torn_file (kv_fs env) metaBase (claim_UID claim) = {}" using assms(3) by (simp add: torn_file_def)
      then consider "no_new_files fs fs'" | "markerOf fs' ?q = Some (claim_UID claim)"
        using write_failed_or_marked [OF metaBase_plain claim_okD(1,2) [OF assms(2)] assms(4)] by auto
      then show ?thesis
      proof cases
        case 1
        with False u no_new_files_marker show ?thesis by blast
      next
        case 2
        with q u show ?thesis by simp
      qed
    qed
  qed
qed

section \<open>Removing\<close>

lemma removeMetadata_facts:
  assumes "fs_ok fs" "markers_ok T fs"
    and "removeKubeVirtMetadataForClaim env kubevirtMetadataBasePath uid fs = (fs', e)"
  shows "fs_ok fs'" "markers_ok T fs'" "no_new_files fs fs'"
    and "beyond T uid k \<Longrightarrow> gm_get fs' k = gm_get fs k"
    and "removal_works env \<Longrightarrow> markerOf fs (claimDirOf uid) = Some uid \<Longrightarrow> under (claimDirOf uid) k \<Longrightarrow> gm_get fs' k = None"
proof -
  have r: "removeSubdirs env (abs_path metaBase) uid metaSubdirs fs = (fs', e)"
    using assms(3) by (simp add: removeKubeVirtMetadataForClaim_def metaBase_abs)
  show "fs_ok fs'" by (rule removeSubdirs_fs_ok [OF assms(1) r])
  show nn: "no_new_files fs fs'" using remove_no_files [OF metaBase_plain _ assms(1) r] by simp
  show "markers_ok T fs'" using markers_okI [OF assms(2)] no_new_files_marker [OF nn] by blast
  show "gm_get fs' k = gm_get fs k" if "beyond T uid k"
    using removeSubdirs_safe [OF metaBase_plain _ assms(1) r, of k] markers_okD [OF assms(2), of uid k] that by auto
  show "gm_get fs' k = None"
    if "removal_works env" "markerOf fs (claimDirOf uid) = Some uid" "under (claimDirOf uid) k"
    using remove_marked [OF metaBase_plain _ assms(1) that(1,2) r that(3)] by simp
qed

section \<open>The invariant\<close>

lemma writeMetadata_ok:
  assumes "stores_ok T w" "claim_ok claim" "claim_UID claim \<in> T \<or> whole_marker (kv_fs (env_kv env)) metaBase (claim_UID claim)"
    and "writeMetadata env s claim w = (w2, e)"
  shows "stores_ok T w2" and "changes_below (claimDirOf (claim_UID claim)) (w_fs w) (w_fs w2)"
proof -
  have "stores_ok T w2 \<and> changes_below (claimDirOf (claim_UID claim)) (w_fs w) (w_fs w2)"
  proof (cases "claimHasVfioDevice s claim")
    case True
    then have wk: "writeKubeVirtMetadata (env_kv env) (abs_path metaBase) claim (allocatable s) (w_fs w) = (w_fs w2, e)"
      using assms(4) by (auto simp: writeMetadata_def metaBase_abs split: prod.splits)
    have "w_claims w2 = w_claims w" "w_specs w2 = w_specs w"
      using writeMetadata_frame [OF assms(4)] by auto
    with write_steps [OF metaBase_plain claim_okD(1,3) [OF assms(2)] wk]
      write_markers_ok [OF _ assms(2,3) wk] assms(1) show ?thesis by (simp add: stores_ok_def)
  qed (use assms in \<open>simp add: writeMetadata_def\<close>)
  then show "stores_ok T w2" "changes_below (claimDirOf (claim_UID claim)) (w_fs w) (w_fs w2)" by auto
qed

lemma rollback_ok:
  assumes "stores_ok T w"
  shows "stores_ok T (rollbackKubeVirtMetadata env uid w)"
    and "beyond T uid k \<Longrightarrow> gm_get (w_fs (rollbackKubeVirtMetadata env uid w)) k = gm_get (w_fs w) k"
proof -
  obtain fs' e where r: "removeKubeVirtMetadataForClaim (kv_fs (env_kv env)) kubevirtMetadataBasePath uid (w_fs w) = (fs', e)"
    by fastforce
  have ok: "fs_ok (w_fs w)" "markers_ok T (w_fs w)" using assms by (simp_all add: stores_ok_def)
  show "stores_ok T (rollbackKubeVirtMetadata env uid w)"
    using removeMetadata_facts [OF ok r] assms r by (simp add: rollbackKubeVirtMetadata_def stores_ok_def)
  show "gm_get (w_fs (rollbackKubeVirtMetadata env uid w)) k = gm_get (w_fs w) k" if "beyond T uid k"
    using removeMetadata_facts(4) [OF ok r that] r by (simp add: rollbackKubeVirtMetadata_def)
qed

lemma prepareDevices_gm_ok:
  "prepareDevices env s claim specs = (specs', r) \<Longrightarrow> gm_ok specs \<Longrightarrow> gm_ok specs'"
  using CreateCommonSpecFile_ok [of "env_cdi env" "cdi s" specs]
  by (auto simp: prepareDevices_def Let_def split: option.splits sum.splits prod.splits if_splits)

lemma Prepare_world_ok:
  assumes "stores_ok T w" "claim_ok claim" "claim_UID claim \<in> T \<or> whole_marker (kv_fs (env_kv env)) metaBase (claim_UID claim)"
    and "Prepare env s claim w = (w', r)"
  shows "stores_ok T w'"
    and "beyond T (claim_UID claim) k \<Longrightarrow>
           gm_get (w_fs w') k = gm_get (w_fs w) k \<or> under k (claimDirOf (claim_UID claim)) \<and> gm_get (w_fs w) k = None \<and> gm_get (w_fs w') k = Some Dir"
proof -
  let ?uid = "claim_UID claim"
  let ?goal = "stores_ok T w' \<and> (beyond T ?uid k \<longrightarrow>
     gm_get (w_fs w') k = gm_get (w_fs w) k \<or> under k (claimDirOf (claim_UID claim)) \<and> gm_get (w_fs w) k = None \<and> gm_get (w_fs w') k = Some Dir)"
  have specs: "stores_ok T (v\<lparr>w_specs := sp\<rparr>)" if "stores_ok T v" "gm_ok sp" for v sp
    using that by (simp add: stores_ok_def)
  have written: "stores_ok T w2 \<and> (beyond T ?uid k \<longrightarrow>
     gm_get (w_fs w2) k = gm_get (w_fs w) k \<or> under k (claimDirOf (claim_UID claim)) \<and> gm_get (w_fs w) k = None \<and> gm_get (w_fs w2) k = Some Dir)"
    if p: "prepareDevices env s claim (w_specs w) = (specs1, pr)"
      and w2: "writeMetadata env s claim (w\<lparr>w_specs := specs1\<rparr>) = (w2, e)" for specs1 pr w2 e
  proof -
    have 1: "stores_ok T (w\<lparr>w_specs := specs1\<rparr>)"
      using specs [OF assms(1)] prepareDevices_gm_ok [OF p] assms(1) by (simp add: stores_ok_def)
    show ?thesis
      using writeMetadata_ok [OF 1 assms(2,3) w2] unfolding changes_below_def beyond_def by auto
  qed
  have ?goal
  proof (cases r)
    case (Inl err)
    from Prepare_failed [OF assms(4) [unfolded Inl]] consider "w' = w"
      | specs1 e where "prepareDevices env s claim (w_specs w) = (specs1, Inl e)" "w' = w\<lparr>w_specs := specs1\<rparr>"
      | specs1 pds w2 e specs3 where "prepareDevices env s claim (w_specs w) = (specs1, Inr pds)"
        "writeMetadata env s claim (w\<lparr>w_specs := specs1\<rparr>) = (w2, e)" "gm_ok specs1 \<longrightarrow> gm_ok specs3"
        "w' = rollbackKubeVirtMetadata env ?uid (w2\<lparr>w_specs := specs3\<rparr>)" by blast
    then show ?thesis
    proof cases
      case 2
      then show ?thesis using prepareDevices_gm_ok [OF 2(1)] assms(1) by (simp add: stores_ok_def)
    next
      case 3
      have "gm_ok specs3" using prepareDevices_gm_ok [OF 3(1)] 3(3) assms(1) by (simp add: stores_ok_def)
      then have w3: "stores_ok T (w2\<lparr>w_specs := specs3\<rparr>)" using written [OF 3(1,2)] specs by blast
      show ?thesis using rollback_ok [OF w3, where env = env and uid = ?uid] written [OF 3(1,2)] 3(4) by auto
    qed (use assms(1) in simp)
  next
    case (Inr ds)
    show ?thesis
    proof (cases "recorded (w_claims w) ?uid = []")
      case True
      obtain specs1 pds w2 specs3 where f: "prepareDevices env s claim (w_specs w) = (specs1, Inr pds)"
        "writeMetadata env s claim (w\<lparr>w_specs := specs1\<rparr>) = (w2, None)"
        "CreateClaimSpecFile (env_cdi env) (cdi s) ?uid pds specs1 = (specs3, None)"
        "w' = w2\<lparr>w_specs := specs3, w_claims := gm_put ?uid pds (w_claims w)\<rparr>"
        using Prepare_fresh [OF assms(4) [unfolded Inr] True] by blast
      have "gm_ok specs3"
        using CreateClaimSpecFile_gm_ok [OF f(3)] prepareDevices_gm_ok [OF f(1)] assms(1) by (simp add: stores_ok_def)
      then show ?thesis using written [OF f(1,2)] f(4) assms(1) by (auto simp: stores_ok_def)
    qed (use Prepare_early [of env w claim s] assms in simp)
  qed
  then show "stores_ok T w'" "beyond T ?uid k \<Longrightarrow>
    gm_get (w_fs w') k = gm_get (w_fs w) k \<or> under k (claimDirOf (claim_UID claim)) \<and> gm_get (w_fs w) k = None \<and> gm_get (w_fs w') k = Some Dir" by blast+
qed

lemma Unprepare_steps:
  assumes "Unprepare env s uid w = (w', e)"
  shows "w' = w \<or> (\<exists>specs1 fs1 e1 claims1. DeleteClaimSpecFile (env_cdi env) (cdi s) uid (w_specs w) = (specs1, e1) \<and>
     (fs1 = w_fs w \<or> (\<exists>e2. removeKubeVirtMetadataForClaim (kv_fs (env_kv env)) kubevirtMetadataBasePath uid (w_fs w) = (fs1, e2))) \<and>
     (claims1 = w_claims w \<or> claims1 = gm_del uid (w_claims w)) \<and>
     w' = \<lparr>w_claims = claims1, w_specs = specs1, w_fs = fs1\<rparr>)"
  using assms
  by (cases w) (auto simp: Unprepare_def unprepareDevices_def Let_def split: option.splits prod.splits if_splits)

lemma Unprepare_world_ok:
  assumes "stores_ok T w" "Unprepare env s uid w = (w', e)"
  shows "stores_ok T w'" and "beyond T uid k \<Longrightarrow> gm_get (w_fs w') k = gm_get (w_fs w) k"
proof -
  have ok: "fs_ok (w_fs w)" "markers_ok T (w_fs w)" "gm_ok (w_specs w)" "gm_ok (w_claims w)"
    using assms(1) by (simp_all add: stores_ok_def)
  have "stores_ok T w' \<and> (beyond T uid k \<longrightarrow> gm_get (w_fs w') k = gm_get (w_fs w) k)"
  proof (cases "w' = w")
    case False
    then obtain specs1 fs1 e1 claims1 where d: "DeleteClaimSpecFile (env_cdi env) (cdi s) uid (w_specs w) = (specs1, e1)"
      and c: "claims1 = w_claims w \<or> claims1 = gm_del uid (w_claims w)"
      and w': "w' = \<lparr>w_claims = claims1, w_specs = specs1, w_fs = fs1\<rparr>"
      and f: "fs1 = w_fs w \<or> (\<exists>e2. removeKubeVirtMetadataForClaim (kv_fs (env_kv env)) kubevirtMetadataBasePath uid (w_fs w) = (fs1, e2))"
      using Unprepare_steps [OF assms(2)] by blast
    have "gm_ok specs1"
      using DeleteClaimSpecFile_ok [of "env_cdi env" "cdi s" uid "w_specs w" specs1]
        DeleteClaimSpecFile_err [of "env_cdi env" "cdi s" uid "w_specs w" specs1] d ok(3) by (cases e1) auto
    moreover have "gm_ok claims1" using c ok(4) by auto
    ultimately show ?thesis
      using f removeMetadata_facts(1,2,4) [OF ok(1,2)] ok w' by (auto simp: stores_ok_def)
  qed (use assms(1) in simp)
  then show "stores_ok T w'" "beyond T uid k \<Longrightarrow> gm_get (w_fs w') k = gm_get (w_fs w) k" by blast+
qed

section \<open>Round trip of the metadata\<close>

text \<open>
  Removing a claim's metadata after a successful fresh \<open>Prepare\<close> leaves the files that were there
  before, if the claim's directory was empty.
\<close>

lemma metadata_roundtrip:
  assumes "world_ok w" "claim_ok claim"
    and "\<And>k. under (claimDirOf (claim_UID claim)) k \<Longrightarrow> gm_get (w_fs w) k = None"
    and "whole_marker (kv_fs (env_kv env)) metaBase (claim_UID claim)" "removal_works (kv_fs (env_kv env'))"
    and p: "Prepare env s claim w = (w1, Inr ds)" "recorded (w_claims w) (claim_UID claim) = []"
    and r: "removeKubeVirtMetadataForClaim (kv_fs (env_kv env')) kubevirtMetadataBasePath (claim_UID claim) (w_fs w1) = (fs2, None)"
  shows "gm_get fs2 k = Some (File c) \<longleftrightarrow> gm_get (w_fs w) k = Some (File c)"
proof (cases "under (claimDirOf (claim_UID claim)) k")
  let ?uid = "claim_UID claim"
  note whole = disjI2 [OF assms(4), of "?uid \<in> {}"]
  have ok: "fs_ok (w_fs w1)" "markers_ok {} (w_fs w1)"
    using Prepare_world_ok(1) [OF assms(1,2) whole p(1)] by (simp_all add: stores_ok_def)
  {
    case True
    obtain specs1 w2 where f: "writeMetadata env s claim (w\<lparr>w_specs := specs1\<rparr>) = (w2, None)" "w_fs w1 = w_fs w2"
      using Prepare_fresh_world [OF p] by metis
    have "markerOf (w_fs w1) (claimDirOf ?uid) = Some ?uid \<or> no_new_files (w_fs w) (w_fs w1)"
      using write_failed_or_marked [OF metaBase_plain claim_okD(1,2) [OF assms(2)], of "env_kv env" "allocatable s" "w_fs w" "w_fs w1" None] f assms(4)
      by (auto simp: torn_file_def writeMetadata_def metaBase_abs new_files_in_def split: prod.splits if_splits)
    then have "gm_get fs2 k \<noteq> Some (File c)"
    proof
      assume "markerOf (w_fs w1) (claimDirOf ?uid) = Some ?uid"
      from removeMetadata_facts(5) [OF ok r assms(5) this True] show ?thesis by simp
    next
      assume "no_new_files (w_fs w) (w_fs w1)"
      with removeMetadata_facts(3) [OF ok r] assms(3) [OF True] show ?thesis by (auto simp: new_files_in_def)
    qed
    with assms(3) [OF True] show ?thesis by simp
  next
    case False
    then have b: "beyond {} ?uid k" by simp
    then have "gm_get fs2 k = gm_get (w_fs w1) k" by (rule removeMetadata_facts(4) [OF ok r])
    with Prepare_world_ok(2) [OF assms(1,2) whole p(1) b] show ?thesis by auto
  }
qed

section \<open>CDI specs\<close>

text \<open>A call for a claim writes and removes its own spec and the common one, no other.\<close>

lemma CreateClaimSpecFile_frame:
  "CreateClaimSpecFile env c uid pds dir = (dir', e) \<Longrightarrow> n \<noteq> claimSpecName env c uid \<Longrightarrow> gm_get dir' n = gm_get dir n"
  by (auto simp: CreateClaimSpecFile_def Let_def WriteSpec_def split: sum.splits option.splits)

lemma Prepare_specs:
  assumes "Prepare env s claim w = (w', r)" "\<not> commonSpecName (env_cdi env) (cdi s) n"
    and "n \<noteq> claimSpecName (env_cdi env) (cdi s) (claim_UID claim)"
  shows "gm_get (w_specs w') n = gm_get (w_specs w) n"
proof (cases "GetCheckpoint_err env \<noteq> None \<or> recorded (w_claims w) (claim_UID claim) \<noteq> []")
  case True
  with Prepare_early [of env w claim s] assms(1) show ?thesis by simp
next
  case False
  obtain specs1 p where p: "prepareDevices env s claim (w_specs w) = (specs1, p)" by fastforce
  obtain w2 e where w2: "writeMetadata env s claim (w\<lparr>w_specs := specs1\<rparr>) = (w2, e)" by fastforce
  have "gm_get specs1 n = gm_get (w_specs w) n" by (rule prepareDevices_specs [OF p assms(2)])
  moreover have "w_specs w2 = specs1" using writeMetadata_frame [OF w2] by simp
  ultimately show ?thesis
    using assms(1) False p w2 CreateClaimSpecFile_frame [OF _ assms(3)]
    by (fastforce simp: Prepare_def Let_def split: sum.splits option.splits prod.splits)
qed

lemma Unprepare_specs:
  assumes "Unprepare env s uid w = (w', r)" "n \<noteq> claimSpecName (env_cdi env) (cdi s) uid"
  shows "gm_get (w_specs w') n = gm_get (w_specs w) n"
  using assms
  by (auto simp: Unprepare_def DeleteClaimSpecFile_def RemoveSpec_def Let_def split: option.splits prod.splits if_splits)

end
