(* ===== verification/Startup.thy ===== *)
theory Startup
  imports Claim_World
begin

text \<open>
  Bringing the plugin up: the configuration and \<open>RunPlugin\<close>'s directory checks (\<open>main.go\<close>), and
  \<open>NewDeviceState\<close> (\<open>state.go\<close>), which reads the first inventory and makes sure a checkpoint
  exists. Failing to read devices is not fatal; failing to set up CDI or the checkpoint is.
\<close>

record Config =
  flags_nodeName :: string
  flags_cdiRoot :: string
  flags_kubeletRegistrarDirectoryPath :: string
  flags_kubeletPluginsDirectoryPath :: string
  flags_healthcheckPort :: int
  flags_deviceScanInterval :: int
  cfg_sysfsPCIDevicesRoot :: string

definition DriverPluginCheckpointFile :: string where
  "DriverPluginCheckpointFile = ''checkpoint.json''"

definition DriverPluginPath :: "Config \<Rightarrow> string" where
  "DriverPluginPath c = filepath_Join [flags_kubeletPluginsDirectoryPath c, DriverName]"

text \<open>
  The directories \<open>RunPlugin\<close> checks before it starts the driver: \<open>mkdir\<close> answers \<open>os.MkdirAll\<close>
  and \<open>stat\<close> answers \<open>os.Stat\<close>, with whether the path is a directory.
\<close>

definition runPluginDirs ::
    "(string \<Rightarrow> goerr option) \<Rightarrow> (string \<Rightarrow> bool result) \<Rightarrow> Config \<Rightarrow> goerr option" where
  "runPluginDirs mkdir stat config =
     (case mkdir (DriverPluginPath config) of
        Some err \<Rightarrow> Some err
      | None \<Rightarrow>
          (case stat (flags_cdiRoot config) of
             Inl err \<Rightarrow> if os_IsNotExist err then mkdir (flags_cdiRoot config) else Some err
           | Inr isDir \<Rightarrow>
               if \<not> isDir
               then Some (Errorf ''path for CDI file generation is not a directory: %q'' [flags_cdiRoot config])
               else None))"

record startup_env =
  st_scan :: scan_env
  st_NewCache :: "unit result"
  st_NewCheckpointManager_err :: "goerr option"
  st_ListCheckpoints :: "string list result"
  st_CreateCheckpoint_err :: "goerr option"

text \<open>The devices found at startup, what was skipped, and the two errors that are only logged.\<close>

definition startupVfio :: "startup_env \<Rightarrow> string \<Rightarrow> Device list \<times> skippedDevice list \<times> goerr option" where
  "startupVfio env root =
     (case enumerateVfioDevices (view_vfio (st_scan env)) root gm_empty of
        Inl err \<Rightarrow> ([], [], Some err)
      | Inr (devices, skipped) \<Rightarrow> (devices, skipped, None))"

definition startupNpu :: "startup_env \<Rightarrow> string \<Rightarrow> Device list \<times> skippedDevice list \<times> goerr option" where
  "startupNpu env root =
     (let run = (case countNativeCandidates (view_count (st_scan env)) root gm_empty of
                   Inl err \<Rightarrow> True | Inr candidates \<Rightarrow> candidates > 0)
      in if run then
           (case enumerateNpuDevices (view_npu (st_scan env)) root (inventoryFn (st_scan env)) of
              Inl err \<Rightarrow> ([], [], Some err)
            | Inr (devices, skipped) \<Rightarrow> (devices, skipped, None))
         else ([], [], None))"

definition sysfsRootOf :: "Config \<Rightarrow> string" where
  "sysfsRootOf config =
     (if cfg_sysfsPCIDevicesRoot config = [] then sysfsPCIDevicesRoot else cfg_sysfsPCIDevicesRoot config)"

text \<open>
  The records of startup, in order. Per device the model keeps the attributes that identify it.
\<close>

definition enumeratedRecord :: "string \<Rightarrow> Device \<Rightarrow> LogRecord" where
  "enumeratedRecord msg d =
     (LevelDebug, msg, [(''device'', Name d), (''pciBusID'', deviceStringAttr d pciBusIDAttributeKey)])"

definition startupLogs :: "startup_env \<Rightarrow> string \<Rightarrow> LogRecord list" where
  "startupLogs env root =
     (let (vfio, vfioSkipped, vfioErr) = startupVfio env root; (npu, npuSkipped, npuErr) = startupNpu env root in
      (if vfioErr \<noteq> None then [(LevelError, ''Failed to enumerate vfio-pci NPU devices'', [])] else []) @
      (if countNativeCandidates (view_count (st_scan env)) root gm_empty = Inr 0
       then [(LevelInfo, ''No NPU bound to the native driver, skipping rbln-smi'',
              [(''vfioDeviceCount'', format_nat (length vfio))])] else []) @
      (if npuErr \<noteq> None then [(LevelError, ''rbln-smi enumeration failed, starting without native devices'', [])] else []) @
      (if npu = [] \<and> vfio = [] then [(LevelWarn, ''No NPU devices found on this node'', [])] else []) @
      map (enumeratedRecord ''Enumerated vfio-pci NPU device'') vfio @
      logSkippedDevices (npuSkipped @ vfioSkipped) @
      map (enumeratedRecord ''Enumerated NPU device'') npu)"

definition NewDeviceState :: "startup_env \<Rightarrow> Config \<Rightarrow> world \<Rightarrow> world \<times> DeviceState result" where
  "NewDeviceState env config w =
     (let root = sysfsRootOf config;
          (vfio, vfioSkipped, vfioErr) = startupVfio env root;
          (npu, npuSkipped, npuErr) = startupNpu env root
      in case NewCDIHandler (st_NewCache env) (flags_cdiRoot config) ''npu'' of
           Inl err \<Rightarrow> (w, Inl (Wrapf ''unable to create CDI handler: %w'' [] err))
         | Inr handler \<Rightarrow>
             (case st_NewCheckpointManager_err env of
                Some err \<Rightarrow> (w, Inl (Wrapf ''unable to create checkpoint manager: %w'' [] err))
              | None \<Rightarrow>
                  let state = rebuildResources
                        \<lparr>nodeName = flags_nodeName config, cdi = handler, driverResources = gm_empty,
                         allocatable = gm_empty, npuDevices = npu, vfioDevices = vfio, state_sysfsRoot = root,
                         scan = \<lparr>sysfsFailing = False, npuFailing = (npuErr \<noteq> None), slow = False\<rparr>\<rparr>
                  in (case st_ListCheckpoints env of
                        Inl err \<Rightarrow> (w, Inl (Wrapf ''unable to list checkpoints: %w'' [] err))
                      | Inr checkpoints \<Rightarrow>
                          if DriverPluginCheckpointFile \<in> set checkpoints then (w, Inr state)
                          else (case st_CreateCheckpoint_err env of
                                  Some err \<Rightarrow> (w, Inl (Wrapf ''unable to sync to checkpoint: %w'' [] err))
                                | None \<Rightarrow> (w\<lparr>w_claims := V1_PreparedClaims newCheckpoint\<rparr>, Inr state)))))"

lemma NewDeviceState_Inr:
  assumes "NewDeviceState env config w = (w', Inr s)"
  shows "consistent s" "nodeName s = flags_nodeName config" "state_sysfsRoot s = sysfsRootOf config"
    and "npuDevices s = fst (startupNpu env (sysfsRootOf config))"
    and "vfioDevices s = fst (startupVfio env (sysfsRootOf config))"
    and "w' = (case st_ListCheckpoints env of
                 Inr cs \<Rightarrow> if DriverPluginCheckpointFile \<in> set cs then w else w\<lparr>w_claims := gm_empty\<rparr> | Inl _ \<Rightarrow> w)"
proof -
  obtain v vs ve where v: "startupVfio env (sysfsRootOf config) = (v, vs, ve)" by (metis prod_cases3)
  obtain n ns ne where n: "startupNpu env (sysfsRootOf config) = (n, ns, ne)" by (metis prod_cases3)
  show "consistent s" "nodeName s = flags_nodeName config" "state_sysfsRoot s = sysfsRootOf config"
    "npuDevices s = fst (startupNpu env (sysfsRootOf config))"
    "vfioDevices s = fst (startupVfio env (sysfsRootOf config))"
    "w' = (case st_ListCheckpoints env of
             Inr cs \<Rightarrow> if DriverPluginCheckpointFile \<in> set cs then w else w\<lparr>w_claims := gm_empty\<rparr> | Inl _ \<Rightarrow> w)"
    using assms v n
    by (auto simp: NewDeviceState_def Let_def newCheckpoint_def split: sum.splits option.splits if_splits)
qed

text \<open>The resources of the first inventory, and when a state comes up.\<close>

definition startupResources :: "startup_env \<Rightarrow> Config \<Rightarrow> DriverResources" where
  "startupResources env config =
     [(flags_nodeName config, [fst (startupNpu env (sysfsRootOf config)) @ fst (startupVfio env (sysfsRootOf config))])]"

lemma NewDeviceState_outcome:
  "((\<exists>s. snd (NewDeviceState env config w) = Inr s) \<longleftrightarrow>
      (\<exists>cache. st_NewCache env = Inr cache) \<and> st_NewCheckpointManager_err env = None \<and>
      (\<exists>cs. st_ListCheckpoints env = Inr cs \<and>
         (DriverPluginCheckpointFile \<in> set cs \<or> st_CreateCheckpoint_err env = None))) \<and>
   (\<forall>s. snd (NewDeviceState env config w) = Inr s \<longrightarrow> driverResources s = startupResources env config) \<and>
   (case st_ListCheckpoints env of
      Inl _ \<Rightarrow> fst (NewDeviceState env config w) = w
    | Inr cs \<Rightarrow> if DriverPluginCheckpointFile \<in> set cs then fst (NewDeviceState env config w) = w
                else fst (NewDeviceState env config w) \<in> {w, w\<lparr>w_claims := gm_empty\<rparr>})"
proof -
  obtain v vs ve where v: "startupVfio env (sysfsRootOf config) = (v, vs, ve)" by (metis prod_cases3)
  obtain n ns ne where n: "startupNpu env (sysfsRootOf config) = (n, ns, ne)" by (metis prod_cases3)
  show ?thesis
    by (auto simp: NewDeviceState_def NewCDIHandler_def newCheckpoint_def Let_def v n startupResources_def
        rebuildResources_def gm_empty_def split: sum.splits option.splits)
qed

end
