(* ===== verification/Health.thy ===== *)
theory Health
  imports Startup
begin

text \<open>
  \<open>cmd/npu-kubelet-plugin/health.go\<close>: the gRPC health service. The two clients it probes with are
  library code; what they answer is an argument. The DRA probe reaches the driver's own
  \<open>PrepareResourceClaims\<close> with an empty list.
\<close>

datatype ServingStatus = SERVING | NOT_SERVING

datatype grpc_error = CodeNotFound string

definition knownServices :: "string list" where
  "knownServices = ['''', ''liveness'', ''readiness'']"

text \<open>\<open>registered\<close> is the closure of the struct, \<open>None\<close> when it is nil.\<close>

definition Check :: "bool option \<Rightarrow> goerr option \<Rightarrow> goerr option \<Rightarrow> string \<Rightarrow> (grpc_error + ServingStatus) \<times> LogRecord list" where
  "Check registered getInfoErr prepareErr service =
     (if service \<notin> set knownServices then (Inl (CodeNotFound ''unknown service''), [])
      else if service = ''readiness'' \<and> registered \<noteq> Some True then (Inr NOT_SERVING, [])
      else if getInfoErr \<noteq> None
      then (Inr NOT_SERVING, [(LevelError, ''Healthcheck failed calling GetInfo'', [])])
      else if prepareErr \<noteq> None
      then (Inr NOT_SERVING,
            [(LevelTrace, ''Successfully invoked GetInfo'', []),
             (LevelError, ''Healthcheck failed calling NodePrepareResources'', [])])
      else (Inr SERVING,
            [(LevelTrace, ''Successfully invoked GetInfo'', []),
             (LevelTrace, ''Successfully invoked NodePrepareResources'', [])]))"

record healthcheck =
  hc_addr :: string
  hc_regSock :: string
  hc_draSock :: string
  hc_serving :: bool

text \<open>
  \<open>startHealthcheck\<close> up to serving: no service for a negative port. \<open>listen\<close> answers
  \<open>net.Listen\<close>, \<open>dial\<close> answers \<open>grpc.NewClient\<close> for the path of a socket.
\<close>

definition startHealthcheck ::
    "(string \<Rightarrow> goerr option) \<Rightarrow> (string \<Rightarrow> goerr option) \<Rightarrow> Config \<Rightarrow> healthcheck option result" where
  "startHealthcheck listen dial config =
     (if flags_healthcheckPort config < 0 then Inr None
      else let addr = '':'' @ Itoa (flags_healthcheckPort config);
               regSock = filepath_Join [flags_kubeletRegistrarDirectoryPath config, DriverName @ ''-reg.sock''];
               draSock = filepath_Join [DriverPluginPath config, ''dra.sock'']
           in case listen addr of
                Some err \<Rightarrow> Inl (Wrapf ''failed to listen for healthcheck service at %s: %w'' [addr] err)
              | None \<Rightarrow>
                  (case dial regSock of
                     Some err \<Rightarrow> Inl (Wrapf ''connect to registration socket: %w'' [] err)
                   | None \<Rightarrow>
                       (case dial draSock of
                          Some err \<Rightarrow> Inl (Wrapf ''connect to DRA socket: %w'' [] err)
                        | None \<Rightarrow> Inr (Some \<lparr>hc_addr = addr, hc_regSock = regSock, hc_draSock = draSock, hc_serving = True\<rparr>))))"

text \<open>\<open>Stop\<close> returns when the server has stopped serving.\<close>

definition healthStop :: "healthcheck \<Rightarrow> healthcheck" where
  "healthStop h = h\<lparr>hc_serving := False\<rparr>"

lemma Check_SERVING:
  "fst (Check registered getInfoErr prepareErr service) = Inr SERVING \<longleftrightarrow>
     service \<in> set knownServices \<and> (service = ''readiness'' \<longrightarrow> registered = Some True) \<and>
     getInfoErr = None \<and> prepareErr = None"
  by (auto simp: Check_def)

end
