(* ===== verification/Histories.thy ===== *)
theory Histories
  imports Go_Prelude
begin

text \<open>
  Histories of a labelled step relation: what an invariant and a simulation give for them, and
  where a fact about the last state came from.
\<close>

inductive trace :: "('s \<Rightarrow> 'e \<Rightarrow> 's \<Rightarrow> bool) \<Rightarrow> 's \<Rightarrow> 'e list \<Rightarrow> 's \<Rightarrow> bool" for step s0 where
  start: "trace step s0 [] s0"
| step: "trace step s0 es s \<Longrightarrow> step s e s' \<Longrightarrow> trace step s0 (es @ [e]) s'"

lemma trace_one: "step s e s' \<Longrightarrow> trace step s [e] s'"
  using trace.step [OF trace.start] by fastforce

lemma trace_Cons: "trace step s1 es s2 \<Longrightarrow> step s e s1 \<Longrightarrow> trace step s (e # es) s2"
proof (induction rule: trace.induct)
  case start
  then show ?case by (rule trace_one)
next
  case (step es s3 e' s4)
  show ?case using trace.step [of _ _ "e # es", OF step.IH [OF step.prems] step.hyps(2)] by simp
qed

text \<open>A fact that holds of the last state and not of the first was made true by a step.\<close>

lemma trace_origin:
  assumes "trace step s0 es s" "P s" "\<not> P s0"
  obtains es1 e es2 s1 s2 where "es = es1 @ e # es2" "trace step s0 es1 s1" "\<not> P s1" "step s1 e s2" "P s2"
    "trace step s2 es2 s"
proof -
  have "P s \<longrightarrow> \<not> P s0 \<longrightarrow> (\<exists>es1 e es2 s1 s2. es = es1 @ e # es2 \<and> trace step s0 es1 s1 \<and> \<not> P s1 \<and>
      step s1 e s2 \<and> P s2 \<and> trace step s2 es2 s)"
    using assms(1)
  proof (induction rule: trace.induct)
    case (step es s e s')
    have ext: "trace step x (ys @ [e]) s'" if "trace step x ys s" for x ys
      by (rule trace.step [OF that step.hyps(2)])
    show ?case
    proof (cases "P s")
      case True
      show ?thesis
      proof (intro impI)
        assume "\<not> P s0"
        then obtain es1 e1 es2 s1 s2 where w: "es = es1 @ e1 # es2" "trace step s0 es1 s1" "\<not> P s1" "step s1 e1 s2"
          "P s2" "trace step s2 es2 s"
          using step.IH True by blast
        then have eq: "es @ [e] = es1 @ e1 # (es2 @ [e])" by simp
        show "\<exists>es1 e' es2 s1 s2. es @ [e] = es1 @ e' # es2 \<and> trace step s0 es1 s1 \<and> \<not> P s1 \<and>
            step s1 e' s2 \<and> P s2 \<and> trace step s2 es2 s'"
          by (intro exI conjI) (rule eq, rule w(2), rule w(3), rule w(4), rule w(5), rule ext [OF w(6)])
      qed
    next
      case False
      show ?thesis
        by (intro impI exI conjI) (rule refl, rule step.hyps(1), rule False, rule step.hyps(2), assumption, rule trace.start)
    qed
  qed simp
  with assms(2,3) that show thesis by blast
qed

text \<open>
  An invariant of the allowed steps is one of the histories made of them. \<open>allowed\<close> says what the
  invariant takes for granted of the events.
\<close>

locale kept =
  fixes step :: "'s \<Rightarrow> 'e \<Rightarrow> 's \<Rightarrow> bool" and allowed :: "'e \<Rightarrow> bool" and inv :: "'s \<Rightarrow> bool"
  assumes step_inv: "inv s \<Longrightarrow> allowed e \<Longrightarrow> step s e s' \<Longrightarrow> inv s'"
begin

lemma trace_inv: "trace step s0 es s \<Longrightarrow> inv s0 \<Longrightarrow> list_all allowed es \<Longrightarrow> inv s"
  by (induction rule: trace.induct) (auto intro: step_inv)

end

text \<open>
  A simulation by an abstraction function: under the invariant every step is one of the abstract
  relation with the same label, so every history is one of the abstract relation.
\<close>

locale simulation = kept step allowed inv
  for step :: "'s \<Rightarrow> 'e \<Rightarrow> 's \<Rightarrow> bool" and allowed :: "'e \<Rightarrow> bool" and inv :: "'s \<Rightarrow> bool" +
  fixes astep :: "'t \<Rightarrow> 'e \<Rightarrow> 't \<Rightarrow> bool" and abs :: "'s \<Rightarrow> 't"
  assumes step_sim: "inv s \<Longrightarrow> step s e s' \<Longrightarrow> astep (abs s) e (abs s')"
begin

lemma trace_sim: "trace step s0 es s \<Longrightarrow> inv s0 \<Longrightarrow> list_all allowed es \<Longrightarrow> trace astep (abs s0) es (abs s)"
proof (induction rule: trace.induct)
  case start
  show ?case by (rule trace.start)
next
  case (step es s e s')
  have es: "list_all allowed es" using step.prems(2) by simp
  have "inv s" by (rule trace_inv [OF step.hyps(1) step.prems(1) es])
  then show ?case by (intro trace.step [OF step.IH [OF step.prems(1) es]] step_sim step.hyps(2))
qed

end

end
