(* ===== verification/Driver.thy ===== *)
theory Driver
  imports Health Histories
begin

text \<open>
  \<open>cmd/npu-kubelet-plugin/driver.go\<close>: the kubelet's calls, the scan loop and the error callback.

  The kubelet calls run concurrently with the scan loop. \<open>DeviceState\<close>'s mutex makes one \<open>Prepare\<close>
  or \<open>Unprepare\<close>, and the two locked parts of a scan, single steps; \<open>driver_step\<close> interleaves them
  freely. \<open>d_known\<close> says whether a scan is between its two parts and with what it started.
\<close>

section \<open>The kubelet calls\<close>

record KubeletDevice =
  kd_Requests :: "string list"
  kd_PoolName :: string
  kd_DeviceName :: string
  kd_CDIDeviceIDs :: "string list"

record PrepareResult =
  pr_Devices :: "KubeletDevice list"
  pr_Err :: "goerr option"

definition kubeletDevice :: "DRADevice \<Rightarrow> KubeletDevice" where
  "kubeletDevice d = \<lparr>kd_Requests = RequestNames d, kd_PoolName = PoolName d,
                      kd_DeviceName = DeviceName d, kd_CDIDeviceIDs = CdiDeviceIds d\<rparr>"

definition prepareResourceClaim ::
    "prep_env \<Rightarrow> DeviceState \<Rightarrow> ResourceClaim \<Rightarrow> world \<Rightarrow> world \<times> PrepareResult" where
  "prepareResourceClaim env s claim w =
     (case Prepare env s claim w of
        (w', Inl err) \<Rightarrow>
          (w', \<lparr>pr_Devices = [],
                pr_Err = Some (Wrapf ''error preparing devices for claim %v: %w'' [claim_UID claim] err)\<rparr>)
      | (w', Inr ds) \<Rightarrow> (w', \<lparr>pr_Devices = map kubeletDevice ds, pr_Err = None\<rparr>))"

definition unprepareResourceClaim ::
    "prep_env \<Rightarrow> DeviceState \<Rightarrow> string \<Rightarrow> world \<Rightarrow> world \<times> goerr option" where
  "unprepareResourceClaim env s uid w =
     (case Unprepare env s uid w of
        (w', Some err) \<Rightarrow> (w', Some (Wrapf ''error unpreparing devices for claim %v: %w'' [uid] err))
      | (w', None) \<Rightarrow> (w', None))"

text \<open>
  The two batch calls walk their claims in order. The lock is taken per claim, so a scan may commit
  between two of them: every call sees an environment and a device state of its own. Go maps from
  UIDs hold the results.
\<close>

fun batch :: "('c \<Rightarrow> 'w \<Rightarrow> 'w \<times> 'r) \<Rightarrow> ('c \<Rightarrow> string) \<Rightarrow> 'c list \<Rightarrow> 'w \<Rightarrow> (string, 'r) gomap \<Rightarrow> 'w \<times> (string, 'r) gomap" where
  "batch f key [] w m = (w, m)"
| "batch f key (c # cs) w m = (case f c w of (w', r) \<Rightarrow> batch f key cs w' (gm_put (key c) r m))"

definition PrepareResourceClaims ::
    "(ResourceClaim \<Rightarrow> prep_env) \<Rightarrow> (ResourceClaim \<Rightarrow> DeviceState) \<Rightarrow> ResourceClaim list \<Rightarrow> world \<Rightarrow>
       world \<times> (string, PrepareResult) gomap" where
  "PrepareResourceClaims env state claims w =
     batch (\<lambda>claim. prepareResourceClaim (env claim) (state claim) claim) claim_UID claims w gm_empty"

definition UnprepareResourceClaims ::
    "(string \<Rightarrow> prep_env) \<Rightarrow> (string \<Rightarrow> DeviceState) \<Rightarrow> string list \<Rightarrow> world \<Rightarrow> world \<times> (string, goerr option) gomap" where
  "UnprepareResourceClaims env state uids w =
     batch (\<lambda>uid. unprepareResourceClaim (env uid) (state uid) uid) (\<lambda>uid. uid) uids w gm_empty"

section \<open>The scan loop\<close>

text \<open>
  One tick of \<open>runDeviceScan\<close> after \<open>RescanDevices\<close>: what is handed to \<open>PublishResources\<close>, if
  anything. \<open>publish_err\<close> answers that call.
\<close>

definition afterScan :: "(DriverResources \<Rightarrow> goerr option) \<Rightarrow> scan_result \<Rightarrow> DriverResources \<Rightarrow> DriverResources \<times> LogRecord list" where
  "afterScan publish_err r pub =
     (if rs_err r \<noteq> None \<or> \<not> rs_changed r then (pub, [])
      else (case publish_err (rs_resources r) of
              None \<Rightarrow> (rs_resources r, [])
            | Some err \<Rightarrow> (pub, [(LevelError, ''Failed to publish resources after device scan'', [])])))"

record scan_tick =
  tick_env :: scan_env
  tick_took :: nat
  tick_publish :: "DriverResources \<Rightarrow> goerr option"

definition scanTick :: "nat \<Rightarrow> scan_tick \<Rightarrow> DeviceState \<times> DriverResources \<Rightarrow> (DeviceState \<times> DriverResources) \<times> LogRecord list" where
  "scanTick interval t sp =
     (let r = RescanDevices (tick_env t) (fst sp);
          (s', logs) = observeScanDuration (tick_took t) interval (rs_state r);
          (pub, logs') = afterScan (tick_publish t) r (snd sp)
      in ((s', pub), rs_logs r @ logs @ logs'))"

text \<open>The loop over the ticks until the context is done.\<close>

fun runDeviceScan :: "nat \<Rightarrow> scan_tick list \<Rightarrow> DeviceState \<times> DriverResources \<Rightarrow> DeviceState \<times> DriverResources" where
  "runDeviceScan interval [] sp = sp"
| "runDeviceScan interval (t # ts) sp = runDeviceScan interval ts (fst (scanTick interval t sp))"

section \<open>The driver\<close>

record driver =
  d_state :: DeviceState
  d_world :: world
  d_known :: "(string, bool) gomap option"
  d_published :: DriverResources
  d_registered :: bool
  d_cancelled :: "goerr option"
  d_healthcheck :: "healthcheck option"
  d_helper :: bool
  d_scanning :: bool

text \<open>
  \<open>HandleError\<close>: \<open>recoverable\<close> stands for \<open>errors.Is(err, kubeletplugin.ErrRecoverable)\<close>. A
  context keeps the cause of its first cancellation.
\<close>

definition HandleError :: "(goerr \<Rightarrow> bool) \<Rightarrow> goerr \<Rightarrow> driver \<Rightarrow> driver" where
  "HandleError recoverable err d =
     (if \<not> recoverable err \<and> d_cancelled d = None
      then d\<lparr>d_cancelled := Some (Wrapf ''fatal background error: %w'' [] err)\<rparr> else d)"

text \<open>
  \<open>observeRegistration\<close>: a \<open>RegistrationStatus\<close> request carries the kubelet's verdict;
  \<open>handlerErr\<close> is what the wrapped handler returned. Other requests pass.
\<close>

definition observeRegistration :: "bool option \<Rightarrow> goerr option \<Rightarrow> driver \<Rightarrow> driver" where
  "observeRegistration request handlerErr d =
     (case request of
        Some pluginRegistered \<Rightarrow> d\<lparr>d_registered := (pluginRegistered \<and> handlerErr = None)\<rparr>
      | None \<Rightarrow> d)"

text \<open>
  An event carries what the step read: a scan its tick, a call the claim and the environment that
  answers it.
\<close>

datatype event =
    ScanBegin | ScanEnd scan_tick | PrepareClaim prep_env ResourceClaim | UnprepareClaim prep_env string
  | Registration | BackgroundError | Signal

inductive driver_step :: "driver \<Rightarrow> event \<Rightarrow> driver \<Rightarrow> bool" where
  scan_begin: "d_scanning d \<Longrightarrow> d_known d = None \<Longrightarrow>
     driver_step d ScanBegin (d\<lparr>d_known := Some (knownBuses (d_state d))\<rparr>)"
| scan_end: "d_known d = Some known \<Longrightarrow> finishScan (tick_env t) known (d_state d) = r \<Longrightarrow>
     driver_step d (ScanEnd t)
       (d\<lparr>d_known := None, d_state := fst (observeScanDuration (tick_took t) interval (rs_state r)),
          d_published := fst (afterScan (tick_publish t) r (d_published d))\<rparr>)"
| prepare: "claim_ok claim \<Longrightarrow> prepareResourceClaim env (d_state d) claim (d_world d) = (w', r) \<Longrightarrow>
     driver_step d (PrepareClaim env claim) (d\<lparr>d_world := w'\<rparr>)"
| unprepare: "unprepareResourceClaim env (d_state d) uid (d_world d) = (w', e) \<Longrightarrow>
     driver_step d (UnprepareClaim env uid) (d\<lparr>d_world := w'\<rparr>)"
| registration: "driver_step d Registration (observeRegistration request handlerErr d)"
| background_error: "driver_step d BackgroundError (HandleError recoverable err d)"
| signal: "d_cancelled d = None \<Longrightarrow> driver_step d Signal (d\<lparr>d_cancelled := Some ErrCanceled\<rparr>)"

text \<open>
  The claims of a history whose owner marker an \<open>os.WriteFile\<close> may have left half written: the
  environment of one of their calls, or a kill in it, truncates the marker without writing it.
\<close>

fun tears :: "event \<Rightarrow> string set" where
  "tears (PrepareClaim env claim) =
     (if whole_marker (kv_fs (env_kv env)) metaBase (claim_UID claim) then {} else {claim_UID claim})"
| "tears _ = {}"

definition torn :: "event list \<Rightarrow> string set" where
  "torn evs = \<Union> (tears ` set evs)"

inductive_cases driver_stepE: "driver_step d ev d'"

text \<open>
  \<open>NewDriver\<close>: the state, the kubelet plugin helper, the health service, the first publication,
  and the scan loop if its interval is positive. \<open>driver_env\<close> holds the answers of the helper and
  of the sockets. Calls the kubelet makes before \<open>NewDriver\<close> returns find the same state as those
  after it.
\<close>

record driver_env =
  de_startup :: startup_env
  de_Start_err :: "goerr option"
  de_Listen :: "string \<Rightarrow> goerr option"
  de_NewClient :: "string \<Rightarrow> goerr option"
  de_Publish :: "DriverResources \<Rightarrow> goerr option"

definition NewDriver :: "driver_env \<Rightarrow> Config \<Rightarrow> world \<Rightarrow> world \<times> driver result" where
  "NewDriver env config w =
     (case NewDeviceState (de_startup env) config w of
        (w1, Inl err) \<Rightarrow> (w1, Inl err)
      | (w1, Inr state) \<Rightarrow>
          (case de_Start_err env of
             Some err \<Rightarrow> (w1, Inl err)
           | None \<Rightarrow>
               (case startHealthcheck (de_Listen env) (de_NewClient env) config of
                  Inl err \<Rightarrow> (w1, Inl (Wrapf ''start healthcheck: %w'' [] err))
                | Inr hc \<Rightarrow>
                    (case de_Publish env (driverResources state) of
                       Some err \<Rightarrow> (w1, Inl err)
                     | None \<Rightarrow>
                         (w1, Inr \<lparr>d_state = state, d_world = w1, d_known = None,
                                   d_published = driverResources state, d_registered = False,
                                   d_cancelled = None, d_healthcheck = hc, d_helper = True,
                                   d_scanning = (flags_deviceScanInterval config > 0)\<rparr>)))))"

text \<open>The record that says the driver is serving.\<close>

definition driverStarted :: "Config \<Rightarrow> DeviceState \<Rightarrow> LogRecord" where
  "driverStarted config s =
     (LevelInfo, ''Driver started'',
      [(''driverName'', DriverName), (''pool'', flags_nodeName config),
       (''deviceCount'', format_nat (length (allocatable s))),
       (''npuDeviceCount'', format_nat (length (npuDevices s))),
       (''vfioDeviceCount'', format_nat (length (vfioDevices s))),
       (''deviceScanInterval'', Duration_String (flags_deviceScanInterval config))])"

definition Shutdown :: "driver \<Rightarrow> driver" where
  "Shutdown d = d\<lparr>d_healthcheck := map_option healthStop (d_healthcheck d), d_helper := False\<rparr>"

text \<open>A history of the running driver: the events in order.\<close>

abbreviation runs :: "driver \<Rightarrow> event list \<Rightarrow> driver \<Rightarrow> bool" where
  "runs \<equiv> trace driver_step"

section \<open>Batches\<close>

text \<open>
  What the batch calls rely on: a call for one claim changes what is recorded of that claim only,
  and keeps the invariant.
\<close>

locale claim_service =
  fixes call :: "'c \<Rightarrow> 'w \<Rightarrow> 'w \<times> 'r"
    and key :: "'c \<Rightarrow> string"
    and view :: "'w \<Rightarrow> string \<Rightarrow> 'v"
    and inv :: "'w \<Rightarrow> bool"
    and good :: "'c \<Rightarrow> bool"
  assumes call_frame: "good c \<Longrightarrow> call c w = (w', r) \<Longrightarrow> uid \<noteq> key c \<Longrightarrow> view w' uid = view w uid"
    and call_inv: "good c \<Longrightarrow> inv w \<Longrightarrow> call c w = (w', r) \<Longrightarrow> inv w'"
begin

lemma batch_inv:
  "\<forall>c \<in> set cs. good c \<Longrightarrow> inv w \<Longrightarrow> batch call key cs w m = (w', m') \<Longrightarrow> inv w'"
proof (induction cs arbitrary: w m)
  case (Cons c cs)
  obtain w1 r where c: "call c w = (w1, r)" by fastforce
  with Cons.prems have "inv w1" using call_inv [OF _ _ c] by simp
  with Cons c show ?case by simp
qed simp

lemma batch_frame:
  "\<forall>c \<in> set cs. good c \<Longrightarrow> uid \<notin> key ` set cs \<Longrightarrow> batch call key cs w m = (w', m') \<Longrightarrow>
     view w' uid = view w uid \<and> gm_get m' uid = gm_get m uid"
proof (induction cs arbitrary: w m)
  case (Cons c cs)
  obtain w1 r where c: "call c w = (w1, r)" by fastforce
  with Cons.prems have "view w1 uid = view w uid" using call_frame [OF _ c, of uid] by simp
  with Cons c show ?case by simp
qed simp

lemma batch_result:
  assumes "\<forall>c \<in> set cs. good c" "inv w" "distinct (map key cs)" "batch call key cs w m = (w', m')" "c \<in> set cs"
  shows "\<exists>w1 w2 r. call c w1 = (w2, r) \<and> gm_get m' (key c) = Some r \<and> inv w1 \<and>
           view w1 (key c) = view w (key c) \<and> view w' (key c) = view w2 (key c)"
  using assms
proof (induction cs arbitrary: w m)
  case (Cons x cs)
  obtain w1 r where x: "call x w = (w1, r)" by fastforce
  then have rest: "batch call key cs w1 (gm_put (key x) r m) = (w', m')" using Cons.prems(4) by simp
  show ?case
  proof (cases "c = x")
    case True
    have "view w' (key x) = view w1 (key x) \<and> gm_get m' (key x) = Some r"
      using batch_frame [OF _ _ rest, of "key x"] Cons.prems(1,3) by simp
    with x True Cons.prems(2) show ?thesis by blast
  next
    case False
    then have c: "c \<in> set cs" "key c \<noteq> key x" using Cons.prems(3,5) by (auto simp: image_iff)
    have "inv w1" "view w1 (key c) = view w (key c)"
      using call_inv [OF _ Cons.prems(2) x] call_frame [OF _ x c(2)] Cons.prems(1) by auto
    with Cons.IH [OF _ _ _ rest c(1)] Cons.prems(1,3) show ?thesis by simp
  qed
qed simp

end

lemma prepareResourceClaim_Prepare:
  "prepareResourceClaim env s claim w = (w', r) \<Longrightarrow> \<exists>p. Prepare env s claim w = (w', p)"
  by (auto simp: prepareResourceClaim_def split: prod.splits sum.splits)

lemma unprepareResourceClaim_Unprepare:
  "unprepareResourceClaim env s uid w = (w', r) \<Longrightarrow> \<exists>e. Unprepare env s uid w = (w', e)"
  by (auto simp: unprepareResourceClaim_def split: prod.splits option.splits)

text \<open>A batch keeps the stores in order except for the claims of \<open>T\<close>, whose markers may be torn.\<close>

definition prepareGood :: "string set \<Rightarrow> (ResourceClaim \<Rightarrow> prep_env) \<Rightarrow> ResourceClaim \<Rightarrow> bool" where
  "prepareGood T env claim \<longleftrightarrow> claim_ok claim \<and>
     (claim_UID claim \<in> T \<or> whole_marker (kv_fs (env_kv (env claim))) metaBase (claim_UID claim))"

interpretation preparing: claim_service
  "\<lambda>claim. prepareResourceClaim (env claim) (state claim) claim" claim_UID "\<lambda>w uid. gm_get (w_claims w) uid"
  "stores_ok T" "prepareGood T env"
  for env state T
proof
  fix c w w' r uid
  assume "prepareGood T env c" "prepareResourceClaim (env c) (state c) c w = (w', r)" "uid \<noteq> claim_UID c"
  then show "gm_get (w_claims w') uid = gm_get (w_claims w) uid"
    using Prepare_other_claims prepareResourceClaim_Prepare by blast
next
  fix c w w' r
  assume "prepareGood T env c" "stores_ok T w" "prepareResourceClaim (env c) (state c) c w = (w', r)"
  then show "stores_ok T w'"
    using Prepare_world_ok(1) prepareResourceClaim_Prepare unfolding prepareGood_def by blast
qed

interpretation unpreparing: claim_service
  "\<lambda>uid. unprepareResourceClaim (env uid) (state uid) uid" "\<lambda>uid. uid" "\<lambda>w uid. gm_get (w_claims w) uid"
  "stores_ok T" "\<lambda>_. True"
  for env state T
proof
  fix c w w' r uid
  assume "unprepareResourceClaim (env c) (state c) c w = (w', r)" "uid \<noteq> c"
  then show "gm_get (w_claims w') uid = gm_get (w_claims w) uid"
    using Unprepare_other_claims unprepareResourceClaim_Unprepare by blast
next
  fix c w w' r
  assume "stores_ok T w" "unprepareResourceClaim (env c) (state c) c w = (w', r)"
  then show "stores_ok T w'"
    using Unprepare_world_ok(1) unprepareResourceClaim_Unprepare by blast
qed

section \<open>Invariants of the running driver\<close>

text \<open>
  The inventories that may be in effect after the ticks \<open>S\<close>: the one of startup, and those one of
  the ticks read completely.
\<close>

definition inventory :: "scan_tick set \<Rightarrow> DeviceState \<Rightarrow> Device list \<Rightarrow> Device list \<Rightarrow> bool" where
  "inventory S s0 npu vfio \<longleftrightarrow>
     npu = npuDevices s0 \<and> vfio = vfioDevices s0 \<or>
     (\<exists>t \<in> S. \<exists>known snap. snapshot_of (tick_env t) (state_sysfsRoot s0) known snap \<and> npu = snap_npu snap \<and> vfio = snap_vfio snap)"

text \<open>What is published is what is in effect, unless publishing just that failed.\<close>

definition published_after :: "scan_tick set \<Rightarrow> DeviceState \<Rightarrow> driver \<Rightarrow> bool" where
  "published_after S s0 d \<longleftrightarrow>
     (\<exists>npu vfio. inventory S s0 npu vfio \<and> d_published d = [(nodeName s0, [npu @ vfio])]) \<and>
     (d_published d = driverResources (d_state d) \<or> (\<exists>t \<in> S. tick_publish t (driverResources (d_state d)) \<noteq> None))"

definition driver_inv :: "scan_tick set \<Rightarrow> DeviceState \<Rightarrow> driver \<Rightarrow> bool" where
  "driver_inv S s0 d \<longleftrightarrow>
     consistent (d_state d) \<and> nodeName (d_state d) = nodeName s0 \<and> state_sysfsRoot (d_state d) = state_sysfsRoot s0 \<and>
     inventory S s0 (npuDevices (d_state d)) (vfioDevices (d_state d)) \<and> published_after S s0 d \<and>
     (d_known d = None \<or> d_known d = Some (knownBuses (d_state d)))"

text \<open>The ticks of a history are among \<open>S\<close>.\<close>

definition within :: "scan_tick set \<Rightarrow> event \<Rightarrow> bool" where
  "within S ev \<longleftrightarrow> (\<forall>t. ev = ScanEnd t \<longrightarrow> t \<in> S)"

lemma within_UNIV [simp]: "within UNIV = (\<lambda>_. True)"
  by (simp add: within_def fun_eq_iff)

definition ticks :: "event list \<Rightarrow> scan_tick set" where
  "ticks evs = {t. ScanEnd t \<in> set evs}"

lemma within_ticks [simp]: "list_all (within (ticks evs)) evs"
  by (auto simp: list_all_iff within_def ticks_def)

lemma observeScanDuration_frame:
  "npuDevices (fst (observeScanDuration a b s)) = npuDevices s"
  "vfioDevices (fst (observeScanDuration a b s)) = vfioDevices s"
  "nodeName (fst (observeScanDuration a b s)) = nodeName s"
  "state_sysfsRoot (fst (observeScanDuration a b s)) = state_sysfsRoot s"
  "driverResources (fst (observeScanDuration a b s)) = driverResources s"
  "allocatable (fst (observeScanDuration a b s)) = allocatable s"
  "consistent (fst (observeScanDuration a b s)) = consistent s"
  "sysfsFailing (scan (fst (observeScanDuration a b s))) = sysfsFailing (scan s)"
  "npuFailing (scan (fst (observeScanDuration a b s))) = npuFailing (scan s)"
  by (simp_all add: observeScanDuration_def Let_def)

lemma inventory_mono: "inventory S s0 npu vfio \<Longrightarrow> S \<subseteq> S' \<Longrightarrow> inventory S' s0 npu vfio"
  unfolding inventory_def by blast

lemma Rescan_inventory:
  assumes "state_sysfsRoot s = state_sysfsRoot s0" "inventory S s0 (npuDevices s) (vfioDevices s)" "t \<in> S"
  shows "inventory S s0 (npuDevices (rs_state (RescanDevices (tick_env t) s))) (vfioDevices (rs_state (RescanDevices (tick_env t) s)))"
proof (cases "rs_err (RescanDevices (tick_env t) s)")
  case None
  from RescanDevices_None [OF this] assms(1,3) show ?thesis unfolding inventory_def by metis
next
  case (Some err)
  from RescanDevices_Some(1) [OF this] assms(2) show ?thesis by auto
qed

lemma consistent_same_resources:
  "consistent s \<Longrightarrow> consistent s' \<Longrightarrow> nodeName s' = nodeName s \<Longrightarrow> npuDevices s' = npuDevices s \<Longrightarrow>
     vfioDevices s' = vfioDevices s \<Longrightarrow> driverResources s' = driverResources s"
  by (simp add: consistent_def)

lemma scan_publishes:
  assumes inv: "driver_inv S s0 d" and t: "t \<in> S" and r: "r = RescanDevices (tick_env t) (d_state d)"
  shows "published_after S s0 (d\<lparr>d_known := k, d_state := fst (observeScanDuration took interval (rs_state r)),
           d_published := fst (afterScan (tick_publish t) r (d_published d))\<rparr>)"
proof -
  have pre: "consistent (d_state d)" "nodeName (d_state d) = nodeName s0" "state_sysfsRoot (d_state d) = state_sysfsRoot s0"
    "inventory S s0 (npuDevices (d_state d)) (vfioDevices (d_state d))"
    and pub: "published_after S s0 d"
    using inv by (simp_all add: driver_inv_def)
  note fr = RescanDevices_frame [where e = "tick_env t" and s = "d_state d", folded r]
  show ?thesis
  proof (cases "rs_changed r")
    case False
    then have "driverResources (rs_state r) = driverResources (d_state d)"
      by (intro consistent_same_resources [OF pre(1) fr(4) [OF pre(1)] fr(1)]) (use fr(6) in auto)
    with False pub show ?thesis by (simp add: published_after_def afterScan_def observeScanDuration_frame)
  next
    case True
    then have e: "rs_err r = None" using RescanDevices_Some(2) r by (cases "rs_err r") auto
    have "rs_resources r = [(nodeName s0, [npuDevices (rs_state r) @ vfioDevices (rs_state r)])]"
      using fr(1,4,5) pre(1,2) by (simp add: consistent_def)
    moreover have "inventory S s0 (npuDevices (rs_state r)) (vfioDevices (rs_state r))"
      using Rescan_inventory [OF pre(3,4) t] r by simp
    ultimately show ?thesis
      using True e pub t fr(5)
      by (auto simp: published_after_def afterScan_def observeScanDuration_frame split: option.splits)
  qed
qed

lemma driver_inv_step:
  assumes "driver_inv S s0 d" "within S ev" "driver_step d ev d'"
  shows "driver_inv S s0 d'"
  using assms(3)
proof cases
  case (scan_end known t r interval)
  have k: "known = knownBuses (d_state d)" using assms(1) scan_end(3) by (simp add: driver_inv_def)
  then have r: "r = RescanDevices (tick_env t) (d_state d)" using scan_end(4) by (simp add: RescanDevices_def)
  have t: "t \<in> S" using assms(2) scan_end(1) by (simp add: within_def)
  have pre: "consistent (d_state d)" "nodeName (d_state d) = nodeName s0" "state_sysfsRoot (d_state d) = state_sysfsRoot s0"
    "inventory S s0 (npuDevices (d_state d)) (vfioDevices (d_state d))"
    using assms(1) by (simp_all add: driver_inv_def)
  show ?thesis
    using Rescan_inventory [OF pre(3,4) t] RescanDevices_frame [where e = "tick_env t" and s = "d_state d"] pre
      scan_publishes [OF assms(1) t r] scan_end(2) r
    by (simp add: driver_inv_def observeScanDuration_frame)
qed (use assms(1) in \<open>auto simp: driver_inv_def published_after_def observeRegistration_def HandleError_def split: option.splits\<close>)

text \<open>The claim stores, up to torn markers.\<close>

lemma stores_ok_step:
  assumes "stores_ok T (d_world d)" "tears ev \<subseteq> T" "driver_step d ev d'"
  shows "stores_ok T (d_world d')"
  using assms(3)
proof cases
  case (prepare claim env w' r)
  then have m: "claim_UID claim \<in> T \<or> whole_marker (kv_fs (env_kv env)) metaBase (claim_UID claim)"
    using assms(2) by (auto split: if_splits)
  obtain p where "Prepare env (d_state d) claim (d_world d) = (w', p)" using prepareResourceClaim_Prepare prepare(4) by blast
  from Prepare_world_ok(1) [OF assms(1) prepare(3) m this] prepare(2) show ?thesis by simp
next
  case (unprepare env uid w' e)
  then have "stores_ok T w'"
    using Unprepare_world_ok(1) unprepareResourceClaim_Unprepare assms(1) by blast
  with unprepare(2) show ?thesis by simp
qed (use assms(1) in \<open>auto simp: HandleError_def observeRegistration_def split: option.splits\<close>)

lemma stores_ok_reset [simp]: "stores_ok T w \<Longrightarrow> stores_ok T (w\<lparr>w_claims := gm_empty\<rparr>)"
  by (simp add: stores_ok_def gm_empty_def)

text \<open>What a successful start leaves: a consistent state, published, on the world it was given.\<close>

lemma NewDriver_Inr:
  assumes "NewDriver env config w = (w', Inr d)"
  shows "NewDeviceState (de_startup env) config w = (w', Inr (d_state d))"
    and "d_world d = w'" "d_known d = None" "d_published d = driverResources (d_state d)"
    and "d_cancelled d = None" "d_helper d" "d_registered d = False"
    and "d_scanning d \<longleftrightarrow> flags_deviceScanInterval config > 0"
    and "startHealthcheck (de_Listen env) (de_NewClient env) config = Inr (d_healthcheck d)"
  using assms by (auto simp: NewDriver_def split: prod.splits sum.splits option.splits)

lemma NewDriver_claims:
  assumes "NewDriver env config w = (w', r)"
  shows "w_claims w' \<in> {w_claims w, gm_empty}" "w_fs w' = w_fs w" "w_specs w' = w_specs w"
    and "st_ListCheckpoints (de_startup env) = Inr cs \<Longrightarrow> DriverPluginCheckpointFile \<in> set cs \<Longrightarrow> w' = w"
proof -
  have "fst (NewDriver env config w) = fst (NewDeviceState (de_startup env) config w)"
    by (auto simp: NewDriver_def split: prod.splits sum.splits option.splits)
  then have "w' = fst (NewDeviceState (de_startup env) config w)" using assms by simp
  with NewDeviceState_outcome [of "de_startup env" config w]
  show "w_claims w' \<in> {w_claims w, gm_empty}" "w_fs w' = w_fs w" "w_specs w' = w_specs w"
    and "st_ListCheckpoints (de_startup env) = Inr cs \<Longrightarrow> DriverPluginCheckpointFile \<in> set cs \<Longrightarrow> w' = w"
    by (auto split: sum.splits if_splits)
qed

text \<open>The checkpoint manager lists no checkpoint, so a start creates an empty one.\<close>

definition no_checkpoint :: "driver_env \<Rightarrow> bool" where
  "no_checkpoint env \<longleftrightarrow>
     (case st_ListCheckpoints (de_startup env) of Inl _ \<Rightarrow> False | Inr cs \<Rightarrow> DriverPluginCheckpointFile \<notin> set cs)"

lemma NewDriver_world:
  assumes "NewDriver env config w = (w', r)"
  shows "w' = w \<or> no_checkpoint env \<and> w' = w\<lparr>w_claims := gm_empty\<rparr>"
proof -
  have "fst (NewDriver env config w) = fst (NewDeviceState (de_startup env) config w)"
    by (auto simp: NewDriver_def split: prod.splits sum.splits option.splits)
  with assms NewDeviceState_outcome [of "de_startup env" config w] show ?thesis
    by (auto simp: no_checkpoint_def split: sum.splits if_splits)
qed

text \<open>With a checkpoint in place, what a start does to its world does not depend on it.\<close>

lemma NewDriver_other_world:
  assumes "NewDriver env config w = (w, Inr d)"
    and "st_ListCheckpoints (de_startup env) = Inr cs" "DriverPluginCheckpointFile \<in> set cs"
  shows "NewDriver env config v = (v, Inr (d\<lparr>d_world := v\<rparr>))"
  using assms by (auto simp: NewDriver_def NewDeviceState_def Let_def split: prod.splits sum.splits option.splits)

lemma NewDriver_inv:
  assumes "NewDriver env config w = (w', Inr d)"
  shows "driver_inv S (d_state d) d"
  using NewDeviceState_Inr(1) [OF NewDriver_Inr(1) [OF assms]] NewDriver_Inr(3,4) [OF assms]
  by (auto simp: driver_inv_def published_after_def inventory_def consistent_def)

lemma NewDriver_stores:
  assumes "NewDriver env config w = (w', r)" "stores_ok T w"
  shows "stores_ok T w'"
  using NewDriver_claims(1-3) [OF assms(1)] assms(2) by (auto simp: stores_ok_def gm_empty_def)

interpretation invariant: kept driver_step "within S" "driver_inv S s0" for S s0
  by unfold_locales (rule driver_inv_step)

interpretation stores: kept driver_step "\<lambda>ev. tears ev \<subseteq> T" "\<lambda>d. stores_ok T (d_world d)" for T
  by unfold_locales (rule stores_ok_step)

lemma running_inv:
  assumes "runs d0 evs d" "NewDriver env config w = (w', Inr d0)"
  shows "driver_inv (ticks evs) (d_state d0) d"
  by (rule invariant.trace_inv [OF assms(1) NewDriver_inv [OF assms(2)]]) simp

lemma running_stores:
  assumes "runs d0 evs d" "NewDriver env config w = (w', Inr d0)" "world_ok w"
  shows "stores_ok (torn evs) (d_world d)"
proof (rule stores.trace_inv [OF assms(1)])
  show "stores_ok (torn evs) (d_world d0)"
    using stores_ok_mono [OF NewDriver_stores [OF assms(2,3)]] NewDriver_Inr(2) [OF assms(2)] by simp
  show "list_all (\<lambda>ev. tears ev \<subseteq> torn evs) evs" by (auto simp: list_all_iff torn_def)
qed

lemma inventory_buses:
  "inventory S s0 npu vfio \<Longrightarrow> distinct (map lowerBus (npuDevices s0 @ vfioDevices s0)) \<Longrightarrow>
     distinct (map lowerBus (npu @ vfio))"
  unfolding inventory_def snapshot_of_def by metis

text \<open>
  The device lists of a state are those of the last tick of the history that read the host
  completely; before the first one, those of startup.
\<close>

definition last_reading :: "DeviceState \<Rightarrow> event list \<Rightarrow> DeviceState \<Rightarrow> bool" where
  "last_reading s0 evs s \<longleftrightarrow>
     (\<exists>early late.
        evs = early @ late \<and>
        (early = [] \<and> npuDevices s = npuDevices s0 \<and> vfioDevices s = vfioDevices s0 \<or>
         (\<exists>pre t known snap. early = pre @ [ScanEnd t] \<and> snapshot_of (tick_env t) (state_sysfsRoot s0) known snap \<and>
            npuDevices s = snap_npu snap \<and> vfioDevices s = snap_vfio snap)) \<and>
        (\<forall>t snap. ScanEnd t \<in> set late \<longrightarrow> \<not> snapshot_of (tick_env t) (state_sysfsRoot s0) (knownBuses s) snap))"

lemma last_reading_idle:
  assumes "last_reading s0 evs s" "npuDevices s' = npuDevices s" "vfioDevices s' = vfioDevices s" "allocatable s' = allocatable s"
    and "\<And>t snap. ev = ScanEnd t \<Longrightarrow> \<not> snapshot_of (tick_env t) (state_sysfsRoot s0) (knownBuses s) snap"
  shows "last_reading s0 (evs @ [ev]) s'"
proof -
  from assms(1) obtain early late where ev: "evs = early @ late"
    and e: "early = [] \<and> npuDevices s = npuDevices s0 \<and> vfioDevices s = vfioDevices s0 \<or>
         (\<exists>pre t known snap. early = pre @ [ScanEnd t] \<and> snapshot_of (tick_env t) (state_sysfsRoot s0) known snap \<and>
            npuDevices s = snap_npu snap \<and> vfioDevices s = snap_vfio snap)"
    and l: "\<forall>t snap. ScanEnd t \<in> set late \<longrightarrow> \<not> snapshot_of (tick_env t) (state_sysfsRoot s0) (knownBuses s) snap"
    unfolding last_reading_def by (elim exE conjE) (rule that)
  have "\<forall>t snap. ScanEnd t \<in> set (late @ [ev]) \<longrightarrow> \<not> snapshot_of (tick_env t) (state_sysfsRoot s0) (knownBuses s') snap"
    using l assms(4,5) by (auto simp: knownBuses_def)
  with ev e show ?thesis unfolding last_reading_def assms(2,3) by (intro exI [of _ early] exI [of _ "late @ [ev]"]) simp
qed

lemma runs_last_reading:
  assumes "runs d0 evs d" "driver_inv {} (d_state d0) d0"
  shows "last_reading (d_state d0) evs (d_state d)"
  using assms
proof (induction rule: trace.induct)
  case start
  show ?case by (simp add: last_reading_def)
next
  case (step evs d1 ev d2)
  note lr = step.IH [OF step.prems]
  have "driver_inv UNIV (d_state d0) d0"
    using step.prems inventory_mono [of "{}"] unfolding driver_inv_def published_after_def by blast
  from invariant.trace_inv [OF step.hyps(1) this] have inv: "driver_inv UNIV (d_state d0) d1" by (simp add: list_all_iff)
  from step.hyps(2) show ?case
  proof cases
    case (scan_end known t r interval)
    have root: "state_sysfsRoot (d_state d1) = state_sysfsRoot (d_state d0)" using inv by (simp add: driver_inv_def)
    have r: "r = RescanDevices (tick_env t) (d_state d1)"
      using inv scan_end(3,4) by (simp add: driver_inv_def RescanDevices_def)
    show ?thesis
    proof (cases "rs_err r")
      case None
      then obtain snap where "snapshot_of (tick_env t) (state_sysfsRoot (d_state d0)) (knownBuses (d_state d1)) snap"
        "npuDevices (rs_state r) = snap_npu snap" "vfioDevices (rs_state r) = snap_vfio snap"
        using RescanDevices_None r root by metis
      with scan_end(1,2) show ?thesis
        unfolding last_reading_def
        by (intro exI [of _ "evs @ [ScanEnd t]"] exI [of _ "[]"]) (auto simp: observeScanDuration_frame)
    next
      case (Some err)
      obtain st where st: "rs_state r = (d_state d1)\<lparr>scan := st\<rparr>" using RescanDevices_Some(1) Some r by blast
      have "\<not> snapshot_of (tick_env t) (state_sysfsRoot (d_state d0)) (knownBuses (d_state d1)) snap" for snap
        using RescanDevices_incomplete [OF Some [unfolded r]] root by simp
      with scan_end(1,2) st show ?thesis
        by (intro last_reading_idle [OF lr]) (auto simp: observeScanDuration_frame)
    qed
  qed (use last_reading_idle [OF lr] in \<open>auto simp: HandleError_def observeRegistration_def split: option.splits\<close>)
qed

text \<open>
  A cancelled driver stays cancelled, with its first cause; the services of a running driver are
  those of its start.
\<close>

lemma cancelled_once: "driver_step d ev d' \<Longrightarrow> d_cancelled d = Some err \<Longrightarrow> d_cancelled d' = Some err"
  by (auto elim!: driver_stepE simp: HandleError_def observeRegistration_def split: option.splits)

lemma runs_cancelled: "runs d evs d' \<Longrightarrow> d_cancelled d = Some err \<Longrightarrow> d_cancelled d' = Some err"
  by (induction rule: trace.induct) (auto dest: cancelled_once)

lemma step_services:
  "driver_step d ev d' \<Longrightarrow> d_healthcheck d' = d_healthcheck d \<and> d_helper d' = d_helper d \<and> d_scanning d' = d_scanning d"
  by (auto elim!: driver_stepE simp: HandleError_def observeRegistration_def split: option.splits if_splits)

lemma runs_services:
  "runs d evs d' \<Longrightarrow> d_healthcheck d' = d_healthcheck d \<and> d_helper d' = d_helper d \<and> d_scanning d' = d_scanning d"
  by (induction rule: trace.induct) (auto dest: step_services)

section \<open>Recorded claims\<close>

text \<open>What a successful call for a claim answers is what the checkpoint holds of it afterwards.\<close>

definition answerOf :: "PreparedDevices \<Rightarrow> PrepareResult" where
  "answerOf pds = \<lparr>pr_Devices = map kubeletDevice (GetDevices pds), pr_Err = None\<rparr>"

lemma prepareResourceClaim_recorded:
  assumes "prepareResourceClaim env s claim w = (w', r)" "pr_Err r = None"
  shows "r = answerOf (recorded (w_claims w') (claim_UID claim))"
proof -
  obtain ds where p: "Prepare env s claim w = (w', Inr ds)" and r: "r = \<lparr>pr_Devices = map kubeletDevice ds, pr_Err = None\<rparr>"
    using assms by (auto simp: prepareResourceClaim_def split: prod.splits sum.splits)
  have "ds = GetDevices (recorded (w_claims w') (claim_UID claim))"
  proof (cases "recorded (w_claims w) (claim_UID claim) = []")
    case True
    obtain pds where "w_claims w' = gm_put (claim_UID claim) pds (w_claims w)" "ds = GetDevices pds"
      using Prepare_fresh_world [OF p True] by metis
    then show ?thesis by (simp add: recorded_def)
  next
    case False
    have "GetCheckpoint_err env = None" using p by (auto simp: Prepare_def Let_def split: option.splits)
    with Prepare_replay [of env w claim s] False p show ?thesis by simp
  qed
  with r show ?thesis by (simp add: answerOf_def)
qed

text \<open>Only unpreparing it takes a recorded claim out of the checkpoint.\<close>

lemma step_keeps_record:
  assumes "driver_step d ev d'" "recorded (w_claims (d_world d)) uid \<noteq> []" "\<And>env. ev \<noteq> UnprepareClaim env uid"
  shows "recorded (w_claims (d_world d')) uid = recorded (w_claims (d_world d)) uid"
  using assms(1)
proof cases
  case (prepare claim env w' r)
  obtain p where P: "Prepare env (d_state d) claim (d_world d) = (w', p)"
    using prepareResourceClaim_Prepare prepare(4) by blast
  show ?thesis
  proof (cases "uid = claim_UID claim")
    case True
    then have "w' = d_world d" using Prepare_early [of env "d_world d" claim "d_state d"] assms(2) P by simp
    with prepare(2) show ?thesis by simp
  next
    case False
    with Prepare_other_claims [OF P False] prepare(2) show ?thesis by (simp add: recorded_def)
  qed
next
  case (unprepare env uid' w' e)
  then obtain e' where "Unprepare env (d_state d) uid' (d_world d) = (w', e')" "uid \<noteq> uid'"
    using unprepareResourceClaim_Unprepare assms(3) unprepare(1) by blast
  from Unprepare_other_claims [OF this] unprepare(2) show ?thesis by (simp add: recorded_def)
qed (auto simp: HandleError_def observeRegistration_def split: option.splits)

lemma runs_keep_record:
  assumes "runs d evs d'" "recorded (w_claims (d_world d)) uid \<noteq> []" "\<And>env. UnprepareClaim env uid \<notin> set evs"
  shows "recorded (w_claims (d_world d')) uid = recorded (w_claims (d_world d)) uid"
  using assms
proof (induction rule: trace.induct)
  case (step evs d1 ev d2)
  then show ?case using step_keeps_record [OF step.hyps(2), of uid] by auto
qed simp

end
