(* ===== verification/Webhook.thy ===== *)
theory Webhook
  imports Logging
begin

text \<open>
  \<open>cmd/webhook\<close>: the validating admission webhook. The Kubernetes codec and scheme are library
  code: \<open>webhook_env\<close> answers the decoding of a review, the decoding of a raw object into an object
  of a given version, the conversion to \<open>v1\<close>, the text \<open>fmt\<close> gives for a resource, and the
  marshalling of the answer. Objects are of any type \<open>'o\<close>, converted claims of any type \<open>'c\<close> and
  templates of any type \<open>'t\<close>.
\<close>

record GroupVersionResource =
  gvr_Group :: string
  gvr_Version :: string
  gvr_Resource :: string

definition resourceClaimResourceV1 :: GroupVersionResource where
  "resourceClaimResourceV1 = \<lparr>gvr_Group = ''resource.k8s.io'', gvr_Version = ''v1'', gvr_Resource = ''resourceclaims''\<rparr>"

definition resourceClaimTemplateResourceV1 :: GroupVersionResource where
  "resourceClaimTemplateResourceV1 =
     \<lparr>gvr_Group = ''resource.k8s.io'', gvr_Version = ''v1'', gvr_Resource = ''resourceclaimtemplates''\<rparr>"

definition resourceClaimResourceV1Beta1 :: GroupVersionResource where
  "resourceClaimResourceV1Beta1 =
     \<lparr>gvr_Group = ''resource.k8s.io'', gvr_Version = ''v1beta1'', gvr_Resource = ''resourceclaims''\<rparr>"

definition resourceClaimTemplateResourceV1Beta1 :: GroupVersionResource where
  "resourceClaimTemplateResourceV1Beta1 =
     \<lparr>gvr_Group = ''resource.k8s.io'', gvr_Version = ''v1beta1'', gvr_Resource = ''resourceclaimtemplates''\<rparr>"

definition resourceClaimResourceV1Beta2 :: GroupVersionResource where
  "resourceClaimResourceV1Beta2 =
     \<lparr>gvr_Group = ''resource.k8s.io'', gvr_Version = ''v1beta2'', gvr_Resource = ''resourceclaims''\<rparr>"

definition resourceClaimTemplateResourceV1Beta2 :: GroupVersionResource where
  "resourceClaimTemplateResourceV1Beta2 =
     \<lparr>gvr_Group = ''resource.k8s.io'', gvr_Version = ''v1beta2'', gvr_Resource = ''resourceclaimtemplates''\<rparr>"

lemmas gvr_defs =
  resourceClaimResourceV1_def resourceClaimTemplateResourceV1_def resourceClaimResourceV1Beta1_def
  resourceClaimTemplateResourceV1Beta1_def resourceClaimResourceV1Beta2_def resourceClaimTemplateResourceV1Beta2_def

text \<open>The Go types a raw object is decoded into.\<close>

datatype goType =
    ResourceClaimV1 | ResourceClaimV1Beta1 | ResourceClaimV1Beta2
  | ResourceClaimTemplateV1 | ResourceClaimTemplateV1Beta1 | ResourceClaimTemplateV1Beta2

record AdmissionRequest =
  req_UID :: string
  req_Resource :: GroupVersionResource
  req_Raw :: string

text \<open>What the universal deserializer returns: a review, with or without a request, or another type.\<close>

datatype decoded = ReviewObject "AdmissionRequest option" | OtherObject string

record GroupVersionKind =
  gvk_Group :: string
  gvk_Version :: string
  gvk_Kind :: string

definition admissionReviewKind :: GroupVersionKind where
  "admissionReviewKind = \<lparr>gvk_Group = ''admission.k8s.io'', gvk_Version = ''v1'', gvk_Kind = ''AdmissionReview''\<rparr>"

text \<open>An answer; the message of its result is kept as the error whose text it is.\<close>

record AdmissionResponse =
  resp_UID :: string
  resp_Allowed :: bool
  resp_Message :: "goerr option"
  resp_Reason :: "string option"

record ('o, 'c, 't) webhook_env =
  codec_Decode :: "string \<Rightarrow> (decoded \<times> GroupVersionKind) result"
  codec_DecodeInto :: "goType \<Rightarrow> string \<Rightarrow> 'o result"
  scheme_ConvertClaim :: "'o \<Rightarrow> 'c result"
  scheme_ConvertTemplate :: "'o \<Rightarrow> 't result"
  fmt_Resource :: "GroupVersionResource \<Rightarrow> string"
  marshal_Review :: "GroupVersionKind \<Rightarrow> AdmissionResponse \<Rightarrow> string result"

definition extractResourceClaim :: "('o, 'c, 't) webhook_env \<Rightarrow> AdmissionRequest \<Rightarrow> 'c result" where
  "extractResourceClaim env req =
     (let into = (if req_Resource req = resourceClaimResourceV1 then Some ResourceClaimV1
                  else if req_Resource req = resourceClaimResourceV1Beta1 then Some ResourceClaimV1Beta1
                  else if req_Resource req = resourceClaimResourceV1Beta2 then Some ResourceClaimV1Beta2
                  else None)
      in case into of
           None \<Rightarrow> Inl (Errorf ''unsupported resource version: %s'' [fmt_Resource env (req_Resource req)])
         | Some ty \<Rightarrow>
             (case codec_DecodeInto env ty (req_Raw req) of
                Inl err \<Rightarrow> Inl err
              | Inr obj \<Rightarrow>
                  (case scheme_ConvertClaim env obj of
                     Inl err \<Rightarrow> Inl (Wrapf ''failed to convert to v1: %w'' [] err)
                   | Inr v1Claim \<Rightarrow> Inr v1Claim)))"

definition extractResourceClaimTemplate :: "('o, 'c, 't) webhook_env \<Rightarrow> AdmissionRequest \<Rightarrow> 't result" where
  "extractResourceClaimTemplate env req =
     (let into = (if req_Resource req = resourceClaimTemplateResourceV1 then Some ResourceClaimTemplateV1
                  else if req_Resource req = resourceClaimTemplateResourceV1Beta1 then Some ResourceClaimTemplateV1Beta1
                  else if req_Resource req = resourceClaimTemplateResourceV1Beta2 then Some ResourceClaimTemplateV1Beta2
                  else None)
      in case into of
           None \<Rightarrow> Inl (Errorf ''unsupported resource version: %s'' [fmt_Resource env (req_Resource req)])
         | Some ty \<Rightarrow>
             (case codec_DecodeInto env ty (req_Raw req) of
                Inl err \<Rightarrow> Inl err
              | Inr obj \<Rightarrow>
                  (case scheme_ConvertTemplate env obj of
                     Inl err \<Rightarrow> Inl (Wrapf ''failed to convert to v1: %w'' [] err)
                   | Inr v1Template \<Rightarrow> Inr v1Template)))"

definition badRequest :: "goerr \<Rightarrow> AdmissionResponse" where
  "badRequest message =
     \<lparr>resp_UID = [], resp_Allowed = False, resp_Message = Some message, resp_Reason = Some ''BadRequest''\<rparr>"

text \<open>\<open>%v\<close> of the resources that are served.\<close>

definition servedResources :: "GroupVersionResource list" where
  "servedResources =
     [resourceClaimResourceV1, resourceClaimResourceV1Beta1, resourceClaimResourceV1Beta2,
      resourceClaimTemplateResourceV1, resourceClaimTemplateResourceV1Beta1, resourceClaimTemplateResourceV1Beta2]"

definition fmt_Resources :: "(GroupVersionResource \<Rightarrow> string) \<Rightarrow> GroupVersionResource list \<Rightarrow> string" where
  "fmt_Resources f rs = ''['' @ Join_with '' '' (map f rs) @ '']''"

definition admitResourceClaimParameters :: "('o, 'c, 't) webhook_env \<Rightarrow> AdmissionRequest \<Rightarrow> AdmissionResponse" where
  "admitResourceClaimParameters env req =
     (let allowed = \<lparr>resp_UID = [], resp_Allowed = True, resp_Message = None, resp_Reason = None\<rparr> in
      if req_Resource req \<in> {resourceClaimResourceV1, resourceClaimResourceV1Beta1, resourceClaimResourceV1Beta2}
      then (case extractResourceClaim env req of Inl extractErr \<Rightarrow> badRequest extractErr | Inr _ \<Rightarrow> allowed)
      else if req_Resource req \<in> {resourceClaimTemplateResourceV1, resourceClaimTemplateResourceV1Beta1,
                                  resourceClaimTemplateResourceV1Beta2}
      then (case extractResourceClaimTemplate env req of Inl extractErr \<Rightarrow> badRequest extractErr | Inr _ \<Rightarrow> allowed)
      else badRequest (Errorf ''expected resource to be one of %v, got %s''
             [fmt_Resources (fmt_Resource env) servedResources, fmt_Resource env (req_Resource req)]))"

definition readAdmissionReview ::
    "('o, 'c, 't) webhook_env \<Rightarrow> string \<Rightarrow> (AdmissionRequest \<times> GroupVersionKind) result" where
  "readAdmissionReview env data =
     (case codec_Decode env data of
        Inl err \<Rightarrow> Inl (Wrapf ''request could not be decoded: %w'' [] err)
      | Inr (obj, gvk) \<Rightarrow>
          if gvk \<noteq> admissionReviewKind then Inl (Errorf ''unsupported group version kind: %v'' [gvk_Kind gvk])
          else (case obj of
                  OtherObject ty \<Rightarrow> Inl (Errorf ''expected v1.AdmissionReview but got: %T'' [ty])
                | ReviewObject None \<Rightarrow> Inl (Errorf ''AdmissionReview carries no request'' [])
                | ReviewObject (Some req) \<Rightarrow> Inr (req, gvk)))"

text \<open>The answer of the handler: an error status, or a body with status 200.\<close>

datatype http_response = HttpError nat goerr | HttpOk string

definition StatusBadRequest :: nat where "StatusBadRequest = 400"
definition StatusUnsupportedMediaType :: nat where "StatusUnsupportedMediaType = 415"
definition StatusInternalServerError :: nat where "StatusInternalServerError = 500"

lemmas status_defs = StatusBadRequest_def StatusUnsupportedMediaType_def StatusInternalServerError_def

definition serve ::
    "('o, 'c, 't) webhook_env \<Rightarrow> (AdmissionRequest \<Rightarrow> AdmissionResponse) \<Rightarrow> string result option \<Rightarrow> string \<Rightarrow> http_response" where
  "serve env admit reqBody contentType =
     (case (case reqBody of None \<Rightarrow> Inr [] | Some r \<Rightarrow> r) of
        Inl err \<Rightarrow> HttpError StatusInternalServerError err
      | Inr body \<Rightarrow>
          if contentType \<noteq> ''application/json''
          then HttpError StatusUnsupportedMediaType
                 (Errorf ''contentType=%s, expected application/json'' [contentType])
          else (case readAdmissionReview env body of
                  Inl err \<Rightarrow> HttpError StatusBadRequest
                    (Wrapf ''failed to read AdmissionReview from request body: %v'' [] err)
                | Inr (req, gvk) \<Rightarrow>
                    let response = (admit req)\<lparr>resp_UID := req_UID req\<rparr> in
                    (case marshal_Review env gvk response of
                       Inl err \<Rightarrow> HttpError StatusInternalServerError err
                     | Inr respBytes \<Rightarrow> HttpOk respBytes)))"

definition serveResourceClaim :: "('o, 'c, 't) webhook_env \<Rightarrow> string result option \<Rightarrow> string \<Rightarrow> http_response" where
  "serveResourceClaim env = serve env (admitResourceClaimParameters env)"

definition readyHandler :: "goerr option \<Rightarrow> http_response" where
  "readyHandler writeErr =
     (case writeErr of Some err \<Rightarrow> HttpError StatusInternalServerError err | None \<Rightarrow> HttpOk ''ok'')"

definition newMux :: "('o, 'c, 't) webhook_env \<Rightarrow> string \<Rightarrow> string result option \<Rightarrow> string \<Rightarrow> http_response option" where
  "newMux env path reqBody contentType =
     (if path = ''/validate-resource-claim-parameters'' then Some (serveResourceClaim env reqBody contentType)
      else if path = ''/readyz'' then Some (readyHandler None)
      else None)"

section \<open>Admission\<close>

text \<open>The resource a request names, as the type its object has to decode into.\<close>

definition typeOf :: "GroupVersionResource \<Rightarrow> goType option" where
  "typeOf r = map_of
     [(resourceClaimResourceV1, ResourceClaimV1), (resourceClaimResourceV1Beta1, ResourceClaimV1Beta1),
      (resourceClaimResourceV1Beta2, ResourceClaimV1Beta2),
      (resourceClaimTemplateResourceV1, ResourceClaimTemplateV1),
      (resourceClaimTemplateResourceV1Beta1, ResourceClaimTemplateV1Beta1),
      (resourceClaimTemplateResourceV1Beta2, ResourceClaimTemplateV1Beta2)] r"

definition convertible :: "('o, 'c, 't) webhook_env \<Rightarrow> goType \<Rightarrow> 'o \<Rightarrow> bool" where
  "convertible env ty obj \<longleftrightarrow>
     (if ty \<in> {ResourceClaimV1, ResourceClaimV1Beta1, ResourceClaimV1Beta2}
      then \<not> isl (scheme_ConvertClaim env obj) else \<not> isl (scheme_ConvertTemplate env obj))"

definition acceptable :: "('o, 'c, 't) webhook_env \<Rightarrow> AdmissionRequest \<Rightarrow> bool" where
  "acceptable env req \<longleftrightarrow>
     (\<exists>ty obj. typeOf (req_Resource req) = Some ty \<and> codec_DecodeInto env ty (req_Raw req) = Inr obj \<and>
               convertible env ty obj)"

text \<open>Why a request that is not acceptable is rejected.\<close>

definition rejection :: "('o, 'c, 't) webhook_env \<Rightarrow> AdmissionRequest \<Rightarrow> goerr option" where
  "rejection env req =
     (case typeOf (req_Resource req) of
        None \<Rightarrow> Some (Errorf ''expected resource to be one of %v, got %s''
          [fmt_Resources (fmt_Resource env) servedResources, fmt_Resource env (req_Resource req)])
      | Some ty \<Rightarrow>
          (case codec_DecodeInto env ty (req_Raw req) of
             Inl err \<Rightarrow> Some err
           | Inr obj \<Rightarrow>
               map_option (Wrapf ''failed to convert to v1: %w'' [])
                 (if ty \<in> {ResourceClaimV1, ResourceClaimV1Beta1, ResourceClaimV1Beta2}
                  then (case scheme_ConvertClaim env obj of Inl err \<Rightarrow> Some err | Inr _ \<Rightarrow> None)
                  else (case scheme_ConvertTemplate env obj of Inl err \<Rightarrow> Some err | Inr _ \<Rightarrow> None))))"

lemmas admit_defs = admitResourceClaimParameters_def typeOf_def badRequest_def
  extractResourceClaim_def extractResourceClaimTemplate_def

lemma rejection_acceptable: "rejection env req = None \<longleftrightarrow> acceptable env req"
  by (auto simp: rejection_def acceptable_def convertible_def isl_def split: option.splits sum.splits)

lemma admit_answer:
  "admitResourceClaimParameters env req =
     (case rejection env req of
        None \<Rightarrow> \<lparr>resp_UID = [], resp_Allowed = True, resp_Message = None, resp_Reason = None\<rparr>
      | Some message \<Rightarrow> badRequest message)"
proof -
  consider "req_Resource req = resourceClaimResourceV1" | "req_Resource req = resourceClaimResourceV1Beta1"
    | "req_Resource req = resourceClaimResourceV1Beta2" | "req_Resource req = resourceClaimTemplateResourceV1"
    | "req_Resource req = resourceClaimTemplateResourceV1Beta1" | "req_Resource req = resourceClaimTemplateResourceV1Beta2"
    | "typeOf (req_Resource req) = None" "req_Resource req \<notin> {resourceClaimResourceV1, resourceClaimResourceV1Beta1,
         resourceClaimResourceV1Beta2, resourceClaimTemplateResourceV1, resourceClaimTemplateResourceV1Beta1,
         resourceClaimTemplateResourceV1Beta2}"
    by (auto simp: typeOf_def split: if_splits)
  then show ?thesis
  proof cases
    case 7
    then show ?thesis by (simp add: admitResourceClaimParameters_def rejection_def)
  qed (simp_all add: admit_defs rejection_def Let_def gvr_defs split: sum.splits)
qed

lemma serve_HttpOk:
  "serve env admit reqBody contentType = HttpOk bytes \<longleftrightarrow>
     contentType = ''application/json'' \<and>
     (\<exists>body req. (reqBody = None \<and> body = [] \<or> reqBody = Some (Inr body)) \<and>
        codec_Decode env body = Inr (ReviewObject (Some req), admissionReviewKind) \<and>
        marshal_Review env admissionReviewKind ((admit req)\<lparr>resp_UID := req_UID req\<rparr>) = Inr bytes)"
  by (cases reqBody)
     (auto simp: serve_def readAdmissionReview_def Let_def
       split: sum.splits if_splits decoded.splits option.splits)

end
