(* ===== verification/Scenario.thy ===== *)
theory Scenario
  imports Driver Webhook
begin

text \<open>
  One small node, used to show that the hypotheses of the theorems can be met: an NPU bound to
  vfio-pci at \<open>0000:3b:00.0\<close>, alone in IOMMU group 7, and an NPU bound to the native driver at
  \<open>0000:5e:00.0\<close>, which rbln-smi reports as \<open>rbln0\<close>. Sysfs is mounted at \<open>/s\<close>. The values the
  components compute on this node are evaluated here once.
\<close>

definition lookup :: "(string \<times> 'a) list \<Rightarrow> string \<Rightarrow> 'a result" where
  "lookup table p = (case map_of table p of Some v \<Rightarrow> Inr v | None \<Rightarrow> Inl (ErrNotExist p))"

definition ex_links :: "(string \<times> string) list" where
  "ex_links = [(''/s/0000:3b:00.0/driver'', ''../../bus/pci/drivers/vfio-pci''),
               (''/s/0000:3b:00.0/iommu_group'', ''../../kernel/iommu_groups/7''),
               (''/s/0000:5e:00.0/driver'', ''../../bus/pci/drivers/rebellions'')]"

definition ex_sysfs :: sysfs where
  "ex_sysfs =
     \<lparr>os_ReadDir = lookup [(''/s'', [''0000:3b:00.0'', ''0000:5e:00.0'']),
                           (''/s/0000:3b:00.0/iommu_group/devices'', [''0000:3b:00.0''])],
      os_ReadFile = lookup [(''/s/0000:3b:00.0/vendor'', ''0x1eff''), (''/s/0000:3b:00.0/class'', ''0x120000''),
                            (''/s/0000:3b:00.0/device'', ''0x1250''), (''/s/0000:5e:00.0/vendor'', ''0x1eff'')],
      os_Stat = lookup [(''/s/0000:3b:00.0'', ()), (''/s/0000:5e:00.0'', ())],
      os_Lstat = lookup (map (\<lambda>(p, v). (p, ())) ex_links),
      os_Readlink = lookup ex_links,
      os_EvalSymlinks = lookup []\<rparr>"

text \<open>A node whose sysfs cannot be read.\<close>

definition dead_sysfs :: sysfs where
  "dead_sysfs = \<lparr>os_ReadDir = lookup [], os_ReadFile = lookup [], os_Stat = lookup [], os_Lstat = lookup [],
                 os_Readlink = lookup [], os_EvalSymlinks = lookup []\<rparr>"

definition ex_smi :: smi_device where
  "ex_smi = \<lparr>smi_Name = ''rbln0'', smi_ProductName = ''RBLN-CA25'', smi_SID = ''s0'', smi_UUID = ''u0'',
             smi_PCIDeviceID = ''1250'', smi_PCIBusID = ''0000:5e:00.0'', smi_PCILinkSpeed = ''32GT/s'',
             smi_PCILinkWidth = ''16'', smi_FirmwareVersion = ''1.0'', smi_KMDVersion = ''2.0'',
             smi_PCINumaNode = ''N/A'', smi_MemoryTotalBytes = 16\<rparr>"

definition ex_vfio :: Device where
  "ex_vfio = vfioDevice ex_sysfs ''/s'' ''0000:3b:00.0'' ''vfio-0000-3b-00-0'' no_sriov 7"

definition ex_npu :: Device where
  "ex_npu = npuDevice ex_sysfs ''/s'' ex_smi no_sriov"

definition ex_scan :: scan_env where
  "ex_scan = \<lparr>view_vfio = ex_sysfs, view_count = ex_sysfs, view_npu = ex_sysfs, inventoryFn = Inr [ex_smi]\<rparr>"

definition dead_scan :: scan_env where
  "dead_scan = \<lparr>view_vfio = dead_sysfs, view_count = dead_sysfs, view_npu = dead_sysfs, inventoryFn = Inr []\<rparr>"

definition ex_handler :: CDIHandler where
  "ex_handler = \<lparr>cdi_root = ''/etc/cdi'', cdi_class = ''npu''\<rparr>"

definition empty_state :: DeviceState where
  "empty_state = rebuildResources
     \<lparr>nodeName = ''node'', cdi = ex_handler, driverResources = gm_empty, allocatable = gm_empty, npuDevices = [],
      vfioDevices = [], state_sysfsRoot = ''/s'', scan = \<lparr>sysfsFailing = False, npuFailing = False, slow = False\<rparr>\<rparr>"

definition ex_state :: DeviceState where
  "ex_state = rebuildResources (empty_state\<lparr>npuDevices := [ex_npu], vfioDevices := [ex_vfio]\<rparr>)"

lemma lookup_err: "lookup table p = Inl e \<Longrightarrow> e = ErrNotExist p"
  by (auto simp: lookup_def split: option.splits)

lemma ex_fields [simp]:
  "nodeName empty_state = ''node''" "state_sysfsRoot empty_state = ''/s''" "nodeName ex_state = ''node''"
  "view_vfio ex_scan = ex_sysfs" "view_count ex_scan = ex_sysfs" "view_npu ex_scan = ex_sysfs"
  "inventoryFn ex_scan = Inr [ex_smi]" "npuDevices ex_state = [ex_npu]" "vfioDevices ex_state = [ex_vfio]"
  by (simp_all add: empty_state_def ex_state_def ex_scan_def)

lemma ex_rescan_err: "rs_err (RescanDevices ex_scan empty_state) = None"
  by code_simp

lemma ex_rescan: "rs_state (RescanDevices ex_scan empty_state) = ex_state"
  by code_simp

lemma dead_rescan: "rs_err (RescanDevices dead_scan ex_state) = Some (Wrapf ''read %s: %w'' [''/s''] (ErrNotExist ''/s''))"
  by code_simp

section \<open>A claim\<close>

definition ex_cdi :: cdi_env where
  "ex_cdi =
     \<lparr>cdi_ReadFile = lookup [(''/etc/cdi/rbln.yaml'', ''runtime'')],
      yaml_Unmarshal = (\<lambda>_. Inr \<lparr>rt_Kind = ''rebellions.ai/npu'',
        rt_Devices = [\<lparr>rt_Name = ''runtime'', rt_Mounts = [], rt_Hooks = []\<rparr>]\<rparr>),
      cdiapi_ParseSpec = (\<lambda>_. Inr None),
      cdiapi_MinimumRequiredVersion = (\<lambda>_. Inr ''0.5.0''),
      cdiapi_GenerateNameForTransientSpec = (\<lambda>spec n. Inr (''common_'' @ n)),
      cdiapi_GenerateTransientSpecName = (\<lambda>v c uid. ''claim_'' @ uid),
      cdiapi_Append = (\<lambda>a b. b),
      cdiparser_QualifiedName = (\<lambda>v c n. v @ ''/'' @ c @ ''='' @ n),
      cache_WriteSpec_err = (\<lambda>spec n. None),
      cache_RemoveSpec_err = (\<lambda>n. None)\<rparr>"

definition ex_fs :: fs_env where
  "ex_fs = \<lparr>fs_fault = (\<lambda>c p. None), write_fault = (\<lambda>p. None), mkdir_done = (\<lambda>p. 0), remove_left = (\<lambda>k. True)\<rparr>"

definition ex_kv :: kv_env where
  "ex_kv = \<lparr>kv_fs = ex_fs, json_Marshal = (\<lambda>m. Inr ''{}''), order = (\<lambda>ks. ks)\<rparr>"

definition ex_env :: prep_env where
  "ex_env =
     \<lparr>GetCheckpoint_err = None, CreateCheckpoint_err = None, env_sysfs = ex_sysfs,
      rsdGroupFn = (\<lambda>ids. Inr ''/dev/rsd1''),
      env_dev = \<lparr>dev_Stat = (\<lambda>p t. Inr ()), stat_delay = (\<lambda>t. 0), sleep_overshoot = (\<lambda>t. 0)\<rparr>,
      env_cdi = ex_cdi, env_kv = ex_kv\<rparr>"

text \<open>The checkpoint cannot be written.\<close>

definition full_env :: prep_env where
  "full_env = ex_env\<lparr>CreateCheckpoint_err := Some (OsError ''write'' ''no space left on device'')\<rparr>"

definition ex_claim :: ResourceClaim where
  "ex_claim = \<lparr>claim_UID = ''c1'', claim_Namespace = ''ns'', claim_Name = ''claim'', claim_Annotations = gm_empty,
     claim_Allocation = Some
       [\<lparr>res_Request = ''vm'', res_Driver = DriverName, res_Pool = ''node'', res_Device = ''vfio-0000-3b-00-0''\<rparr>,
        \<lparr>res_Request = ''npu'', res_Driver = DriverName, res_Pool = ''node'', res_Device = ''rbln0''\<rparr>]\<rparr>"

definition ex_world :: world where
  "ex_world = \<lparr>w_claims = gm_empty, w_specs = gm_empty, w_fs = gm_empty\<rparr>"

definition ex_prepared :: world where
  "ex_prepared = fst (Prepare ex_env ex_state ex_claim ex_world)"

definition ex_devices :: "DRADevice list" where
  "ex_devices =
     [\<lparr>RequestNames = [''vm''], PoolName = ''node'', DeviceName = ''vfio-0000-3b-00-0'',
       CdiDeviceIds = [''k8s.npu.rebellions.ai/npu=c1-vfio-0000-3b-00-0'']\<rparr>,
      \<lparr>RequestNames = [''npu''], PoolName = ''node'', DeviceName = ''rbln0'',
       CdiDeviceIds = [''k8s.npu.rebellions.ai/npu=common'', ''k8s.npu.rebellions.ai/npu=c1-rbln0'']\<rparr>]"

lemma ex_prepare: "snd (Prepare ex_env ex_state ex_claim ex_world) = Inr ex_devices"
  by code_simp

lemma ex_prepare_full: "isl (snd (Prepare full_env ex_state ex_claim ex_world))"
  by code_simp

lemma ex_Prepare: "Prepare ex_env ex_state ex_claim ex_world = (ex_prepared, Inr ex_devices)"
  by (simp add: ex_prepared_def ex_prepare [symmetric])

lemma ex_unrecorded: "recorded (w_claims ex_world) (claim_UID ex_claim) = []"
  by (simp add: recorded_def ex_world_def)

lemma ex_recorded: "recorded (w_claims ex_prepared) ''c1'' \<noteq> []"
proof -
  obtain pds where "w_claims ex_prepared = gm_put (claim_UID ex_claim) pds (w_claims ex_world)" "ex_devices = GetDevices pds"
    using Prepare_fresh_world [OF ex_Prepare ex_unrecorded] by metis
  then show ?thesis by (auto simp: recorded_def ex_devices_def ex_claim_def)
qed

lemma ex_unprepare: "snd (Unprepare ex_env ex_state ''c1'' ex_prepared) = None"
  by code_simp

lemma ex_claim_ok: "claim_ok ex_claim"
  by code_simp

lemma ex_world_ok: "world_ok ex_world"
  by (simp add: stores_ok_def ex_world_def fs_ok_def markers_ok_def markerOf_def gm_keys_def gm_empty_def)

lemma ex_removal_works: "removal_works ex_fs"
  by (simp add: removal_works_def ex_fs_def)

lemma ex_whole_marker: "whole_marker ex_fs metaBase uid"
  by (simp add: whole_marker_def ex_fs_def)

lemma ex_kv_fs: "kv_fs (env_kv ex_env) = ex_fs" "kv_fs (env_kv full_env) = ex_fs"
  by (simp_all add: ex_env_def full_env_def ex_kv_def)

lemma ex_consistent: "consistent ex_state" "consistent empty_state"
  by (simp_all add: ex_state_def empty_state_def)

section \<open>A driver\<close>

definition ex_config :: Config where
  "ex_config = \<lparr>flags_nodeName = ''node'', flags_cdiRoot = ''/etc/cdi'', flags_kubeletRegistrarDirectoryPath = ''/r'',
     flags_kubeletPluginsDirectoryPath = ''/p'', flags_healthcheckPort = -1, flags_deviceScanInterval = 5,
     cfg_sysfsPCIDevicesRoot = ''/s''\<rparr>"

definition ex_startup :: startup_env where
  "ex_startup = \<lparr>st_scan = ex_scan, st_NewCache = Inr (), st_NewCheckpointManager_err = None,
                 st_ListCheckpoints = Inr [DriverPluginCheckpointFile], st_CreateCheckpoint_err = None\<rparr>"

definition ex_driver_env :: driver_env where
  "ex_driver_env = \<lparr>de_startup = ex_startup, de_Start_err = None, de_Listen = (\<lambda>a. None),
                    de_NewClient = (\<lambda>p. None), de_Publish = (\<lambda>r. None)\<rparr>"

definition ex_driver :: driver where
  "ex_driver = \<lparr>d_state = ex_state, d_world = ex_world, d_known = None, d_published = driverResources ex_state,
     d_registered = False, d_cancelled = None, d_healthcheck = None, d_helper = True, d_scanning = True\<rparr>"

lemma ex_NewDriver: "NewDriver ex_driver_env ex_config ex_world = (ex_world, Inr ex_driver)"
  by code_simp

lemma ex_runs: "runs ex_driver [BackgroundError] (HandleError (\<lambda>_. False) (ErrLib ''boom'') ex_driver)"
  by (rule trace_one [of driver_step, OF background_error])

text \<open>The kubelet prepares the claim.\<close>

lemma ex_runs_prepare: "runs ex_driver [PrepareClaim ex_env ex_claim] (ex_driver\<lparr>d_world := ex_prepared\<rparr>)"
proof -
  have "prepareResourceClaim ex_env (d_state ex_driver) ex_claim (d_world ex_driver) =
      (ex_prepared, \<lparr>pr_Devices = map kubeletDevice ex_devices, pr_Err = None\<rparr>)"
    by (simp add: prepareResourceClaim_def ex_driver_def ex_Prepare)
  from trace_one [of driver_step, OF prepare [OF ex_claim_ok this]] show ?thesis .
qed

lemma ex_tears [simp]: "tears (PrepareClaim ex_env claim) = {}"
  by (simp add: ex_kv_fs ex_whole_marker)

end
