(* ===== verification/Published.thy ===== *)
theory Published
  imports Vfio Inventory
begin

text \<open>
  The type of a published device: which attribute holds which kind of value, and which names the
  resource API accepts. Every step that fills an attribute map is shown to keep the type.
\<close>

section \<open>Attribute types\<close>

definition natKeys :: "string list" where
  "natKeys = [numaNodeAttributeKey, dranetNumaNodeAttributeKey]"

definition stringKeys :: "string list" where
  "stringKeys = [deviceNodeNameAttributeKey, deviceTypeAttributeKey, ''productName'', ''sid'', ''uuid'',
     ''pciDeviceID'', pciBusIDAttributeKey, ''pciLinkSpeed'', ''pciLinkWidth'', ''firmwareVersion'',
     ''driverVersion'', parentPCIBusIDAttributeKey, partitionModeAttributeKey]"

definition attr_typed :: "string \<Rightarrow> DeviceAttribute \<Rightarrow> bool" where
  "attr_typed k a \<longleftrightarrow>
     (if k = vfAttributeKey then \<exists>b. a = bool_attr b
      else if k = pcieRootAttributeKey then \<exists>v. a = string_attr v \<and> pciRoot v
      else if k \<in> set natKeys then \<exists>i. a = int_attr i \<and> 0 \<le> i \<and> i < 2 ^ 63
      else if k = iommuGroupAttributeKey \<or> k = numVFsAttributeKey then \<exists>i. a = int_attr i
      else k \<in> set stringKeys \<and> (\<exists>v. a = string_attr v))"

definition well_typed :: "attributes \<Rightarrow> bool" where
  "well_typed m \<longleftrightarrow> (\<forall>k a. gm_get m k = Some a \<longrightarrow> attr_typed k a)"

lemma well_typed_empty [simp]: "well_typed gm_empty"
  by (simp add: well_typed_def)

lemma well_typed_put [intro]: "well_typed m \<Longrightarrow> attr_typed k a \<Longrightarrow> well_typed (gm_put k a m)"
  by (simp add: well_typed_def)

lemma keys_distinct:
  "distinct ([vfAttributeKey, pcieRootAttributeKey] @ natKeys @ [iommuGroupAttributeKey, numVFsAttributeKey] @ stringKeys)"
  by code_simp

lemma attr_typed_values [simp]:
  "attr_typed vfAttributeKey (bool_attr b)"
  "attr_typed iommuGroupAttributeKey (int_attr i)" "attr_typed numVFsAttributeKey (int_attr i)"
  "k \<in> set stringKeys \<Longrightarrow> attr_typed k (string_attr v)"
  "pciRoot v \<Longrightarrow> attr_typed pcieRootAttributeKey (string_attr v)"
  "0 \<le> i \<Longrightarrow> i < 2 ^ 63 \<Longrightarrow> k \<in> set natKeys \<Longrightarrow> attr_typed k (int_attr i)"
  using keys_distinct by (auto simp: attr_typed_def)

lemma well_typed_setAttributes: "well_typed m \<Longrightarrow> well_typed (setAttributes s m)"
  by (auto simp: setAttributes_def Let_def stringKeys_def intro!: well_typed_put)

lemma well_typed_setNumaNodeAttr: "well_typed m \<Longrightarrow> well_typed (setNumaNodeAttr m n)"
  using ParseInt_range [of n]
  by (auto simp: setNumaNodeAttr_def Let_def natKeys_def intro!: well_typed_put split: option.splits)

lemma well_typed_setPCIERootAttr: "well_typed m \<Longrightarrow> well_typed (fst (setPCIERootAttr sy m root b))"
  by (auto simp: setPCIERootAttr_def resolvePCIERootID_def find_Some_iff intro!: well_typed_put split: sum.splits option.splits)

lemma well_typed_vfioProductAttrs: "well_typed m \<Longrightarrow> well_typed (vfioProductAttrs sy p m)"
  by (auto simp: vfioProductAttrs_def Let_def stringKeys_def intro!: well_typed_put split: sum.splits option.splits)

lemma well_typed_npuBaseAttrs: "well_typed (npuBaseAttrs x s)"
  by (auto simp: npuBaseAttrs_def stringKeys_def intro!: well_typed_put)

lemma well_typed_vfioDevice: "well_typed (Attributes (vfioDevice sy root b n s g))"
  by (auto simp: vfioDevice_def Let_def stringKeys_def intro!: well_typed_setAttributes well_typed_setNumaNodeAttr
      well_typed_setPCIERootAttr well_typed_vfioProductAttrs well_typed_put split: sum.split)

lemma well_typed_npuDevice: "well_typed (Attributes (npuDevice sy root x s))"
  by (auto simp: npuDevice_def Let_def intro!: well_typed_setAttributes well_typed_setNumaNodeAttr
      well_typed_setPCIERootAttr well_typed_npuBaseAttrs)

text \<open>The NUMA node is under both of its keys, with one value, or under neither.\<close>

definition numa_mirrored :: "attributes \<Rightarrow> bool" where
  "numa_mirrored m \<longleftrightarrow> gm_get m numaNodeAttributeKey = gm_get m dranetNumaNodeAttributeKey"

lemma numa_setNuma: "numa_mirrored m \<Longrightarrow> numa_mirrored (setNumaNodeAttr m n)"
  by (auto simp: numa_mirrored_def setNumaNodeAttr_def Let_def split: option.splits)

lemma numa_frames:
  "numa_mirrored m \<Longrightarrow> numa_mirrored (setAttributes s m)"
  "numa_mirrored m \<Longrightarrow> numa_mirrored (fst (setPCIERootAttr sy m root b))"
  "numa_mirrored m \<Longrightarrow> numa_mirrored (vfioProductAttrs sy p m)"
  by (simp_all add: numa_mirrored_def setAttributes_other setPCIERootAttr_other vfioProductAttrs_other attribute_keys)

lemma numa_npuDevice: "numa_mirrored (Attributes (npuDevice sy root x s))"
proof -
  have "numa_mirrored (npuBaseAttrs x s)" by (simp add: numa_mirrored_def npuBaseAttrs_def attribute_keys)
  then show ?thesis by (simp add: npuDevice_def Let_def numa_setNuma numa_frames)
qed

lemma numa_vfioDevice: "numa_mirrored (Attributes (vfioDevice sy root b n s g))"
  by (auto simp: vfioDevice_def Let_def intro!: numa_setNuma numa_frames split: sum.split)
     (simp_all add: numa_mirrored_def attribute_keys)

section \<open>Device names\<close>

text \<open>The resource API accepts DNS labels (RFC 1123) as device names.\<close>

definition label_char :: "char \<Rightarrow> bool" where
  "label_char c \<longleftrightarrow> is_digit c \<or> 97 \<le> (of_char c :: nat) \<and> (of_char c :: nat) \<le> 122"

definition dns_label :: "string \<Rightarrow> bool" where
  "dns_label s \<longleftrightarrow> s \<noteq> [] \<and> length s \<le> 63 \<and> list_all (\<lambda>c. label_char c \<or> c = CHR ''-'') s \<and>
     label_char (hd s) \<and> label_char (last s)"

lemma label_lower_hex: "is_hex c \<Longrightarrow> label_char (lower_char c)"
  by (auto simp: is_hex_def label_char_def is_digit_def lower_char_def Let_def)

lemma dns_label_append:
  assumes "dns_label a" "length a + length b \<le> 62" "b \<noteq> []" "list_all label_char b"
  shows "dns_label (a @ ''-'' @ b)"
  using assms by (auto simp: dns_label_def list_all_iff)

lemma dns_label_vfio:
  assumes "pciAddress b"
  shows "dns_label (vfioDeviceName b)"
proof -
  let ?f = "\<lambda>c. lower_char (if c = CHR '':'' \<or> c = CHR ''.'' then CHR ''-'' else c)"
  have n: "vfioDeviceName b = ''vfio-'' @ map ?f b" by (simp add: vfioDeviceName_def ToLower_def)
  have l: "length b = 12" by (rule pciAddress_length [OF assms])
  have ch: "label_char (?f c) \<or> ?f c = CHR ''-''" if "c \<in> set b" for c
    using pciAddress_chars [OF assms that] label_lower_hex [of c] by (auto simp: pci_char_def lower_char_def)
  have "(pciAddressRegexp ! 11) (b ! 11)"
    using assms by (auto simp: pciAddress_def match_classes_def list_all2_conv_all_nth)
  moreover have "pciAddressRegexp ! 11 = is_octal" by (simp add: pciAddressRegexp_def numeral_eq_Suc)
  moreover have "last b = b ! 11" using l by (subst last_conv_nth) auto
  ultimately have o: "is_octal (last b)" by simp
  then have "last b \<noteq> CHR '':'' \<and> last b \<noteq> CHR ''.''" by (auto simp: is_octal_def)
  then have "label_char (?f (last b))" using label_lower_hex [OF octal_is_hex [OF o]] by simp
  with ch show ?thesis
    using l unfolding n by (auto simp: dns_label_def list_all_iff label_char_def is_digit_def last_map)
qed

lemma layout_label:
  assumes "supported_layout b s" "isVF s"
  shows "length (partitionMode s) = 3 \<and> list_all label_char (partitionMode s)"
  using supported_VF_mode [OF assms] by (auto simp: label_char_def is_digit_def)

lemma dns_label_deviceName:
  assumes "dns_label n" "length n \<le> 59" "supported_layout b s"
  shows "dns_label (deviceName s n)"
proof (cases "isVF s")
  case True
  with layout_label [OF assms(3)] have m: "length (partitionMode s) = 3" "list_all label_char (partitionMode s)" by auto
  then show ?thesis using dns_label_append [OF assms(1), of "partitionMode s"] assms(2) True
    by (cases "partitionMode s") (auto simp: deviceName_def)
qed (use assms(1) in \<open>simp add: deviceName_def\<close>)

section \<open>Published devices\<close>

lemma npu_usable_well_formed:
  assumes "npu_usable sy root x d" "dns_label (smi_Name x)" "length (smi_Name x) \<le> 59"
  shows "well_typed (Attributes d) \<and> numa_mirrored (Attributes d) \<and> dns_label (Name d)"
proof -
  obtain s where d: "d = npuDevice sy root x s" and s: "probeSRIOV sy root (smi_PCIBusID x) = Inr s"
    using assms(1) by (auto simp: npu_usable_def Let_def)
  have n: "Name d = deviceName s (smi_Name x)" using d by (simp add: npuDevice_def Let_def)
  have "dns_label (Name d)" unfolding n using probeSRIOV_Inr [OF s] dns_label_deviceName [OF assms(2,3)] by blast
  then show ?thesis by (simp add: d well_typed_npuDevice numa_npuDevice)
qed

lemma vfio_usable_well_formed:
  assumes "vfio_usable sy root b d"
  shows "well_typed (Attributes d) \<and> numa_mirrored (Attributes d) \<and> dns_label (Name d)"
proof -
  obtain s g where b: "pciAddress b" and d: "d = vfioDevice sy root b (deviceName s (vfioDeviceName b)) s g"
    and s: "probeSRIOV sy root b = Inr s"
    using assms by (auto simp: vfio_usable_def Let_def)
  have "length (vfioDeviceName b) \<le> 59" using pciAddress_length [OF b] by (simp add: length_vfioDeviceName)
  with dns_label_deviceName [OF dns_label_vfio [OF b]] probeSRIOV_Inr [OF s]
  have "dns_label (deviceName s (vfioDeviceName b))" by blast
  then show ?thesis by (simp add: d well_typed_vfioDevice numa_vfioDevice)
qed

end
