(* ===== verification/Scan_Properties.thy ===== *)
theory Scan_Properties
  imports Scenario Published
begin

text \<open>
  The properties of discovery: what a scan publishes, what it keeps when it fails, what it logs,
  and that what it publishes can be prepared. Each is followed by an instance on the node of
  \<open>Scenario\<close>.
\<close>

abbreviation scanned :: "scan_env \<Rightarrow> DeviceState \<Rightarrow> DeviceState" where
  "scanned e s \<equiv> rs_state (RescanDevices e s)"

text \<open>
  C20. A failed scan discards the whole tick: apart from the flags behind its logging, the state is
  the one before the scan, nothing is reported as changed, and the resources returned are the
  last ones. Native devices of an old scan never stand next to passthrough devices of a new one.
\<close>

theorem failed_scan_keeps_inventory:
  assumes "rs_err (RescanDevices e s) = Some err"
  shows "scanned e s = s\<lparr>scan := scan (scanned e s)\<rparr> \<and> \<not> rs_changed (RescanDevices e s) \<and>
         rs_resources (RescanDevices e s) = driverResources s"
proof -
  obtain st where st: "scanned e s = s\<lparr>scan := st\<rparr>" using RescanDevices_Some(1) [OF assms] by blast
  then have "scanned e s = s\<lparr>scan := scan (scanned e s)\<rparr>" by simp
  with RescanDevices_Some(2,3) [OF assms] show ?thesis by blast
qed

theorem failed_scan_keeps_inventory_witness:
  "rs_resources (RescanDevices dead_scan ex_state) = driverResources ex_state"
  using failed_scan_keeps_inventory [OF dead_rescan] by simp

text \<open>
  C11. After a successful scan no PCI function is in the inventory twice, neither under one driver
  nor under both, whatever the host did between the reads of the tick.
\<close>

theorem scan_no_function_twice:
  assumes "rs_err (RescanDevices e s) = None"
  shows "distinct (map (\<lambda>d. ToLower (deviceStringAttr d pciBusIDAttributeKey))
                     (npuDevices (scanned e s) @ vfioDevices (scanned e s)))"
proof -
  obtain snap where "snapshot_of e (state_sysfsRoot s) (knownBuses s) snap"
    "npuDevices (scanned e s) = snap_npu snap" "vfioDevices (scanned e s) = snap_vfio snap"
    using RescanDevices_None [OF assms] by blast
  then show ?thesis by (simp add: snapshot_of_def lowerBus_def [abs_def])
qed

theorem scan_no_function_twice_witness:
  "distinct (map (\<lambda>d. ToLower (deviceStringAttr d pciBusIDAttributeKey)) (npuDevices ex_state @ vfioDevices ex_state))"
  using scan_no_function_twice [OF ex_rescan_err] by (simp only: ex_rescan)

text \<open>
  C10. A successful scan publishes exactly the usable functions. The passthrough devices are those
  entries of sysfs that are Rebellions NPUs bound to vfio-pci, host no VFs, have a supported
  layout and are alone in their IOMMU group; the native ones are those rbln-smi reports that are
  bound to the native driver with a supported layout and host no VFs. Each carries the values
  read in its own pass.
\<close>

theorem scan_publishes_usable:
  assumes "rs_err (RescanDevices e s) = None"
  shows "(\<exists>entries. os_ReadDir (view_vfio e) (state_sysfsRoot s) = Inr entries \<and>
            set (vfioDevices (scanned e s)) =
              {d. \<exists>b \<in> set entries. vfio_usable (view_vfio e) (state_sysfsRoot s) b d}) \<and>
         (\<exists>n. countNativeCandidates (view_count e) (state_sysfsRoot s) (knownBuses s) = Inr n \<and>
            (if n = 0 then npuDevices (scanned e s) = []
             else \<exists>xs. inventoryFn e = Inr xs \<and>
                    set (npuDevices (scanned e s)) = {d. \<exists>x \<in> set xs. npu_usable (view_npu e) (state_sysfsRoot s) x d}))"
proof -
  obtain snap where snap: "snapshot_of e (state_sysfsRoot s) (knownBuses s) snap"
    and inv: "npuDevices (scanned e s) = snap_npu snap" "vfioDevices (scanned e s) = snap_vfio snap"
    using RescanDevices_None [OF assms] by blast
  obtain vs where v: "enumerateVfioDevices (view_vfio e) (state_sysfsRoot s) (knownBuses s) = Inr (snap_vfio snap, vs)"
    using snap by (auto simp: snapshot_of_def)
  then obtain es where es: "os_ReadDir (view_vfio e) (state_sysfsRoot s) = Inr es"
    "enum_loop (vfioEntry (view_vfio e) (state_sysfsRoot s) (knownBuses s)) es [] [] = Inr (snap_vfio snap, vs)"
    by (auto simp: enumerateVfioDevices_def split: sum.splits)
  then have vf: "set (snap_vfio snap) = {d. \<exists>b \<in> set es. vfio_usable (view_vfio e) (state_sysfsRoot s) b d}"
    by (auto simp: enum_loop_Inr set_published vfioEntry_Publish)
  have c: "countNativeCandidates (view_count e) (state_sysfsRoot s) (knownBuses s) = Inr (snap_candidates snap)"
    using snap by (auto simp: snapshot_of_def)
  have "if snap_candidates snap = 0 then snap_npu snap = []
     else \<exists>xs. inventoryFn e = Inr xs \<and>
            set (snap_npu snap) = {d. \<exists>x \<in> set xs. npu_usable (view_npu e) (state_sysfsRoot s) x d}"
  proof (cases "snap_candidates snap = 0")
    case False
    then obtain ns where "enumerateNpuDevices (view_npu e) (state_sysfsRoot s) (inventoryFn e) = Inr (snap_npu snap, ns)"
      using snap by (auto simp: snapshot_of_def)
    then obtain xs where "inventoryFn e = Inr xs"
      "enum_loop (npuEntry (view_npu e) (state_sysfsRoot s)) xs [] [] = Inr (snap_npu snap, ns)"
      by (auto simp: enumerateNpuDevices_def npuDevicesFromInventory_def split: sum.splits)
    then show ?thesis using False by (auto simp: enum_loop_Inr set_published npuEntry_Publish)
  qed (use snap in \<open>auto simp: snapshot_of_def\<close>)
  with es(1) vf c inv show ?thesis by auto
qed

theorem scan_publishes_usable_witness:
  "\<exists>entries. os_ReadDir ex_sysfs ''/s'' = Inr entries \<and>
     set (vfioDevices ex_state) = {d. \<exists>b \<in> set entries. vfio_usable ex_sysfs ''/s'' b d}"
  using scan_publishes_usable [OF ex_rescan_err, THEN conjunct1]
  by (simp add: ex_rescan)

text \<open>
  C25. Given rbln-smi's naming (\<open>rbln0\<close>, \<open>rbln1\<close>, and so on, each once), the names of a scanned
  inventory are distinct, so that the map \<open>Prepare\<close> looks devices up in holds every published
  device under its published name.
\<close>

theorem scanned_devices_allocatable:
  assumes "rs_err (RescanDevices e s) = None" "consistent s"
    and "\<And>xs. inventoryFn e = Inr xs \<Longrightarrow> smi_named xs"
    and "d \<in> set (npuDevices (scanned e s) @ vfioDevices (scanned e s))"
  shows "distinct (map Name (npuDevices (scanned e s) @ vfioDevices (scanned e s))) \<and>
         gm_get (allocatable (scanned e s)) (Name d) = Some d"
proof -
  obtain snap where "snapshot_of e (state_sysfsRoot s) (knownBuses s) snap"
    "npuDevices (scanned e s) = snap_npu snap" "vfioDevices (scanned e s) = snap_vfio snap"
    using RescanDevices_None [OF assms(1)] by blast
  then have n: "distinct (map Name (npuDevices (scanned e s) @ vfioDevices (scanned e s)))"
    using snapshot_names [OF _ assms(3)] by simp
  have "allocatable (scanned e s) = indexDevices (npuDevices (scanned e s) @ vfioDevices (scanned e s))"
    using RescanDevices_frame(4) [OF assms(2), of e] by (simp add: consistent_def)
  with n indexDevices_distinct [OF n assms(4)] show ?thesis by simp
qed

theorem scanned_devices_allocatable_witness:
  "gm_get (allocatable ex_state) (Name ex_vfio) = Some ex_vfio"
proof -
  have named: "\<And>xs. inventoryFn ex_scan = Inr xs \<Longrightarrow> smi_named xs"
    by (auto simp: smi_named_def ex_smi_def)
  have "ex_vfio \<in> set (npuDevices (scanned ex_scan empty_state) @ vfioDevices (scanned ex_scan empty_state))"
    by (simp add: ex_rescan)
  from scanned_devices_allocatable [OF ex_rescan_err ex_consistent(2) named this] show ?thesis
    by (simp add: ex_rescan)
qed

text \<open>
  C26. Scanning a host that did not change is idempotent: of two successful scans of the same host
  the second changes nothing, so nothing is published again. In particular the buses the first
  scan made known do not change what the second one finds.
\<close>

theorem rescan_idempotent:
  assumes "rs_err (RescanDevices e s) = None" "rs_err (RescanDevices e (scanned e s)) = None"
  shows "\<not> rs_changed (RescanDevices e (scanned e s)) \<and>
         npuDevices (scanned e (scanned e s)) = npuDevices (scanned e s) \<and>
         vfioDevices (scanned e (scanned e s)) = vfioDevices (scanned e s)"
proof -
  let ?s1 = "scanned e s"
  obtain a where a: "snapshot_of e (state_sysfsRoot s) (knownBuses s) a"
    "npuDevices ?s1 = snap_npu a" "vfioDevices ?s1 = snap_vfio a"
    using RescanDevices_None [OF assms(1)] by blast
  obtain b where b: "snapshot_of e (state_sysfsRoot s) (knownBuses ?s1) b"
    "npuDevices (scanned e ?s1) = snap_npu b" "vfioDevices (scanned e ?s1) = snap_vfio b"
    using RescanDevices_None [OF assms(2)] RescanDevices_frame(2) [of e s] by auto
  have "npuDevices (scanned e ?s1) = npuDevices ?s1" "vfioDevices (scanned e ?s1) = vfioDevices ?s1"
    using snapshot_known_irrelevant [OF a(1) b(1)] a b by auto
  then show ?thesis using RescanDevices_frame(6) [of e ?s1] by simp
qed

theorem rescan_idempotent_witness: "\<not> rs_changed (RescanDevices ex_scan ex_state)"
proof -
  have "rs_err (RescanDevices ex_scan (scanned ex_scan empty_state)) = None"
    unfolding ex_rescan by code_simp
  from rescan_idempotent [OF ex_rescan_err this] show ?thesis by (simp add: ex_rescan)
qed

text \<open>
  C29. On a node where sysfs shows no function the native driver could expose, a scan does not
  depend on rbln-smi at all: with any other answer of rbln-smi, an error included, and any other
  state of the host during the native pass, it does the same.
\<close>

theorem passthrough_node_needs_no_smi:
  assumes "countNativeCandidates (view_count e) (state_sysfsRoot s) (knownBuses s) = Inr 0"
  shows "RescanDevices (e\<lparr>view_npu := v, inventoryFn := answer\<rparr>) s = RescanDevices e s"
proof -
  have "scanRead (e\<lparr>view_npu := v, inventoryFn := answer\<rparr>) (state_sysfsRoot s) (knownBuses s) (scan s) =
        scanRead e (state_sysfsRoot s) (knownBuses s) (scan s)"
    using assms by (auto simp: scanRead_def scanSysfs_def split: sum.splits)
  then show ?thesis by (simp add: RescanDevices_def finishScan_def)
qed

theorem passthrough_node_needs_no_smi_witness:
  "RescanDevices (ex_scan\<lparr>view_count := ex_sysfs\<lparr>os_ReadDir := \<lambda>_. Inr []\<rparr>, view_npu := dead_sysfs,
                   inventoryFn := Inl (ErrLib ''rbln-smi not found'')\<rparr>) empty_state =
   RescanDevices (ex_scan\<lparr>view_count := ex_sysfs\<lparr>os_ReadDir := \<lambda>_. Inr []\<rparr>\<rparr>) empty_state"
  by (rule passthrough_node_needs_no_smi) code_simp

text \<open>
  C28. The scan loop logs transitions, not ticks: a tick reports that sysfs cannot be read exactly
  when it cannot and the tick before could read it.
\<close>

theorem scan_failure_logged_once_per_streak:
  "failedRead \<in> set (rs_logs (RescanDevices e' (scanned e s))) \<longleftrightarrow>
     sysfs_fails e' (scanned e s) \<and> \<not> sysfs_fails e s"
proof -
  have flag: "sysfsFailing (scan (scanned e s)) = sysfs_fails e s" for e s
  proof -
    obtain st logs r where sr: "scanRead e (state_sysfsRoot s) (knownBuses s) (scan s) = (st, logs, r)"
      by (metis prod_cases3)
    have "scan (scanned e s) = st"
    proof (cases r)
      case (Inr snap)
      obtain s2 ch l where c: "scanCommit snap (s\<lparr>scan := st\<rparr>) = (s2, ch, l)" by (metis prod_cases3)
      with sr Inr scanCommit_spec [OF c] show ?thesis by (auto simp: RescanDevices_def finishScan_def)
    qed (use sr in \<open>simp add: RescanDevices_def finishScan_def\<close>)
    with scanRead_flags(1) [OF sr] show ?thesis by (simp add: sysfs_fails_def)
  qed
  have logged: "failedRead \<in> set (rs_logs (RescanDevices e s)) \<longleftrightarrow> sysfs_fails e s \<and> \<not> sysfsFailing (scan s)" for e s
  proof -
    obtain st logs r where sr: "scanRead e (state_sysfsRoot s) (knownBuses s) (scan s) = (st, logs, r)"
      by (metis prod_cases3)
    have "failedRead \<in> set (rs_logs (RescanDevices e s)) \<longleftrightarrow> failedRead \<in> set logs"
    proof (cases r)
      case (Inr snap)
      obtain s2 ch l where c: "scanCommit snap (s\<lparr>scan := st\<rparr>) = (s2, ch, l)" by (metis prod_cases3)
      with sr Inr commit_logs [OF c] show ?thesis by (auto simp: RescanDevices_def finishScan_def)
    qed (use sr in \<open>simp add: RescanDevices_def finishScan_def\<close>)
    with scanRead_flags(3) [OF sr] show ?thesis by (simp add: sysfs_fails_def)
  qed
  show ?thesis by (simp only: logged flag)
qed

text \<open>
  C21. The check before preparing and discovery agree on every host. A passthrough device that was
  once published passes the check, in any later view of sysfs, exactly if enumerating its function
  in that view publishes a device with the same binding: the same name, address, partition layout,
  parent and IOMMU group; the class is the one thing enumeration reads and the check does not. A
  native device passes exactly if its function is enumerated again with the same name, address,
  layout and parent; the vendor is the one thing the check reads and its enumeration does not.
  Other attributes, such as the UUID or the product, may differ.
\<close>

theorem validation_is_reenumeration:
  assumes "vfioEntry sy0 root known0 b = Inr (Publish d)" "ToLower b = b" "npuEntry sy1 root x = Inr (Publish n)"
  shows "(validateAllocatedDevice sy root d = None \<and>
            readSysfsValue sy (filepath_Join [root, b]) ''class'' = Inr npuPCIClassID \<longleftrightarrow>
          (\<exists>d'. vfioEntry sy root known b = Inr (Publish d') \<and> same_binding d d')) \<and>
         (validateAllocatedDevice sy root n = None \<longleftrightarrow>
          (\<exists>v. readSysfsValue sy (filepath_Join [root, ToLower (smi_PCIBusID x)]) ''vendor'' = Inr v \<and>
               EqualFold v rblnPCIVendorID) \<and>
          (\<exists>n'. npuEntry sy root x = Inr (Publish n') \<and> same_binding n n'))"
  unfolding validate_None using vfio_reenumeration [OF assms(1,2)] npu_reenumeration [OF assms(3)] by blast

theorem validation_is_reenumeration_witness:
  "validateAllocatedDevice dead_sysfs ''/s'' ex_npu \<noteq> None \<and>
   (\<exists>d'. vfioEntry ex_sysfs ''/s'' gm_empty ''0000:3b:00.0'' = Inr (Publish d') \<and> same_binding ex_vfio d')"
proof -
  have v: "vfioEntry ex_sysfs ''/s'' gm_empty ''0000:3b:00.0'' = Inr (Publish ex_vfio)"
    and n: "npuEntry ex_sysfs ''/s'' ex_smi = Inr (Publish ex_npu)"
    and l: "ToLower ''0000:3b:00.0'' = ''0000:3b:00.0''"
    and c: "validateAllocatedDevice ex_sysfs ''/s'' ex_vfio = None"
      "readSysfsValue ex_sysfs (filepath_Join [''/s'', ''0000:3b:00.0'']) ''class'' = Inr npuPCIClassID"
    and dead: "\<And>v. readSysfsValue dead_sysfs (filepath_Join [''/s'', ToLower (smi_PCIBusID ex_smi)]) ''vendor'' \<noteq> Inr v"
    by code_simp+
  from validation_is_reenumeration [OF v l n] c dead show ?thesis by blast
qed

text \<open>
  C22. Discovery and validation agree: a passthrough device a scan just published passes the check
  on the unchanged host, if its address is spelled in lower case as the kernel spells it.
\<close>

theorem published_passthrough_is_preparable:
  assumes "rs_err (RescanDevices e s) = None" "d \<in> set (vfioDevices (scanned e s))"
    and "ToLower (deviceStringAttr d pciBusIDAttributeKey) = deviceStringAttr d pciBusIDAttributeKey"
  shows "validateAllocatedDevice (view_vfio e) (state_sysfsRoot s) d = None"
proof -
  obtain snap where "snapshot_of e (state_sysfsRoot s) (knownBuses s) snap" "vfioDevices (scanned e s) = snap_vfio snap"
    using RescanDevices_None [OF assms(1)] by blast
  then have "vfio_usable (view_vfio e) (state_sysfsRoot s) (deviceStringAttr d pciBusIDAttributeKey) d"
    using snapshot_vfio assms(2) by simp
  then show ?thesis using vfio_usable_live [OF _ assms(3)] by (simp add: validate_None)
qed

theorem published_passthrough_is_preparable_witness:
  "validateAllocatedDevice ex_sysfs ''/s'' ex_vfio = None"
proof -
  have "ex_vfio \<in> set (vfioDevices (scanned ex_scan empty_state))" by (simp add: ex_rescan)
  moreover have "ToLower (deviceStringAttr ex_vfio pciBusIDAttributeKey) = deviceStringAttr ex_vfio pciBusIDAttributeKey"
    by code_simp
  ultimately show ?thesis
    using published_passthrough_is_preparable [OF ex_rescan_err, of ex_vfio] by simp
qed

text \<open>
  C19. Published devices have the type the resource API and the cluster's claims rely on: every
  attribute is one the driver knows, with exactly one value of its kind; the PCIe root has the
  standard's form; the NUMA node is under both of its keys with one non-negative value or under
  neither; and the name is a DNS label, if those of rbln-smi are and leave room for the layout.
\<close>

theorem published_devices_well_formed:
  assumes "rs_err (RescanDevices e s) = None"
    and "\<And>xs x. inventoryFn e = Inr xs \<Longrightarrow> x \<in> set xs \<Longrightarrow> dns_label (smi_Name x) \<and> length (smi_Name x) \<le> 59"
    and "d \<in> set (npuDevices (scanned e s) @ vfioDevices (scanned e s))"
  shows "well_typed (Attributes d) \<and> numa_mirrored (Attributes d) \<and> dns_label (Name d)"
proof -
  obtain snap where snap: "snapshot_of e (state_sysfsRoot s) (knownBuses s) snap"
    "npuDevices (scanned e s) = snap_npu snap" "vfioDevices (scanned e s) = snap_vfio snap"
    using RescanDevices_None [OF assms(1)] by blast
  then consider "d \<in> set (snap_npu snap)" | "d \<in> set (snap_vfio snap)" using assms(3) by auto
  then show ?thesis
  proof cases
    case 1
    from snapshot_npu [OF snap(1) this] show ?thesis using npu_usable_well_formed assms(2) by blast
  next
    case 2
    from snapshot_vfio [OF snap(1) this] show ?thesis by (rule vfio_usable_well_formed)
  qed
qed

theorem published_devices_well_formed_witness: "dns_label (Name ex_vfio) \<and> dns_label (Name ex_npu)"
proof -
  have smi: "dns_label (smi_Name x) \<and> length (smi_Name x) \<le> 59" if "inventoryFn ex_scan = Inr xs" "x \<in> set xs" for xs x
    using that by (auto simp: ex_smi_def dns_label_def label_char_def is_digit_def)
  have l: "dns_label (Name d)"
    if "d \<in> set (npuDevices (scanned ex_scan empty_state) @ vfioDevices (scanned ex_scan empty_state))" for d
    using published_devices_well_formed [of ex_scan empty_state d] ex_rescan_err smi that by blast
  show ?thesis using l [of ex_vfio] l [of ex_npu] by (simp add: ex_rescan)
qed

end
