(* ===== verification/Claim_Properties.thy ===== *)
theory Claim_Properties
  imports Scenario
begin

text \<open>
  The properties of preparing and unpreparing claims. The hypotheses on the environment are what
  each statement needs of the host: that the calls of a removal succeed (\<open>removal_works\<close>) and that
  the owner marker is written whole or not at all (\<open>whole_marker\<close>); each property names those it
  needs.
\<close>

text \<open>
  C24. A fresh \<open>Prepare\<close> that succeeds answers with the driver's own results of the claim, in
  allocation order: each names its request, pool and device and the CDI devices to inject (the
  common one for native devices only). Every such result was allocatable here, in this node's
  pool, and passed the live check.
\<close>

theorem prepare_answers_allocation:
  assumes "Prepare env s claim w = (w', Inr ds)" "recorded (w_claims w) (claim_UID claim) = []"
  shows "ds = map (identity (env_cdi env) s claim) (driverResults claim) \<and>
         (\<forall>r \<in> set (driverResults claim). admitted (env_sysfs env) s r)"
proof -
  obtain pds where "w_claims w' = gm_put (claim_UID claim) pds (w_claims w)" "ds = GetDevices pds"
    using Prepare_fresh_world [OF assms] by metis
  with Prepare_gives(2,3) [OF assms] show ?thesis by (simp add: recorded_def)
qed

theorem prepare_answers_allocation_witness:
  "ex_devices = map (identity ex_cdi ex_state ex_claim) (driverResults ex_claim)"
  using prepare_answers_allocation [OF ex_Prepare ex_unrecorded] by (simp add: ex_env_def)

text \<open>
  C12. What each prepared device injects. A native device gets the claim's RSD group device as
  \<open>/dev/rsd0\<close> and, under the same path as on the host, its own node: the one its \<open>deviceNodeName\<close>
  attribute names below \<open>/dev\<close>. (A node name of \<open>/\<close>, which the guard of the code lets through, gives
  \<open>/dev\<close> itself.) The first native device of the claim, and only that one, also gets the RDS nodes. A passthrough device gets the VFIO container node and its group's node, and the
  metadata mounts of its request unless an earlier passthrough device of the request has them.
\<close>

theorem prepared_edits:
  assumes "prepareDevices env s claim specs = (specs', Inr pds)" "i < length (driverResults claim)"
  shows "length pds = length (driverResults claim) \<and>
    (let r = driverResults claim ! i; before = take i (driverResults claim); edits = prep_Edits (pds ! i) in
     if native s r then
       (let w = deviceStringAttr (allocated s (res_Device r)) deviceNodeNameAttributeKey in
        \<exists>rsdNode rblnNode. DeviceNodes edits = [rsdNode, rblnNode] @ (if list_ex (native s) before then [] else rdsNodesOf env s) \<and>
          node_Path rsdNode = ''/dev/rsd0'' \<and>
          rsdGroupFn env (sort (map (busOf s) (filter (native s) (driverResults claim)))) = Inr (node_HostPath rsdNode) \<and>
          node_Path rblnNode = node_HostPath rblnNode \<and>
          (plain_name w \<and> node_HostPath rblnNode = ''/dev/'' @ w \<or> w = ''/'' \<and> node_HostPath rblnNode = ''/dev'') \<and>
          Mounts edits = [])
     else
       (\<exists>g. deviceIntAttr (allocated s (res_Device r)) iommuGroupAttributeKey = Some g \<and>
          DeviceNodes edits = [vfioNode vfioContainerDevPath, vfioNode (filepath_Join [vfioDevDir, FormatInt g])] \<and>
          Mounts edits = (if list_ex (\<lambda>b. \<not> native s b \<and> kubevirtMetadataRequestName b = kubevirtMetadataRequestName r) before
                          then [] else kubevirtMetadataMounts kubevirtMetadataBasePath claim (kubevirtMetadataRequestName r))))"
proof -
  let ?rs = "driverResults claim"
  obtain rsd rds where all: "prepareAll env s claim rsd rds [] ?rs = Inr pds"
    and ctx: "if list_ex (native s) ?rs
      then rds = rdsNodesOf env s \<and> rsdGroupFn env (sort (map (busOf s) (filter (native s) ?rs))) = Inr rsd
      else rds = []"
    using prepareDevices_Inr [OF assms(1)] by (auto split: if_splits)
  have len: "length pds = length ?rs" and e: "editsFor env s claim rsd rds (take i ?rs) (?rs ! i) = Inr (prep_Edits (pds ! i))"
    using all assms(2) by (auto simp: prepareAll_Inr preparedFor_Inr)
  show ?thesis
  proof (cases "native s (?rs ! i)")
    case True
    then have "list_ex (native s) ?rs" using assms(2) nth_mem by (fastforce simp: list_ex_iff)
    with ctx have c: "rds = rdsNodesOf env s" "rsdGroupFn env (sort (map (busOf s) (filter (native s) ?rs))) = Inr rsd" by auto
    obtain ed where a: "applyConfig (env_dev env) (allocatable s) (res_Device (?rs ! i)) rsd = Inr ed"
      and p: "prep_Edits (pds ! i) = (if list_ex (native s) (take i ?rs) then ed else ed\<lparr>DeviceNodes := DeviceNodes ed @ rds\<rparr>)"
      using e True by (auto simp: editsFor_def split: sum.splits if_splits)
    let ?w = "deviceStringAttr (allocated s (res_Device (?rs ! i))) deviceNodeNameAttributeKey"
    from applyConfig_Inr [OF a] obtain rsdNode rblnNode where n:
      "ed = \<lparr>DeviceNodes = [rsdNode, rblnNode], Mounts = [], Hooks = []\<rparr>"
      "node_Path rsdNode = ''/dev/rsd0''" "node_HostPath rsdNode = rsd" "node_Path rblnNode = node_HostPath rblnNode"
      "plain_name ?w \<and> node_HostPath rblnNode = ''/dev/'' @ ?w \<or> ?w = ''/'' \<and> node_HostPath rblnNode = ''/dev''"
      by (auto simp: Let_def allocated_def)
    moreover have "DeviceNodes (prep_Edits (pds ! i)) = [rsdNode, rblnNode] @ (if list_ex (native s) (take i ?rs) then [] else rdsNodesOf env s)"
      "Mounts (prep_Edits (pds ! i)) = []" using p n(1) c(1) by auto
    moreover have "rsdGroupFn env (sort (map (busOf s) (filter (native s) ?rs))) = Inr (node_HostPath rsdNode)" using c(2) n(3) by simp
    ultimately show ?thesis unfolding Let_def using True len by (simp only: if_True) blast
  next
    case False
    then have "vfioContainerEdits (env_dev env) (allocated s (res_Device (?rs ! i)))
        (if list_ex (\<lambda>b. \<not> native s b \<and> kubevirtMetadataRequestName b = kubevirtMetadataRequestName (?rs ! i)) (take i ?rs)
         then [] else kubevirtMetadataMounts kubevirtMetadataBasePath claim (kubevirtMetadataRequestName (?rs ! i))) =
        Inr (prep_Edits (pds ! i))"
      using e by (simp add: editsFor_def)
    from vfioContainerEdits_Inr [OF this] False len show ?thesis by (auto simp: Let_def)
  qed
qed

theorem prepared_edits_witness:
  "\<exists>specs' pds. prepareDevices ex_env ex_state ex_claim gm_empty = (specs', Inr pds) \<and> length pds = 2"
proof -
  obtain specs1 pds where p: "prepareDevices ex_env ex_state ex_claim gm_empty = (specs1, Inr pds)"
    using Prepare_fresh [OF ex_Prepare ex_unrecorded] by (auto simp: ex_world_def)
  have "length (driverResults ex_claim) = 2" by code_simp
  with prepared_edits [OF p, of 0] p show ?thesis by simp
qed

text \<open>
  C23. Preparing is idempotent: once a claim is prepared, preparing it again, by the same or by a
  restarted plugin and whatever the host is like by then, answers with the same devices and
  changes nothing.
\<close>

theorem prepare_idempotent:
  assumes "Prepare env s claim w = (w1, Inr ds)" "ds \<noteq> []" "GetCheckpoint_err env' = None"
  shows "Prepare env' s' claim w1 = (w1, Inr ds)"
proof (cases "recorded (w_claims w) (claim_UID claim) = []")
  case True
  obtain pds where "w_claims w1 = gm_put (claim_UID claim) pds (w_claims w)" "ds = GetDevices pds"
    using Prepare_fresh_world [OF assms(1) True] by metis
  then have "recorded (w_claims w1) (claim_UID claim) = pds" "pds \<noteq> []" using assms(2) by (auto simp: recorded_def)
  with Prepare_replay [OF assms(3), of w1 claim s'] \<open>ds = GetDevices pds\<close> show ?thesis by simp
next
  case False
  have "GetCheckpoint_err env = None" using assms(1) by (auto simp: Prepare_def Let_def split: option.splits)
  with Prepare_replay [of env w claim s] False assms(1) have "w1 = w" "ds = GetDevices (recorded (w_claims w) (claim_UID claim))"
    by auto
  with Prepare_replay [OF assms(3), of w claim s'] False show ?thesis by simp
qed

theorem prepare_idempotent_witness:
  "Prepare full_env empty_state ex_claim ex_prepared = (ex_prepared, Inr ex_devices)"
  by (rule prepare_idempotent [OF ex_Prepare]) (simp_all add: ex_devices_def full_env_def ex_env_def)

text \<open>
  C9. A failed \<open>Prepare\<close> leaves the checkpoint as it was and, if the calls of the removal succeed, no
  new metadata file on the host: what was written before the failure is rolled back by the owner
  marker. The one exception is the claim's owner marker itself, and only if the write of just that
  file failed halfway; then the rollback does not recognise the directory.
\<close>

theorem failed_prepare_rolls_back:
  assumes "Prepare env s claim w = (w', Inl err)" "claim_ok claim" "fs_ok (w_fs w)"
    and "removal_works (kv_fs (env_kv env))"
  shows "w_claims w' = w_claims w \<and>
         (\<forall>k c. gm_get (w_fs w') k = Some (File c) \<longrightarrow>
            gm_get (w_fs w) k = Some (File c) \<or>
            k = claimDirOf (claim_UID claim) @ [kubevirtMetadataOwnerFile] \<and>
              \<not> whole_marker (kv_fs (env_kv env)) metaBase (claim_UID claim))"
  using Prepare_failed_claims [OF assms(1)] Prepare_failed_files [OF assms]
  by (auto simp: new_files_in_def torn_file_def split: if_splits)

theorem failed_prepare_rolls_back_witness:
  "w_claims (fst (Prepare full_env ex_state ex_claim ex_world)) = gm_empty"
proof -
  obtain w' err where p: "Prepare full_env ex_state ex_claim ex_world = (w', Inl err)"
    using ex_prepare_full by (cases "Prepare full_env ex_state ex_claim ex_world") (auto simp: isl_def)
  have "fs_ok (w_fs ex_world)" using ex_world_ok by (simp add: stores_ok_def)
  from failed_prepare_rolls_back [OF p ex_claim_ok this] p show ?thesis
    by (simp add: ex_kv_fs ex_removal_works ex_world_def)
qed

text \<open>
  C16. A fresh \<open>Prepare\<close> that succeeds has recorded the claim in the checkpoint, written its CDI
  spec with one device per prepared device, and, if the claim has a passthrough device, left the
  claim's owner marker and one metadata file per request with the request's devices.
\<close>

theorem prepare_records_claim:
  assumes "Prepare env s claim w = (w', Inr ds)" "recorded (w_claims w) (claim_UID claim) = []"
    and "claim_ok claim" "\<And>ks. set (order (env_kv env) ks) = set ks"
  shows "(\<exists>pds v. recorded (w_claims w') (claim_UID claim) = pds \<and> map prep_Device pds = ds \<and>
            gm_get (w_specs w') (claimSpecName (env_cdi env) (cdi s) (claim_UID claim)) =
              Some ((claimSpec (env_cdi env) (cdi s) (claim_UID claim) pds)\<lparr>spec_Version := v\<rparr>)) \<and>
         (claimHasVfioDevice s claim \<longrightarrow>
            markerOf (w_fs w') (claimDirOf (claim_UID claim)) = Some (claim_UID claim) \<and>
            (\<forall>r. requestDevices (allocatable s) (claimResults claim) r \<noteq> [] \<longrightarrow>
               (\<exists>data. json_Marshal (env_kv env) (requestMetadata (podClaimName claim) r
                          (requestDevices (allocatable s) (claimResults claim) r)) = Inr data \<and>
                       gm_get (w_fs w') (claimDirOf (claim_UID claim) @ [r, metadataFile]) = Some (File data))))"
proof -
  obtain specs1 pds w2 specs3 where f: "writeMetadata env s claim (w\<lparr>w_specs := specs1\<rparr>) = (w2, None)"
    "CreateClaimSpecFile (env_cdi env) (cdi s) (claim_UID claim) pds specs1 = (specs3, None)"
    "w' = w2\<lparr>w_specs := specs3, w_claims := gm_put (claim_UID claim) pds (w_claims w)\<rparr>" "ds = GetDevices pds"
    using Prepare_fresh [OF assms(1,2)] by blast
  have "recorded (w_claims w') (claim_UID claim) = pds" "map prep_Device pds = ds"
    using f(3,4) by (simp_all add: recorded_def GetDevices_map)
  moreover have "\<exists>v. gm_get (w_specs w') (claimSpecName (env_cdi env) (cdi s) (claim_UID claim)) =
      Some ((claimSpec (env_cdi env) (cdi s) (claim_UID claim) pds)\<lparr>spec_Version := v\<rparr>)"
    using CreateClaimSpecFile_ok [OF f(2)] f(3) by auto
  moreover have "markerOf (w_fs w') (claimDirOf (claim_UID claim)) = Some (claim_UID claim) \<and>
     (requestDevices (allocatable s) (claimResults claim) r \<noteq> [] \<longrightarrow>
        (\<exists>data. json_Marshal (env_kv env) (requestMetadata (podClaimName claim) r
                   (requestDevices (allocatable s) (claimResults claim) r)) = Inr data \<and>
                gm_get (w_fs w') (claimDirOf (claim_UID claim) @ [r, metadataFile]) = Some (File data)))"
    if v: "claimHasVfioDevice s claim" for r
  proof -
    have wk: "writeKubeVirtMetadata (env_kv env) (abs_path metaBase) claim (allocatable s) (w_fs w) = (w_fs w', None)"
      using f(1,3) v by (auto simp: writeMetadata_def metaBase_abs split: prod.splits)
    from write_ok [OF metaBase_plain claim_okD(1,2) [OF assms(3)] assms(4) wk] show ?thesis by blast
  qed
  ultimately show ?thesis by blast
qed

theorem prepare_records_claim_witness:
  "markerOf (w_fs ex_prepared) (claimDirOf ''c1'') = Some ''c1''"
proof -
  have v: "claimHasVfioDevice ex_state ex_claim" by code_simp
  have o: "\<And>ks. set (order (env_kv ex_env) ks) = set ks" by (simp add: ex_env_def ex_kv_def)
  from prepare_records_claim [OF ex_Prepare ex_unrecorded ex_claim_ok o] v show ?thesis
    by (simp add: ex_claim_def)
qed

text \<open>
  C17. \<open>Unprepare\<close> of a recorded claim that succeeds takes away its checkpoint entry and its CDI
  spec, and, if the directory's owner marker names the claim and the calls of the removal succeed, its
  metadata directory with everything below it. (A directory whose marker is torn, or gone since a
  removal that was cut short, is not recognised.)
\<close>

theorem unprepare_removes_claim:
  assumes "Unprepare env s uid w = (w', None)" "recorded (w_claims w) uid \<noteq> []"
    and "world_ok w"
  shows "gm_get (w_claims w') uid = None \<and>
         gm_get (w_specs w') (claimSpecName (env_cdi env) (cdi s) uid) = None \<and>
         (removal_works (kv_fs (env_kv env)) \<longrightarrow> markerOf (w_fs w) (claimDirOf uid) = Some uid \<longrightarrow>
            (\<forall>k. under (claimDirOf uid) k \<longrightarrow> gm_get (w_fs w') k = None))"
proof -
  obtain fs1 where r: "removeKubeVirtMetadataForClaim (kv_fs (env_kv env)) kubevirtMetadataBasePath uid (w_fs w) = (fs1, None)"
    and w': "w' = \<lparr>w_claims = gm_del uid (w_claims w),
                  w_specs = gm_del (claimSpecName (env_cdi env) (cdi s) uid) (w_specs w), w_fs = fs1\<rparr>"
    using Unprepare_ok [OF assms(1,2)] by blast
  have "fs_ok (w_fs w)" "markers_ok {} (w_fs w)" using assms(3) by (simp_all add: stores_ok_def)
  from removeMetadata_facts(5) [OF this r] w' show ?thesis by simp
qed

lemma ex_prepared_ok: "world_ok ex_prepared"
  using Prepare_world_ok(1) [OF ex_world_ok ex_claim_ok _ ex_Prepare] by (simp add: ex_kv_fs ex_whole_marker)

theorem unprepare_removes_claim_witness:
  "gm_get (w_claims (fst (Unprepare ex_env ex_state ''c1'' ex_prepared))) ''c1'' = None"
proof -
  obtain w' where u: "Unprepare ex_env ex_state ''c1'' ex_prepared = (w', None)"
    using ex_unprepare by (cases "Unprepare ex_env ex_state ''c1'' ex_prepared") auto
  from unprepare_removes_claim [OF u ex_recorded ex_prepared_ok] u show ?thesis by simp
qed



text \<open>
  C13. Claims do not interfere: preparing or unpreparing one claim, with whatever outcome, leaves
  another claim's checkpoint entry, its CDI spec and every file of its metadata directory alone,
  the CDI library giving claims specs of their own names.
\<close>

theorem other_claims_untouched:
  assumes "world_ok w" "claim_ok claim" "whole_marker (kv_fs (env_kv env)) metaBase (claim_UID claim)"
    and "uid \<noteq> claim_UID claim" "under (claimDirOf uid) k"
    and "n = claimSpecName (env_cdi env) (cdi s) uid" "n \<noteq> claimSpecName (env_cdi env) (cdi s) (claim_UID claim)"
    and "\<not> commonSpecName (env_cdi env) (cdi s) n"
  shows "gm_get (w_claims (fst (Prepare env s claim w))) uid = gm_get (w_claims w) uid \<and>
         gm_get (w_claims (fst (Unprepare env s (claim_UID claim) w))) uid = gm_get (w_claims w) uid \<and>
         gm_get (w_specs (fst (Prepare env s claim w))) n = gm_get (w_specs w) n \<and>
         gm_get (w_specs (fst (Unprepare env s (claim_UID claim) w))) n = gm_get (w_specs w) n \<and>
         gm_get (w_fs (fst (Prepare env s claim w))) k = gm_get (w_fs w) k \<and>
         gm_get (w_fs (fst (Unprepare env s (claim_UID claim) w))) k = gm_get (w_fs w) k"
proof -
  obtain w1 r1 where p: "Prepare env s claim w = (w1, r1)" by fastforce
  obtain w2 r2 where u: "Unprepare env s (claim_UID claim) w = (w2, r2)" by fastforce
  have nu: "\<not> under (claimDirOf (claim_UID claim)) k"
    using hostSegs_apart [OF assms(4,5)] .
  have "\<not> under k (claimDirOf (claim_UID claim))"
    using assms(4,5) by (auto simp: under_iff hostSegs_def metaBase_def)
  with Prepare_world_ok(2) [OF assms(1,2) disjI2 [OF assms(3)] p, unfolded beyond_none] nu
  have "gm_get (w_fs w1) k = gm_get (w_fs w) k" by blast
  with p u nu Prepare_other_claims [OF p assms(4)] Unprepare_other_claims [OF u assms(4)]
    Unprepare_world_ok(2) [OF assms(1) u, of k] Prepare_specs [OF p assms(8,7)] Unprepare_specs [OF u assms(7)]
  show ?thesis by simp
qed

theorem other_claims_untouched_witness:
  "gm_get (w_claims (fst (Unprepare ex_env ex_state (claim_UID ex_claim) ex_prepared))) ''c2'' =
     gm_get (w_claims ex_prepared) ''c2'' \<and>
   gm_get (w_specs (fst (Unprepare ex_env ex_state (claim_UID ex_claim) ex_prepared))) ''claim_c2'' =
     gm_get (w_specs ex_prepared) ''claim_c2''"
proof -
  have u: "''c2'' \<noteq> claim_UID ex_claim" by (simp add: ex_claim_def)
  have n: "''claim_c2'' = claimSpecName (env_cdi ex_env) (cdi ex_state) ''c2''"
    "''claim_c2'' \<noteq> claimSpecName (env_cdi ex_env) (cdi ex_state) (claim_UID ex_claim)"
    "\<not> commonSpecName (env_cdi ex_env) (cdi ex_state) ''claim_c2''"
    by (auto simp: claimSpecName_def commonSpecName_def ex_env_def ex_cdi_def ex_claim_def)
  from other_claims_untouched [OF ex_prepared_ok ex_claim_ok _ u under_refl(1) n] show ?thesis
    by (simp add: ex_kv_fs ex_whole_marker)
qed

end
