(* ===== verification/Node_Properties.thy ===== *)
theory Node_Properties
  imports Scenario
begin

text \<open>
  Properties of the parts below a claim: RSD groups, device nodes and the checkpoint file.
\<close>

text \<open>
  C14. The RSD group a claim is given is private and exact: \<open>recreateValidatedRSDGroup\<close> returns a
  path exactly if the library created one of the form \<open>/dev/rsdN\<close> with a positive canonical \<open>N\<close>,
  and rbln-smi lists as members of group \<open>N\<close> the requested addresses, up to letter case, each once
  and nothing else.
\<close>

theorem rsd_group_exact:
  "recreateValidatedRSDGroup env busIDs = Inr path \<longleftrightarrow>
     busIDs \<noteq> [] \<and> lib_RecreateRsdGroup env busIDs = Inr path \<and>
     (\<exists>n info. private_rsd path n \<and> readGroupedInventory env = Inr info \<and>
        distinct (members (format_nat n) info) \<and> set (members (format_nat n) info) = ToLower ` set busIDs)"
proof (cases "lib_RecreateRsdGroup env busIDs")
  case (Inr p)
  show ?thesis
  proof (cases "readGroupedInventory env")
    case (Inr info)
    with \<open>lib_RecreateRsdGroup env busIDs = Inr p\<close> show ?thesis
      using validateRSDMembership_None [of path busIDs info]
      by (auto simp: recreateValidatedRSDGroup_def split: option.splits)
  qed (use \<open>lib_RecreateRsdGroup env busIDs = Inr p\<close> in \<open>simp add: recreateValidatedRSDGroup_def\<close>)
qed (simp add: recreateValidatedRSDGroup_def)

text \<open>
  C31. Waiting for a device node ends well: a node that appears within the timeout and stays is
  found, however much the scheduler delays the polls, as long as the comparison with the deadline
  follows a failed look at the node by at most \<open>late\<close> and the node appears by that much earlier.
\<close>

theorem device_node_wait_succeeds:
  assumes "\<And>t. t < appears \<Longrightarrow> \<exists>e. dev_Stat env p t = Inl e \<and> errors_Is_NotExist e"
    and "\<And>t. appears \<le> t \<Longrightarrow> dev_Stat env p t = Inr ()"
    and "\<And>t. stat_delay env t \<le> late" "appears + late \<le> deviceNodePollTimeout"
  shows "waitForDeviceNode env p = Inr ()"
  unfolding waitForDeviceNode_def using waitLoop_finds [OF assms] by blast

theorem device_node_wait_succeeds_witness:
  "waitForDeviceNode \<lparr>dev_Stat = (\<lambda>p t. if t < 7 then Inl (ErrNotExist p) else Inr ()), stat_delay = (\<lambda>t. 2),
     sleep_overshoot = (\<lambda>t. 3)\<rparr> ''/dev/rsd1'' = Inr ()"
  by (rule device_node_wait_succeeds [of 7 _ _ 2]) (simp_all add: deviceNodePollTimeout_def)

text \<open>
  C32. Waiting always ends with an answer \<open>os.Stat\<close> gave, and a node is reported as missing only if
  the deadline had passed when that last look was judged; any other error ends the wait at once.
\<close>

theorem device_node_wait_outcome:
  "\<exists>t. waitForDeviceNode env p = dev_Stat env p t \<and>
     (\<forall>e. dev_Stat env p t = Inl e \<longrightarrow> errors_Is_NotExist e \<longrightarrow>
          t + stat_delay env t > deviceNodePollTimeout)"
proof -
  obtain t where "dev_Stat env p t = waitLoop env p 0"
    "\<forall>e. waitLoop env p 0 = Inl e \<longrightarrow> errors_Is_NotExist e \<longrightarrow> t + stat_delay env t > deviceNodePollTimeout"
    using waitLoop_outcome [of 0 env p] by blast
  then show ?thesis unfolding waitForDeviceNode_def by (intro exI [of _ t]) simp
qed

theorem device_node_wait_outcome_witness:
  "waitForDeviceNode \<lparr>dev_Stat = (\<lambda>p t. Inl (ErrNotExist p)), stat_delay = (\<lambda>t. 0), sleep_overshoot = (\<lambda>t. 0)\<rparr> ''/dev/rsd1'' =
     Inl (ErrNotExist ''/dev/rsd1'') \<and> (\<exists>t. t > deviceNodePollTimeout)"
proof -
  let ?env = "\<lparr>dev_Stat = (\<lambda>p t. Inl (ErrNotExist p)), stat_delay = (\<lambda>t. 0), sleep_overshoot = (\<lambda>t. 0)\<rparr>"
  obtain t where "waitForDeviceNode ?env ''/dev/rsd1'' = Inl (ErrNotExist ''/dev/rsd1'')"
    "errors_Is_NotExist (ErrNotExist ''/dev/rsd1'') \<longrightarrow> t > deviceNodePollTimeout"
    using device_node_wait_outcome [of ?env "''/dev/rsd1''"] by auto
  then show ?thesis by auto
qed



text \<open>
  C33. A checkpoint that was written is accepted when it is read back, with the claims it was
  written with, provided the JSON decoder inverts the encoder.
\<close>

theorem checkpoint_roundtrip:
  assumes "MarshalCheckpoint json_marshal checksum_new cp = (cp', Inr data)"
    and "\<And>x d. json_marshal x = Inr d \<Longrightarrow> json_unmarshal d newCheckpoint = Inr x"
  shows "UnmarshalCheckpoint json_unmarshal data newCheckpoint = Inr cp' \<and>
         VerifyChecksum json_marshal checksum_new cp' = (cp', None) \<and>
         V1_PreparedClaims cp' = V1_PreparedClaims cp"
proof -
  obtain out where o: "json_marshal (cp\<lparr>Checksum := 0\<rparr>) = Inr out"
    "cp' = cp\<lparr>Checksum := checksum_new out\<rparr>" "json_marshal cp' = Inr data"
    using assms(1) by (auto simp: MarshalCheckpoint_def Let_def split: sum.splits)
  then have "VerifyChecksum json_marshal checksum_new cp' = (cp', None)"
    by (simp add: VerifyChecksum_def Let_def)
  with o assms(2) show ?thesis by (simp add: UnmarshalCheckpoint_def)
qed

theorem checkpoint_roundtrip_witness:
  "VerifyChecksum Inr (\<lambda>cp. 7) (newCheckpoint\<lparr>Checksum := 7\<rparr>) = (newCheckpoint\<lparr>Checksum := 7\<rparr>, None)"
proof -
  have "MarshalCheckpoint Inr (\<lambda>cp. 7) newCheckpoint = (newCheckpoint\<lparr>Checksum := 7\<rparr>, Inr (newCheckpoint\<lparr>Checksum := 7\<rparr>))"
    by (simp add: MarshalCheckpoint_def Let_def newCheckpoint_def)
  from checkpoint_roundtrip [OF this, of "\<lambda>d _. Inr d"] show ?thesis by simp
qed

end
