(* ===== verification/Stderr_Relay.thy ===== *)
theory Stderr_Relay
  imports Logging
begin

text \<open>
  \<open>pkg/logging/glog.go\<close> and \<open>grpclog.go\<close>: the text other libraries write becomes records. The regular
  expression for glog's header is a parser, and the parser is shown to invert the format.
\<close>

section \<open>glog lines\<close>

definition re_space :: "char \<Rightarrow> bool" where
  "re_space c \<longleftrightarrow> (of_char c :: nat) \<in> {9, 10, 12, 13, 32}"

definition glogStamp :: "(char \<Rightarrow> bool) list" where
  "glogStamp =
     replicate 4 is_digit @ [(=) (CHR '' '')] @ replicate 2 is_digit @ [(=) (CHR '':'')] @
     replicate 2 is_digit @ [(=) (CHR '':'')] @ replicate 2 is_digit @ [(=) (CHR ''.'')] @
     replicate 6 is_digit @ [(=) (CHR '' '')]"

text \<open>
  The match of \<open>^([IWEF])\d{4} \d{2}:\d{2}:\d{2}\.\d{6} +\d+ (\S+:\d+)\] (.*)$\<close>. Every group ends
  at a byte the next one excludes, so there is one way to match: the caller is the whole run of
  bytes that are no white space, without its closing bracket.
\<close>

definition callerOf :: "string \<Rightarrow> string option" where
  "callerOf w =
     (if w = [] \<or> last w \<noteq> CHR '']'' then None
      else case cutLast (CHR '':'') (butlast w) of
             None \<Rightarrow> None
           | Some (file, line) \<Rightarrow>
               if file \<noteq> [] \<and> line \<noteq> [] \<and> list_all is_digit line then Some (butlast w) else None)"

definition glogHeader :: "string \<Rightarrow> (char \<times> string \<times> string) option" where
  "glogHeader s =
     (case s of
        [] \<Rightarrow> None
      | sev # rest \<Rightarrow>
          if sev \<notin> {CHR ''I'', CHR ''W'', CHR ''E'', CHR ''F''} \<or> \<not> match_classes glogStamp (take 21 rest) then None
          else let r1 = dropWhile ((=) (CHR '' '')) (drop 21 rest);
                   thread = takeWhile is_digit r1;
                   r2 = drop (length thread) r1 in
            if thread = [] \<or> r2 = [] \<or> hd r2 \<noteq> CHR '' '' then None
            else let w = takeWhile (\<lambda>c. \<not> re_space c) (tl r2);
                     r3 = drop (length w) (tl r2) in
              (case callerOf w of
                 None \<Rightarrow> None
               | Some caller \<Rightarrow>
                   if r3 = [] \<or> hd r3 \<noteq> CHR '' '' \<or> CHR 0x0A \<in> set (tl r3) then None
                   else Some (sev, caller, tl r3)))"

definition emitStderrLine :: "Logger \<Rightarrow> string \<Rightarrow> bool \<Rightarrow> LogRecord option" where
  "emitStderrLine logger line withCaller =
     (let (lvl, msg, attrs) =
        (case glogHeader line of
           None \<Rightarrow> (LevelInfo, line, [(''logger'', ''stderr'')])
         | Some (sev, caller, msg) \<Rightarrow>
             (if sev = CHR ''W'' then LevelWarn
              else if sev = CHR ''E'' \<or> sev = CHR ''F'' then LevelError else LevelInfo,
              msg,
              (''logger'', ''glog'') # (if withCaller then [(''caller'', caller)] else [])))
      in if \<not> Enabled logger lvl then None else Some (lvl, msg, attrs))"

section \<open>The relay\<close>

text \<open>
  The relay reads up to each newline, or to the end of the stream with an error; it trims the line
  end, emits what is not empty, and stops at the error.
\<close>

definition trimLineEnd :: "string \<Rightarrow> string" where
  "trimLineEnd s = rev (dropWhile (\<lambda>c. c = CHR 0x0D \<or> c = CHR 0x0A) (rev s))"

definition ReadString :: "char \<Rightarrow> string \<Rightarrow> string \<times> string \<times> bool" where
  "ReadString delim s =
     (if delim \<in> set s
      then (takeWhile (\<lambda>c. c \<noteq> delim) s @ [delim], tl (dropWhile (\<lambda>c. c \<noteq> delim) s), False)
      else (s, [], True))"

lemma ReadString_shrinks:
  "ReadString d s = (chunk, rest, False) \<Longrightarrow> length rest < length s"
proof -
  assume r: "ReadString d s = (chunk, rest, False)"
  then have "d \<in> set s" "rest = tl (dropWhile (\<lambda>c. c \<noteq> d) s)" by (auto simp: ReadString_def split: if_splits)
  moreover from this(1) have "dropWhile (\<lambda>c. c \<noteq> d) s \<noteq> []" by (simp add: dropWhile_eq_Nil_conv)
  ultimately show "length rest < length s" using length_dropWhile_le [of "\<lambda>c. c \<noteq> d" s]
    by (cases "dropWhile (\<lambda>c. c \<noteq> d) s") auto
qed

function relayStderr :: "Logger \<Rightarrow> bool \<Rightarrow> string \<Rightarrow> LogRecord list" where
  "relayStderr logger withCaller input =
     (case ReadString (CHR 0x0A) input of (chunk, rest, eof) \<Rightarrow>
        let line = trimLineEnd chunk;
            out = (if line \<noteq> [] then
                     (case emitStderrLine logger line withCaller of Some r \<Rightarrow> [r] | None \<Rightarrow> [])
                   else [])
        in if eof then out else out @ relayStderr logger withCaller rest)"
  by pat_completeness auto
termination
  by (relation "measure (\<lambda>(logger, withCaller, input). length input)") (auto dest: ReadString_shrinks sym)

declare relayStderr.simps [simp del]

section \<open>Bridging glog\<close>

text \<open>
  What \<open>BridgeGlog\<close> does to the process: nothing if glog is not linked in, a warning if there is no
  pipe, and otherwise a relay that adds callers or not. \<open>linked\<close> answers \<open>flag.Lookup\<close>.
\<close>

datatype glogBridge = NotLinked | NoPipe LogRecord | Relayed bool

definition BridgeGlog :: "bool \<Rightarrow> goerr option \<Rightarrow> string \<Rightarrow> glogBridge" where
  "BridgeGlog linked pipeErr level =
     (if \<not> linked then NotLinked
      else case pipeErr of
             Some err \<Rightarrow> NoPipe (LevelWarn, ''Cannot bridge glog output, leaving it as text on stderr'', [])
           | None \<Rightarrow> let lvl = (case parseLevel level of Inr l \<Rightarrow> l | Inl _ \<Rightarrow> LevelInfo) in
                     Relayed (lvl \<le> LevelDebug))"

section \<open>grpc\<close>

text \<open>\<open>fmt.Sprintln\<close> of already rendered operands, without its newline.\<close>

definition sprintlnTrim :: "string list \<Rightarrow> string" where
  "sprintlnTrim args = butlast (Join_with '' '' args @ [CHR 0x0A])"

datatype grpcSeverity = GrpcInfo | GrpcWarning | GrpcError | GrpcFatal

text \<open>One call of the adapter: the record, and whether the process exits.\<close>

definition grpcLog :: "grpcSeverity \<Rightarrow> string \<Rightarrow> LogRecord \<times> bool" where
  "grpcLog sev msg =
     (case sev of
        GrpcInfo \<Rightarrow> ((LevelDebug, msg, [(''logger'', ''grpc'')]), False)
      | GrpcWarning \<Rightarrow> ((LevelWarn, msg, [(''logger'', ''grpc'')]), False)
      | GrpcError \<Rightarrow> ((LevelError, msg, [(''logger'', ''grpc'')]), False)
      | GrpcFatal \<Rightarrow> ((LevelError, msg, [(''logger'', ''grpc'')]), True))"

definition grpcV :: "Logger \<Rightarrow> bool" where
  "grpcV logger = Enabled logger LevelDebug"

section \<open>Parsing glog's header\<close>

text \<open>A caller as glog prints it: a file without white space, a colon, a line number.\<close>

lemma takeWhile_stop: "(\<And>x. x \<in> set a \<Longrightarrow> P x) \<Longrightarrow> \<not> P c \<Longrightarrow> takeWhile P (a @ c # b) = a"
  by (induction a) auto

lemma dropWhile_stop: "(\<And>x. x \<in> set a \<Longrightarrow> P x) \<Longrightarrow> \<not> P c \<Longrightarrow> dropWhile P (a @ c # b) = c # b"
  by (induction a) auto

lemma cutLast_split:
  assumes "c \<notin> set b"
  shows "cutLast c (a @ c # b) = Some (a, b)"
proof -
  have n: "\<And>x. x \<in> set (rev b) \<Longrightarrow> x \<noteq> c" using assms by auto
  show ?thesis
    using takeWhile_stop [of "rev b" "\<lambda>x. x \<noteq> c" c "rev a"] dropWhile_stop [of "rev b" "\<lambda>x. x \<noteq> c" c "rev a"] n
    by (simp add: cutLast_def)
qed

definition glogCaller :: "string \<Rightarrow> bool" where
  "glogCaller w \<longleftrightarrow> (\<exists>file line. w = file @ '':'' @ line \<and> file \<noteq> [] \<and> line \<noteq> [] \<and> list_all is_digit line \<and>
     list_all (\<lambda>c. \<not> re_space c) file)"

lemma digit_chars: "is_digit c \<Longrightarrow> c \<noteq> CHR '':'' \<and> CHR '' '' \<noteq> c \<and> \<not> re_space c"
  by (auto simp: is_digit_def re_space_def)

lemma callerOf_ok: "glogCaller w \<Longrightarrow> callerOf (w @ '']'') = Some w"
proof -
  assume "glogCaller w"
  then obtain f l where w: "w = f @ '':'' @ l" "f \<noteq> []" "l \<noteq> []" "list_all is_digit l"
    by (auto simp: glogCaller_def)
  have "CHR '':'' \<notin> set l" using w(4) digit_chars by (auto simp: list_all_iff)
  from cutLast_split [OF this, of f] w show ?thesis by (simp add: callerOf_def butlast_append)
qed

lemma caller_nonspace: "glogCaller w \<Longrightarrow> c \<in> set (w @ '']'') \<Longrightarrow> \<not> re_space c"
  using digit_chars by (auto simp: glogCaller_def list_all_iff re_space_def)

lemma glogHeader_format:
  assumes "sev \<in> {CHR ''I'', CHR ''W'', CHR ''E'', CHR ''F''}" "match_classes glogStamp stamp"
    and "thread \<noteq> []" "list_all is_digit thread" "glogCaller caller" "CHR 0x0A \<notin> set msg"
  shows "glogHeader (sev # stamp @ replicate k (CHR '' '') @ thread @ '' '' @ caller @ ''] '' @ msg) = Some (sev, caller, msg)"
proof -
  have len: "length stamp = 21"
    using assms(2) by (auto simp: match_classes_def glogStamp_def dest: list_all2_lengthD)
  obtain t ts where t: "thread = t # ts" "is_digit t" "CHR '' '' \<noteq> t"
    using assms(3,4) digit_chars by (cases thread) auto
  have sp: "dropWhile ((=) (CHR '' '')) (replicate k (CHR '' '') @ thread @ rest) = thread @ rest" for rest
    using dropWhile_stop [of "replicate k (CHR '' '')" "(=) (CHR '' '')" t "ts @ rest"] t by simp
  have th: "takeWhile is_digit (thread @ CHR '' '' # rest) = thread" for rest
    using takeWhile_stop [of thread is_digit "CHR '' ''" rest] assms(4) by (simp add: list_all_iff is_digit_def)
  have ca: "takeWhile (\<lambda>c. \<not> re_space c) ((caller @ '']'') @ CHR '' '' # rest) = caller @ '']''" for rest
    using takeWhile_stop [of "caller @ '']''" "\<lambda>c. \<not> re_space c" "CHR '' ''" rest] caller_nonspace [OF assms(5)]
    by (simp add: re_space_def)
  show ?thesis
    using assms(1,2,3,6) len sp [of "'' '' @ caller @ ''] '' @ msg"] th [of "caller @ ''] '' @ msg"] ca [of msg]
      callerOf_ok [OF assms(5)]
    by (simp add: glogHeader_def Let_def)
qed

section \<open>Lines of a stream\<close>

text \<open>What one line of the stream becomes.\<close>

definition lineRecords :: "Logger \<Rightarrow> bool \<Rightarrow> string \<Rightarrow> LogRecord list" where
  "lineRecords logger withCaller line =
     (if trimLineEnd line = [] then []
      else case emitStderrLine logger (trimLineEnd line) withCaller of Some r \<Rightarrow> [r] | None \<Rightarrow> [])"

lemma trimLineEnd_newline [simp]: "trimLineEnd (s @ [CHR 0x0A]) = trimLineEnd s"
  by (simp add: trimLineEnd_def)

lemma ReadString_line:
  "CHR 0x0A \<notin> set a \<Longrightarrow> ReadString (CHR 0x0A) (a @ CHR 0x0A # b) = (a @ [CHR 0x0A], b, False)"
proof -
  assume "CHR 0x0A \<notin> set a"
  then have n: "\<And>x. x \<in> set a \<Longrightarrow> x \<noteq> CHR 0x0A" by auto
  show ?thesis
    using takeWhile_stop [of a "\<lambda>c. c \<noteq> CHR 0x0A" "CHR 0x0A" b, OF n]
      dropWhile_stop [of a "\<lambda>c. c \<noteq> CHR 0x0A" "CHR 0x0A" b, OF n] by (simp add: ReadString_def)
qed

lemma ReadString_rest: "CHR 0x0A \<notin> set a \<Longrightarrow> ReadString (CHR 0x0A) a = (a, [], True)"
  by (simp add: ReadString_def)

lemma relayStderr_lines:
  "relayStderr logger withCaller input = concat (map (lineRecords logger withCaller) (Split (CHR 0x0A) input))"
proof (induction "length input" arbitrary: input rule: less_induct)
  case less
  show ?case
  proof (cases "CHR 0x0A \<in> set input")
    case True
    then obtain a b where ab: "input = a @ CHR 0x0A # b" "CHR 0x0A \<notin> set a" by (metis split_list_first)
    with less [of b] show ?thesis
      by (subst relayStderr.simps) (auto simp: ReadString_line Split_append_sep lineRecords_def Let_def split: option.split)
  next
    case False
    then show ?thesis
      by (subst relayStderr.simps) (auto simp: ReadString_rest Split_word lineRecords_def Let_def split: option.split)
  qed
qed

end
