(* ===== verification/Cli.thy ===== *)
theory Cli
  imports Go_Strings Complex_Main
begin

text \<open>
  Command lines. The two programs declare their flags as data for the \<open>urfave/cli\<close> library, which
  parses arguments and environment variables into them; what it answers is an argument of the
  actions. This theory holds the shape of a declaration, the check both programs make before
  their action (\<open>newApp\<close> in both \<open>main.go\<close>), and the client flags of \<open>pkg/flags/kubeclient.go\<close>.
\<close>

section \<open>Declarations\<close>

text \<open>Values of flags; a duration is in nanoseconds, a float is its exact value.\<close>

datatype FlagValue = StringFlag string | IntFlag int | Float64Flag rat | DurationFlag int

record cli_flag =
  fl_Name :: string
  fl_Aliases :: "string list"
  fl_Value :: FlagValue
  fl_EnvVars :: "string list"
  fl_Required :: bool

text \<open>What the library hands to the action: the value of every declared flag.\<close>

type_synonym flag_values = "string \<Rightarrow> FlagValue"

fun stringOf :: "FlagValue \<Rightarrow> string" where
  "stringOf (StringFlag s) = s"
| "stringOf _ = []"

fun intOf :: "FlagValue \<Rightarrow> int" where
  "intOf (IntFlag i) = i"
| "intOf (DurationFlag i) = i"
| "intOf _ = 0"

fun floatOf :: "FlagValue \<Rightarrow> rat" where
  "floatOf (Float64Flag q) = q"
| "floatOf _ = 0"

text \<open>The value of a flag nobody set: its declared default.\<close>

definition defaultValues :: "cli_flag list \<Rightarrow> flag_values" where
  "defaultValues fs n =
     (case find (\<lambda>f. fl_Name f = n) fs of Some f \<Rightarrow> fl_Value f | None \<Rightarrow> StringFlag [])"

text \<open>The \<open>Before\<close> hook: positional arguments are refused.\<close>

definition beforeApp :: "string list \<Rightarrow> goerr option" where
  "beforeApp args = (if length args > 0 then Some (Errorf ''arguments not supported: %v'' args) else None)"

text \<open>
  A run of the app, with what the library answers to the command line: \<open>Inl\<close> ends the run with or
  without an error (a missing flag, a request for help), \<open>Inr\<close> is the flags and the positional
  arguments, with which \<open>Before\<close> and then the action are called.
\<close>

type_synonym parse_answer = "goerr option + (flag_values \<times> string list)"

definition appRun :: "parse_answer \<Rightarrow> (flag_values \<Rightarrow> 'a) \<Rightarrow> (goerr option \<Rightarrow> 'a) \<Rightarrow> 'a" where
  "appRun parsed action stop =
     (case parsed of
        Inl err \<Rightarrow> stop err
      | Inr (v, args) \<Rightarrow> (case beforeApp args of Some err \<Rightarrow> stop (Some err) | None \<Rightarrow> action v))"

section \<open>The Kubernetes client\<close>

record KubeClientConfig =
  KubeConfig :: string
  KubeAPIQPS :: rat
  KubeAPIBurst :: int

definition kubeClientFlags :: "cli_flag list" where
  "kubeClientFlags =
     [\<lparr>fl_Name = ''kubeconfig'', fl_Aliases = [], fl_Value = StringFlag [], fl_EnvVars = [''KUBECONFIG''],
       fl_Required = False\<rparr>,
      \<lparr>fl_Name = ''kube-api-qps'', fl_Aliases = [], fl_Value = Float64Flag 5, fl_EnvVars = [''KUBE_API_QPS''],
       fl_Required = False\<rparr>,
      \<lparr>fl_Name = ''kube-api-burst'', fl_Aliases = [], fl_Value = IntFlag 10, fl_EnvVars = [''KUBE_API_BURST''],
       fl_Required = False\<rparr>]"

definition kubeClientOf :: "flag_values \<Rightarrow> KubeClientConfig" where
  "kubeClientOf v = \<lparr>KubeConfig = stringOf (v ''kubeconfig''), KubeAPIQPS = floatOf (v ''kube-api-qps''),
                     KubeAPIBurst = intOf (v ''kube-api-burst'')\<rparr>"

text \<open>
  \<open>rest.Config\<close> as the driver fills it in; \<open>rc_Source\<close> is the rest of what the library found.
  \<open>kube_env\<close> answers the two ways to find it, the rounding of \<open>float32\<close>, and the client
  constructor.
\<close>

record 'r restConfig =
  rc_Source :: 'r
  rc_QPS :: rat
  rc_Burst :: int

record ('r, 'c) kube_env =
  rest_InClusterConfig :: "'r restConfig result"
  clientcmd_BuildConfigFromFlags :: "string \<Rightarrow> 'r restConfig result"
  float32 :: "rat \<Rightarrow> rat"
  coreclientset_NewForConfig :: "'r restConfig \<Rightarrow> 'c result"

definition NewClientSetConfig :: "('r, 'c) kube_env \<Rightarrow> KubeClientConfig \<Rightarrow> 'r restConfig result" where
  "NewClientSetConfig env k =
     (case (if KubeConfig k = []
            then (case rest_InClusterConfig env of
                    Inl err \<Rightarrow> Inl (Wrapf ''create in-cluster client configuration: %w'' [] err)
                  | Inr c \<Rightarrow> Inr c)
            else (case clientcmd_BuildConfigFromFlags env (KubeConfig k) of
                    Inl err \<Rightarrow> Inl (Wrapf ''create out-of-cluster client configuration: %w'' [] err)
                  | Inr c \<Rightarrow> Inr c)) of
        Inl err \<Rightarrow> Inl err
      | Inr csconfig \<Rightarrow> Inr (csconfig\<lparr>rc_QPS := float32 env (KubeAPIQPS k), rc_Burst := KubeAPIBurst k\<rparr>))"

definition NewClientSets :: "('r, 'c) kube_env \<Rightarrow> KubeClientConfig \<Rightarrow> 'c result" where
  "NewClientSets env k =
     (case NewClientSetConfig env k of
        Inl err \<Rightarrow> Inl (Wrapf ''create client configuration: %w'' [] err)
      | Inr csconfig \<Rightarrow>
          (case coreclientset_NewForConfig env csconfig of
             Inl err \<Rightarrow> Inl (Wrapf ''create core client: %w'' [] err)
           | Inr coreclient \<Rightarrow> Inr coreclient))"

text \<open>
  A client is made exactly from the configuration of the selected source, with the limits of the
  flags put in.
\<close>

lemma NewClientSets_Inr:
  "NewClientSets env k = Inr c \<longleftrightarrow>
     (\<exists>found. (if KubeConfig k = [] then rest_InClusterConfig env
               else clientcmd_BuildConfigFromFlags env (KubeConfig k)) = Inr found \<and>
        coreclientset_NewForConfig env (found\<lparr>rc_QPS := float32 env (KubeAPIQPS k), rc_Burst := KubeAPIBurst k\<rparr>) = Inr c)"
  by (auto simp: NewClientSets_def NewClientSetConfig_def split: sum.splits)

end
