(* ===== verification/Plugin_Main.thy ===== *)
theory Plugin_Main
  imports Driver Stderr_Relay Cli
begin

text \<open>
  \<open>cmd/npu-kubelet-plugin/main.go\<close>: the flags of the plugin, the action that turns them into a
  configuration, and \<open>RunPlugin\<close>, from the directory checks to the shutdown.
\<close>

section \<open>Flags\<close>

definition second :: int where "second = 1000000000"

text \<open>
  The two directory defaults are constants of the kubelet plugin library: \<open>registryDir\<close> and
  \<open>pluginsDir\<close>.
\<close>

definition kubeletPluginFlags :: "string \<Rightarrow> string \<Rightarrow> cli_flag list" where
  "kubeletPluginFlags registryDir pluginsDir =
     [\<lparr>fl_Name = ''node-name'', fl_Aliases = [], fl_Value = StringFlag [], fl_EnvVars = [''NODE_NAME''],
       fl_Required = True\<rparr>,
      \<lparr>fl_Name = ''cdi-root'', fl_Aliases = [], fl_Value = StringFlag ''/etc/cdi'', fl_EnvVars = [''CDI_ROOT''],
       fl_Required = False\<rparr>,
      \<lparr>fl_Name = ''kubelet-registrar-directory-path'', fl_Aliases = [], fl_Value = StringFlag registryDir,
       fl_EnvVars = [''KUBELET_REGISTRAR_DIRECTORY_PATH''], fl_Required = False\<rparr>,
      \<lparr>fl_Name = ''kubelet-plugins-directory-path'', fl_Aliases = [], fl_Value = StringFlag pluginsDir,
       fl_EnvVars = [''KUBELET_PLUGINS_DIRECTORY_PATH''], fl_Required = False\<rparr>,
      \<lparr>fl_Name = ''healthcheck-port'', fl_Aliases = [], fl_Value = IntFlag (-1), fl_EnvVars = [''HEALTHCHECK_PORT''],
       fl_Required = False\<rparr>,
      \<lparr>fl_Name = ''device-scan-interval'', fl_Aliases = [''vfio-rescan-interval''], fl_Value = DurationFlag (5 * second),
       fl_EnvVars = [''DEVICE_SCAN_INTERVAL'', ''VFIO_RESCAN_INTERVAL''], fl_Required = False\<rparr>] @ kubeClientFlags"

text \<open>The configuration of the action: the flags, and no test seams.\<close>

definition pluginConfig :: "flag_values \<Rightarrow> Config" where
  "pluginConfig v =
     \<lparr>flags_nodeName = stringOf (v ''node-name''), flags_cdiRoot = stringOf (v ''cdi-root''),
      flags_kubeletRegistrarDirectoryPath = stringOf (v ''kubelet-registrar-directory-path''),
      flags_kubeletPluginsDirectoryPath = stringOf (v ''kubelet-plugins-directory-path''),
      flags_healthcheckPort = intOf (v ''healthcheck-port''),
      flags_deviceScanInterval = intOf (v ''device-scan-interval''),
      cfg_sysfsPCIDevicesRoot = []\<rparr>"

section \<open>Running\<close>

record plugin_env =
  pe_MkdirAll :: "string \<Rightarrow> goerr option"
  pe_Stat :: "string \<Rightarrow> bool result"
  pe_driver :: driver_env

text \<open>The record and the state \<open>RunPlugin\<close> ends with once its context is done.\<close>

definition shutdownRecord :: "goerr option \<Rightarrow> LogRecord" where
  "shutdownRecord cause =
     (case cause of
        Some err \<Rightarrow> if \<not> errors_Is_Canceled err
                    then (LevelWarn, ''Shutting down after fatal background error'', [])
                    else (LevelInfo, ''Shutting down on signal'', [])
      | None \<Rightarrow> (LevelInfo, ''Shutting down on signal'', []))"

text \<open>
  \<open>life\<close> stands for what happens while \<open>RunPlugin\<close> waits for its context: from the driver just
  started to the one whose context is done. The result is the world, the error, the driver after
  the shutdown if one was started, and the records.
\<close>

definition RunPlugin ::
    "plugin_env \<Rightarrow> Config \<Rightarrow> (driver \<Rightarrow> driver) \<Rightarrow> world \<Rightarrow> world \<times> goerr option \<times> driver option \<times> LogRecord list" where
  "RunPlugin env config life w =
     (case runPluginDirs (pe_MkdirAll env) (pe_Stat env) config of
        Some err \<Rightarrow> (w, Some err, None, [])
      | None \<Rightarrow>
          (case NewDriver (pe_driver env) config w of
             (w1, Inl err) \<Rightarrow> (w1, Some err, None, [])
           | (w1, Inr d0) \<Rightarrow>
               let d = life d0 in
               (d_world d, None, Some (Shutdown d), [driverStarted config (d_state d0), shutdownRecord (d_cancelled d)])))"

text \<open>The action of the app: the Kubernetes clients, then the plugin.\<close>

definition pluginAction ::
    "('r, 'c) kube_env \<Rightarrow> plugin_env \<Rightarrow> flag_values \<Rightarrow> (driver \<Rightarrow> driver) \<Rightarrow> world \<Rightarrow>
     world \<times> goerr option \<times> driver option \<times> LogRecord list" where
  "pluginAction kenv env v life w =
     (case NewClientSets kenv (kubeClientOf v) of
        Inl err \<Rightarrow> (w, Some (Wrapf ''create client: %w'' [] err), None, [])
      | Inr core \<Rightarrow> RunPlugin env (pluginConfig v) life w)"

text \<open>
  \<open>main\<close>: the settings of the two environment variables, the bridges, the run of the app and its
  exit status. The result also holds the world and the driver the run ends with.
\<close>

record main_result =
  main_klog :: int
  main_glog :: glogBridge
  main_logs :: "LogRecord list"
  main_exit :: nat
  main_world :: world
  main_driver :: "driver option"

definition pluginMain ::
    "string \<Rightarrow> string \<Rightarrow> bool \<Rightarrow> goerr option \<Rightarrow> string \<Rightarrow>
     parse_answer \<Rightarrow> ('r, 'c) kube_env \<Rightarrow> plugin_env \<Rightarrow> (driver \<Rightarrow> driver) \<Rightarrow> world \<Rightarrow> main_result" where
  "pluginMain envLevel envFormat linked pipeErr version parsed kenv env life w =
     (let (logger, level, format, warns) = setupFromEnv envLevel envFormat;
          (w', runErr, fin, logs) = appRun parsed (\<lambda>v. pluginAction kenv env v life w) (\<lambda>err. (w, err, None, []));
          records = [(LevelInfo, ''Starting npu-kubelet-plugin'',
                      [(''version'', version), (''logLevel'', level), (''logFormat'', format)])] @ logs @
                    (if runErr \<noteq> None then [(LevelError, ''Command failed'', [])] else [])
      in \<lparr>main_klog = BridgeKlog level, main_glog = BridgeGlog linked pipeErr level,
          main_logs = warns @ filter (\<lambda>r. Enabled logger (fst r)) records,
          main_exit = (if runErr \<noteq> None then 1 else 0), main_world = w', main_driver = fin\<rparr>)"

lemma HandleError_other_cause:
  "errors_Is_Canceled (Wrapf ''fatal background error: %w'' [] err) = errors_Is_Canceled err"
  by simp

text \<open>A run that got a driver up: what it started from and what it stopped.\<close>

lemma RunPlugin_started:
  "RunPlugin env config life w = (w', None, fin, logs) \<longleftrightarrow>
     (\<exists>w1 d0. runPluginDirs (pe_MkdirAll env) (pe_Stat env) config = None \<and>
        NewDriver (pe_driver env) config w = (w1, Inr d0) \<and> w' = d_world (life d0) \<and> fin = Some (Shutdown (life d0)) \<and>
        logs = [driverStarted config (d_state d0), shutdownRecord (d_cancelled (life d0))])"
  by (auto simp: RunPlugin_def Let_def split: option.splits prod.splits sum.splits)

text \<open>
  The exit status is 0 exactly if only help was asked for, or the driver came up: what ends a
  running driver does not change it. A failure is reported whatever the log level is.
\<close>

lemma pluginMain_exit:
  "main_exit (pluginMain envLevel envFormat linked pipeErr version parsed kenv env life w) = 0 \<longleftrightarrow>
     parsed = Inl None \<or>
     (\<exists>v core w1 d0. parsed = Inr (v, []) \<and> NewClientSets kenv (kubeClientOf v) = Inr core \<and>
        runPluginDirs (pe_MkdirAll env) (pe_Stat env) (pluginConfig v) = None \<and>
        NewDriver (pe_driver env) (pluginConfig v) w = (w1, Inr d0))"
  by (auto simp: pluginMain_def appRun_def beforeApp_def pluginAction_def RunPlugin_def Let_def
      split: prod.splits sum.splits option.splits)

lemma setup_enables_errors: "setupFromEnv envLevel envFormat = (logger, level, format, warns) \<Longrightarrow> Enabled logger LevelError"
  by (auto simp: setupFromEnv_def Let_def newLogger_def Enabled_def parseLevel_def level_order level_defs split: if_splits)

lemma pluginMain_reports:
  "main_exit (pluginMain envLevel envFormat linked pipeErr version parsed kenv env life w) \<noteq> 0 \<Longrightarrow>
     (LevelError, ''Command failed'', []) \<in>
       set (main_logs (pluginMain envLevel envFormat linked pipeErr version parsed kenv env life w))"
  by (auto simp: pluginMain_def Let_def setup_enables_errors split: prod.splits if_splits)

end
