(* ===== verification/Driver_Spec.thy ===== *)
theory Driver_Spec
  imports Driver
begin

text \<open>
  What the driver promises the scheduler and the kubelet, without how it does it: an inventory that
  moves from one complete reading of the host to another, what is offered to the scheduler, the
  devices each claim was given, readiness, and why the driver was told to stop. The running driver
  refines it.
\<close>

section \<open>The abstract node\<close>

record node_spec =
  ns_inventory :: "Device list \<times> Device list"
  ns_offered :: "Device list"
  ns_given :: "string \<Rightarrow> DRADevice list"
  ns_ready :: bool
  ns_stop :: "goerr option"

text \<open>A device that may be given: of this node's pool and in the inventory.\<close>

definition givable :: "string \<Rightarrow> Device list \<times> Device list \<Rightarrow> DRADevice \<Rightarrow> bool" where
  "givable node found x \<longleftrightarrow> PoolName x = node \<and> DeviceName x \<in> Name ` (set (fst found) \<union> set (snd found))"

text \<open>
  Preparing a claim either changes nothing or gives devices to a claim that had none. A scan
  either changes nothing or replaces the whole inventory by what it found complete, and offers the
  new one unless that publication failed. The first cause to stop is the one that counts.
\<close>

inductive spec_step :: "string \<Rightarrow> (scan_env \<Rightarrow> Device list \<times> Device list \<Rightarrow> bool) \<Rightarrow> node_spec \<Rightarrow> event \<Rightarrow> node_spec \<Rightarrow> bool"
  for node complete where
  scan_starts: "spec_step node complete s ScanBegin s"
| scan_keeps: "spec_step node complete s (ScanEnd t) s"
| scan_moves: "complete (tick_env t) found \<Longrightarrow> found \<noteq> ns_inventory s \<Longrightarrow>
     offer = (if tick_publish t [(node, [fst found @ snd found])] = None then fst found @ snd found else ns_offered s) \<Longrightarrow>
     spec_step node complete s (ScanEnd t) (s\<lparr>ns_inventory := found, ns_offered := offer\<rparr>)"
| keep: "spec_step node complete s (PrepareClaim env claim) s"
| give: "ns_given s (claim_UID claim) = [] \<Longrightarrow> list_all (givable node (ns_inventory s)) xs \<Longrightarrow>
     spec_step node complete s (PrepareClaim env claim) (s\<lparr>ns_given := (ns_given s)(claim_UID claim := xs)\<rparr>)"
| hold: "spec_step node complete s (UnprepareClaim env uid) s"
| release: "spec_step node complete s (UnprepareClaim env uid) (s\<lparr>ns_given := (ns_given s)(uid := [])\<rparr>)"
| verdict: "spec_step node complete s Registration (s\<lparr>ns_ready := ready\<rparr>)"
| survive: "spec_step node complete s BackgroundError s"
| fail: "ns_stop s = None \<Longrightarrow> spec_step node complete s BackgroundError (s\<lparr>ns_stop := Some err\<rparr>)"
| stop: "ns_stop s = None \<Longrightarrow> spec_step node complete s Signal (s\<lparr>ns_stop := Some ErrCanceled\<rparr>)"

section \<open>The abstraction\<close>

definition absDriver :: "driver \<Rightarrow> node_spec" where
  "absDriver d =
     \<lparr>ns_inventory = (npuDevices (d_state d), vfioDevices (d_state d)),
      ns_offered = concat (concat (map snd (d_published d))),
      ns_given = (\<lambda>uid. GetDevices (recorded (w_claims (d_world d)) uid)),
      ns_ready = d_registered d, ns_stop = d_cancelled d\<rparr>"

text \<open>What a scan finds on its host, if it reads it completely.\<close>

definition scannable :: "string \<Rightarrow> scan_env \<Rightarrow> Device list \<times> Device list \<Rightarrow> bool" where
  "scannable root e found \<longleftrightarrow>
     (\<exists>known snap. snapshot_of e root known snap \<and> found = (snap_npu snap, snap_vfio snap))"

lemma GetDevices_Nil [simp]: "GetDevices pds = [] \<longleftrightarrow> pds = []"
  by (simp add: GetDevices_map)

section \<open>Each step\<close>

lemma scan_refines:
  assumes "driver_inv S s0 d" "d_known d = Some known" "finishScan (tick_env t) known (d_state d) = r"
  shows "spec_step (nodeName s0) (scannable (state_sysfsRoot s0)) (absDriver d) (ScanEnd t)
           (absDriver (d\<lparr>d_known := None, d_state := fst (observeScanDuration (tick_took t) interval (rs_state r)),
                         d_published := fst (afterScan (tick_publish t) r (d_published d))\<rparr>))"
    (is "spec_step _ _ _ _ (absDriver ?d')")
proof -
  have r: "r = RescanDevices (tick_env t) (d_state d)" and root: "state_sysfsRoot (d_state d) = state_sysfsRoot s0"
    and c: "consistent (rs_state r)" and node: "nodeName (rs_state r) = nodeName s0"
    using assms RescanDevices_frame(1,4) by (auto simp: driver_inv_def RescanDevices_def)
  let ?found = "(npuDevices (rs_state r), vfioDevices (rs_state r))"
  let ?offer = "concat (concat (map snd (fst (afterScan (tick_publish t) r (d_published d)))))"
  have abs: "absDriver ?d' = (absDriver d)\<lparr>ns_inventory := ?found, ns_offered := ?offer\<rparr>"
    by (simp add: absDriver_def observeScanDuration_frame)
  show ?thesis
  proof (cases "rs_changed r")
    case False
    then have "?found = ns_inventory (absDriver d)"
      using RescanDevices_frame(6) r by (simp add: absDriver_def)
    moreover from False have "fst (afterScan (tick_publish t) r (d_published d)) = d_published d" by (simp add: afterScan_def)
    ultimately have "absDriver ?d' = absDriver d" unfolding abs by (simp add: absDriver_def)
    then show ?thesis by (simp add: scan_keeps)
  next
    case True
    then have e: "rs_err r = None" using RescanDevices_Some(2) r by (cases "rs_err r") auto
    then have "scannable (state_sysfsRoot s0) (tick_env t) ?found"
      using RescanDevices_None [of "tick_env t" "d_state d"] r root by (auto simp: scannable_def)
    moreover have "?found \<noteq> ns_inventory (absDriver d)"
      using True RescanDevices_frame(6) r by (simp add: absDriver_def)
    moreover have "rs_resources r = [(nodeName s0, [npuDevices (rs_state r) @ vfioDevices (rs_state r)])]"
      using c node RescanDevices_frame(5) r by (simp add: consistent_def)
    then have "?offer = (if tick_publish t [(nodeName s0, [fst ?found @ snd ?found])] = None
        then fst ?found @ snd ?found else ns_offered (absDriver d))"
      using True e by (simp add: afterScan_def absDriver_def split: option.splits)
    ultimately show ?thesis unfolding abs by (rule scan_moves)
  qed
qed

lemma admitted_found:
  assumes "consistent s" "admitted sy s r"
  shows "res_Pool r = nodeName s \<and>
    (\<exists>dev \<in> set (npuDevices s @ vfioDevices s). Name dev = res_Device r \<and> live sy (state_sysfsRoot s) dev)"
  using assms indexDevices_Some [of "npuDevices s @ vfioDevices s" "res_Device r"]
  by (fastforce simp: admitted_def consistent_def)

lemma admitted_givable:
  assumes "consistent s" "admitted sy s r"
  shows "givable (nodeName s) (npuDevices s, vfioDevices s) (identity env s claim r)"
proof -
  obtain dev where "dev \<in> set (npuDevices s @ vfioDevices s)" "res_Device r = Name dev" "res_Pool r = nodeName s"
    using admitted_found [OF assms] by metis
  then show ?thesis by (auto simp: givable_def identity_def)
qed

lemma prepare_refines:
  assumes "driver_inv S s0 d" "prepareResourceClaim env (d_state d) claim (d_world d) = (w', r)"
  shows "spec_step (nodeName s0) complete (absDriver d) (PrepareClaim env claim) (absDriver (d\<lparr>d_world := w'\<rparr>))"
proof -
  obtain p where p: "Prepare env (d_state d) claim (d_world d) = (w', p)"
    using prepareResourceClaim_Prepare [OF assms(2)] by blast
  let ?rec = "\<lambda>w. recorded (w_claims w) (claim_UID claim)"
  show ?thesis
  proof (cases "isl p \<or> ?rec (d_world d) \<noteq> []")
    case True
    then have "w_claims w' = w_claims (d_world d)"
      using Prepare_failed_claims p Prepare_early [of env "d_world d" claim "d_state d"] by (cases p) auto
    then have "absDriver (d\<lparr>d_world := w'\<rparr>) = absDriver d" by (simp add: absDriver_def)
    then show ?thesis by (simp add: keep)
  next
    case False
    then obtain ds where ds: "Prepare env (d_state d) claim (d_world d) = (w', Inr ds)" "?rec (d_world d) = []"
      using p by (cases p) auto
    have "absDriver (d\<lparr>d_world := w'\<rparr>) = (absDriver d)
        \<lparr>ns_given := (ns_given (absDriver d))(claim_UID claim := GetDevices (?rec w'))\<rparr>"
      using Prepare_other_claims [OF ds(1)] by (auto simp: absDriver_def recorded_def fun_eq_iff)
    moreover have "list_all (givable (nodeName s0) (ns_inventory (absDriver d))) (GetDevices (?rec w'))"
      using Prepare_gives(2,3) [OF ds] assms(1) admitted_givable [of "d_state d" "env_sysfs env"]
      by (simp add: list_all_iff absDriver_def driver_inv_def)
    ultimately show ?thesis using give [of "absDriver d"] ds(2) by (simp add: absDriver_def)
  qed
qed

lemma unprepare_refines:
  assumes "unprepareResourceClaim env (d_state d) uid (d_world d) = (w', e)"
  shows "spec_step node complete (absDriver d) (UnprepareClaim env uid) (absDriver (d\<lparr>d_world := w'\<rparr>))"
proof -
  obtain e' where u: "Unprepare env (d_state d) uid (d_world d) = (w', e')"
    using unprepareResourceClaim_Unprepare [OF assms] by blast
  consider "w_claims w' = w_claims (d_world d)" | "w_claims w' = gm_del uid (w_claims (d_world d))"
    using Unprepare_claims [OF u] by blast
  then show ?thesis
  proof cases
    case 1
    then have "absDriver (d\<lparr>d_world := w'\<rparr>) = absDriver d" by (simp add: absDriver_def)
    then show ?thesis by (simp add: hold)
  next
    case 2
    then have "absDriver (d\<lparr>d_world := w'\<rparr>) = (absDriver d)\<lparr>ns_given := (ns_given (absDriver d))(uid := [])\<rparr>"
      by (auto simp: absDriver_def recorded_def fun_eq_iff)
    then show ?thesis by (simp add: release)
  qed
qed

lemma step_refines:
  assumes "driver_inv S s0 d" "driver_step d ev d'"
  shows "spec_step (nodeName s0) (scannable (state_sysfsRoot s0)) (absDriver d) ev (absDriver d')"
  using assms(2)
proof cases
  case scan_begin
  then show ?thesis using scan_starts [of _ _ "absDriver d"] by (simp add: absDriver_def)
next
  case (scan_end known t r interval)
  with scan_refines [OF assms(1) scan_end(3,4)] show ?thesis by simp
next
  case (prepare claim env w' r)
  with prepare_refines [OF assms(1) prepare(4)] show ?thesis by simp
next
  case (unprepare env uid w' e)
  with unprepare_refines show ?thesis by simp
next
  case (registration request handlerErr)
  have "absDriver d' = (absDriver d)\<lparr>ns_ready := d_registered d'\<rparr>"
    using registration by (auto simp: absDriver_def observeRegistration_def split: option.splits)
  with registration(1) show ?thesis using verdict by metis
next
  case (background_error recoverable err)
  have "absDriver d' = (absDriver d)\<lparr>ns_stop := d_cancelled d'\<rparr>" "d_cancelled d' = d_cancelled d \<or>
      d_cancelled d = None \<and> (\<exists>e. d_cancelled d' = Some e)"
    using background_error by (auto simp: absDriver_def HandleError_def)
  moreover have "(absDriver d)\<lparr>ns_stop := d_cancelled d\<rparr> = absDriver d" "ns_stop (absDriver d) = d_cancelled d"
    by (simp_all add: absDriver_def)
  ultimately show ?thesis using background_error(1) survive fail by metis
next
  case signal
  then show ?thesis using stop [of "absDriver d"] by (simp add: absDriver_def)
qed

interpretation node: simulation driver_step "within S" "driver_inv S s0"
  "spec_step (nodeName s0) (scannable (state_sysfsRoot s0))" absDriver
  for S s0
  by unfold_locales (rule step_refines)

section \<open>Where a record came from\<close>

lemma step_records:
  assumes "driver_step d ev d'" "recorded (w_claims (d_world d')) uid \<noteq> recorded (w_claims (d_world d)) uid"
    and "recorded (w_claims (d_world d')) uid \<noteq> []"
  obtains env claim where "ev = PrepareClaim env claim" "claim_UID claim = uid"
    "\<forall>r \<in> set (driverResults claim). admitted (env_sysfs env) (d_state d) r"
    "GetDevices (recorded (w_claims (d_world d')) uid) = map (identity (env_cdi env) (d_state d) claim) (driverResults claim)"
proof -
  have unp: "ev \<noteq> UnprepareClaim env uid" for env
  proof
    assume "ev = UnprepareClaim env uid"
    with assms(1) obtain w' e where "unprepareResourceClaim env (d_state d) uid (d_world d) = (w', e)" "d_world d' = w'"
      by (auto elim: driver_stepE)
    with assms(2,3) show False using unprepareResourceClaim_Unprepare Unprepare_claims by (fastforce simp: recorded_def)
  qed
  then have fresh: "recorded (w_claims (d_world d)) uid = []" using step_keeps_record [OF assms(1)] assms(2) by blast
  show thesis using assms(1)
  proof cases
    case (prepare claim env w' r)
    obtain p where p: "Prepare env (d_state d) claim (d_world d) = (w', p)"
      using prepareResourceClaim_Prepare [OF prepare(4)] by blast
    then have uid: "uid = claim_UID claim"
      using Prepare_other_claims [OF p, of uid] assms(2) prepare(2) by (cases "uid = claim_UID claim") (auto simp: recorded_def)
    moreover obtain ds where "p = Inr ds"
      using p Prepare_failed_claims assms(2) prepare(2) by (cases p) auto
    ultimately have "Prepare env (d_state d) claim (d_world d) = (w', Inr ds)" "recorded (w_claims (d_world d)) (claim_UID claim) = []"
      using p fresh by simp_all
    note gives = Prepare_gives(2,3) [OF this]
    show thesis by (rule that [OF prepare(1)]) (use gives uid prepare(2) in simp_all)
  next
    case (unprepare env uid' w' e)
    then obtain e' where "Unprepare env (d_state d) uid' (d_world d) = (w', e')"
      using unprepareResourceClaim_Unprepare by blast
    moreover have "uid \<noteq> uid'" using unp [of env] unprepare(1) by auto
    ultimately show thesis using Unprepare_other_claims [of env "d_state d" uid' "d_world d" w' e' uid] unprepare(2) assms(2)
      by (simp add: recorded_def)
  qed (use assms(2) in \<open>auto simp: HandleError_def observeRegistration_def split: option.splits if_splits\<close>)
qed

end
