(* ===== verification/Request_Log.thy ===== *)
theory Request_Log
  imports Driver
begin

text \<open>
  The records \<open>driver.go\<close> writes about the kubelet's calls: one per batch that has claims, and per
  claim its outcome under the claim's identity, which every record below the call inherits.
\<close>

definition claimContext :: "log_ctx \<Rightarrow> ResourceClaim \<Rightarrow> log_ctx" where
  "claimContext ctx claim =
     WithValues ctx [(''claimUID'', claim_UID claim), (''claimNamespace'', claim_Namespace claim), (''claimName'', claim_Name claim)]"

definition failedToPrepare :: LogRecord where
  "failedToPrepare = (LevelError, ''Failed to prepare devices for claim'', [])"

text \<open>The records of \<open>prepareResourceClaim\<close> itself, for the answer it gave.\<close>

definition prepareRecords :: "Logger \<Rightarrow> log_ctx \<Rightarrow> ResourceClaim \<Rightarrow> PrepareResult \<Rightarrow> LogRecord list" where
  "prepareRecords logger ctx claim r =
     concat (map (FromContext (claimContext ctx claim) logger)
       (if pr_Err r \<noteq> None then [failedToPrepare]
        else [(LevelInfo, ''Prepared devices for claim'', []), (LevelDebug, ''Prepared device details'', [])]))"

definition receivedRecord :: "string \<Rightarrow> 'c list \<Rightarrow> LogRecord list" where
  "receivedRecord verb claims =
     (if claims = [] then []
      else [(LevelInfo, ''Received request to '' @ verb @ '' resource claims'', [(''count'', format_nat (length claims))])])"

text \<open>The answers of a batch in the order they are given.\<close>

fun answers :: "('c \<Rightarrow> 'w \<Rightarrow> 'w \<times> 'r) \<Rightarrow> 'c list \<Rightarrow> 'w \<Rightarrow> ('c \<times> 'r) list" where
  "answers f [] w = []"
| "answers f (c # cs) w = (case f c w of (w', r) \<Rightarrow> (c, r) # answers f cs w')"

definition prepareLog :: "Logger \<Rightarrow> log_ctx \<Rightarrow> (ResourceClaim \<Rightarrow> prep_env) \<Rightarrow> (ResourceClaim \<Rightarrow> DeviceState) \<Rightarrow> ResourceClaim list \<Rightarrow> world \<Rightarrow> LogRecord list" where
  "prepareLog logger ctx env state claims w =
     concat (map (FromContext ctx logger) (receivedRecord ''prepare'' claims)) @
     concat (map (\<lambda>(claim, r). prepareRecords logger ctx claim r)
       (answers (\<lambda>claim. prepareResourceClaim (env claim) (state claim) claim) claims w))"

lemma answers_claims [simp]: "map fst (answers f cs w) = cs"
  by (induction cs arbitrary: w) (auto split: prod.splits)

lemma answers_subset: "(c, r) \<in> set (answers f cs w) \<Longrightarrow> c \<in> set cs"
  by (metis answers_claims image_eqI fst_conv list.set_map)

lemma batch_other: "k \<notin> key ` set cs \<Longrightarrow> batch f key cs w m = (w', m') \<Longrightarrow> gm_get m' k = gm_get m k"
  by (induction cs arbitrary: w m) (auto split: prod.splits)

text \<open>The map a batch returns holds each claim's answer.\<close>

lemma batch_answers:
  "distinct (map key cs) \<Longrightarrow> batch f key cs w m = (w', m') \<Longrightarrow> c \<in> set cs \<Longrightarrow>
     gm_get m' (key c) = Some r \<longleftrightarrow> (c, r) \<in> set (answers f cs w)"
proof (induction cs arbitrary: w m)
  case (Cons x cs)
  obtain w1 r1 where x: "f x w = (w1, r1)" by fastforce
  then have rest: "batch f key cs w1 (gm_put (key x) r1 m) = (w', m')" using Cons.prems(2) by simp
  show ?case
  proof (cases "c = x")
    case True
    have "x \<notin> set cs" "key x \<notin> key ` set cs" using Cons.prems(1) by auto
    with batch_other [OF this(2) rest] answers_subset [of x _ f cs w1] True x show ?thesis by auto
  next
    case False
    with Cons.IH [OF _ rest] Cons.prems(1,3) x show ?thesis by auto
  qed
qed simp

lemma prepareRecords_failed:
  "(lvl, msg, attrs) \<in> set (prepareRecords logger ctx claim r) \<Longrightarrow> \<exists>more. attrs = claimContext ctx claim @ more"
  "(LevelError, ''Failed to prepare devices for claim'', claimContext ctx c) \<in> set (prepareRecords logger ctx claim r) \<longleftrightarrow>
     claimContext ctx c = claimContext ctx claim \<and> Enabled logger LevelError \<and> pr_Err r \<noteq> None"
  by (auto simp: prepareRecords_def FromContext_def failedToPrepare_def split: if_splits)

text \<open>A failed claim is found in the log under its identity, and only a failed one.\<close>

lemma prepareLog_failures:
  assumes "PrepareResourceClaims env state claims w = (w', results)" "distinct (map claim_UID claims)" "c \<in> set claims"
  shows "(LevelError, ''Failed to prepare devices for claim'', claimContext ctx c) \<in> set (prepareLog logger ctx env state claims w) \<longleftrightarrow>
    Enabled logger LevelError \<and> (\<exists>r. gm_get results (claim_UID c) = Some r \<and> pr_Err r \<noteq> None)"
proof -
  let ?f = "\<lambda>claim. prepareResourceClaim (env claim) (state claim) claim"
  have b: "batch ?f claim_UID claims w gm_empty = (w', results)" using assms(1) by (simp add: PrepareResourceClaims_def)
  have same: "claimContext ctx c = claimContext ctx x \<longleftrightarrow> x = c" if "x \<in> set claims" for x
    using that assms(2,3) by (auto simp: claimContext_def WithValues_def distinct_map inj_on_def)
  have head: "(LevelError, ''Failed to prepare devices for claim'', claimContext ctx c) \<notin>
      set (concat (map (FromContext ctx logger) (receivedRecord ''prepare'' claims)))"
    by (auto simp: receivedRecord_def FromContext_def level_defs split: if_splits)
  have "(LevelError, ''Failed to prepare devices for claim'', claimContext ctx c) \<in> set (prepareLog logger ctx env state claims w) \<longleftrightarrow>
      (\<exists>x r. (x, r) \<in> set (answers ?f claims w) \<and> x = c \<and> Enabled logger LevelError \<and> pr_Err r \<noteq> None)"
    using head same answers_subset [of _ _ ?f claims w]
    by (fastforce simp: prepareLog_def prepareRecords_failed(2))
  then show ?thesis using batch_answers [OF assms(2) b assms(3)] by auto
qed

end
