(* ===== verification/Driver_Properties.thy ===== *)
theory Driver_Properties
  imports Scenario Plugin_Main Driver_Spec Request_Log
begin

text \<open>Properties of the running driver: the scan loop and the kubelet's calls interleaved.\<close>

text \<open>
  C1. In every state the running driver can reach from a successful start, whatever the order of
  scans, kubelet calls, registrations, signals and background errors: the lookup table and the
  resources agree with the device lists; these lists, native and passthrough, are both those of the
  last scan that read the host completely, and those of startup before there was one; what is
  published is the inventory of startup or of one scan, as this node's pool, and it is the one in
  effect unless the publication of just that inventory failed; and the claim stores satisfy their
  invariant, but for the owner markers of claims for which a call tore one.
  A \<open>Prepare\<close> that runs while a scan is under way therefore sees one whole inventory.
\<close>

theorem running_driver_invariant:
  assumes "NewDriver env config w = (w', Inr d0)" "world_ok w" "runs d0 evs d"
  shows "consistent (d_state d) \<and> nodeName (d_state d) = flags_nodeName config \<and>
         last_reading (d_state d0) evs (d_state d) \<and>
         (\<exists>npu vfio. inventory (ticks evs) (d_state d0) npu vfio \<and>
            d_published d = [(flags_nodeName config, [npu @ vfio])]) \<and>
         (d_published d = driverResources (d_state d) \<or>
            (\<exists>t. ScanEnd t \<in> set evs \<and> tick_publish t (driverResources (d_state d)) \<noteq> None)) \<and>
         stores_ok (torn evs) (d_world d)"
  using running_inv [OF assms(3,1)] running_stores [OF assms(3,1,2)] runs_last_reading [OF assms(3) NewDriver_inv [OF assms(1)]]
    NewDeviceState_Inr(2) [OF NewDriver_Inr(1) [OF assms(1)]]
  by (auto simp: driver_inv_def published_after_def ticks_def)

theorem running_driver_invariant_witness:
  "consistent (d_state (HandleError (\<lambda>_. False) (ErrLib ''boom'') ex_driver))"
  using running_driver_invariant [OF ex_NewDriver ex_world_ok ex_runs] by blast

text \<open>
  C15. If startup read a consistent inventory, no PCI function is ever offered twice: neither the
  inventory in effect nor what is published holds one function under two names.
\<close>

theorem never_offered_twice:
  assumes "NewDriver env config w = (w', Inr d0)" "runs d0 evs d"
    and "distinct (map lowerBus (npuDevices (d_state d0) @ vfioDevices (d_state d0)))"
  shows "distinct (map lowerBus (npuDevices (d_state d) @ vfioDevices (d_state d))) \<and>
         (\<exists>devices. d_published d = [(flags_nodeName config, [devices])] \<and> distinct (map lowerBus devices))"
proof -
  have inv: "driver_inv (ticks evs) (d_state d0) d" by (rule running_inv [OF assms(2,1)])
  then obtain npu vfio where "inventory (ticks evs) (d_state d0) npu vfio"
    "d_published d = [(flags_nodeName config, [npu @ vfio])]"
    using NewDeviceState_Inr(2) [OF NewDriver_Inr(1) [OF assms(1)]] by (auto simp: driver_inv_def published_after_def)
  with inventory_buses [OF _ assms(3)] inv show ?thesis unfolding driver_inv_def by blast
qed

theorem never_offered_twice_witness:
  "distinct (map lowerBus (npuDevices (d_state (HandleError (\<lambda>_. False) (ErrLib ''boom'') ex_driver)) @
     vfioDevices (d_state (HandleError (\<lambda>_. False) (ErrLib ''boom'') ex_driver))))"
proof -
  have "distinct (map lowerBus (npuDevices (d_state ex_driver) @ vfioDevices (d_state ex_driver)))" by code_simp
  from never_offered_twice [OF ex_NewDriver ex_runs this] show ?thesis by blast
qed

text \<open>
  C2. The running driver implements the abstract node: from what \<open>NewDriver\<close> found on the host and
  in the checkpoint, every history of scans, kubelet calls, verdicts, errors and signals is one of
  \<open>spec_step\<close>. The inventory only moves, as a whole, to what a scan read completely, which is then
  offered unless publishing it failed; a claim gets devices only when it has none and only devices of
  this pool that are in the inventory of that moment, loses them only by being unprepared, and the
  first cause to stop counts.
\<close>

theorem driver_refines_node:
  assumes "NewDriver env config w = (w', Inr d0)" "runs d0 evs d"
  shows "trace (spec_step (flags_nodeName config) (scannable (sysfsRootOf config))) (absDriver d0) evs (absDriver d) \<and>
         absDriver d0 =
           \<lparr>ns_inventory = (fst (startupNpu (de_startup env) (sysfsRootOf config)), fst (startupVfio (de_startup env) (sysfsRootOf config))),
            ns_offered = fst (startupNpu (de_startup env) (sysfsRootOf config)) @ fst (startupVfio (de_startup env) (sysfsRootOf config)),
            ns_given = (\<lambda>uid. GetDevices (recorded (w_claims w') uid)), ns_ready = False, ns_stop = None\<rparr>"
proof -
  note st = NewDeviceState_Inr [OF NewDriver_Inr(1) [OF assms(1)]]
  have "trace (spec_step (nodeName (d_state d0)) (scannable (state_sysfsRoot (d_state d0)))) (absDriver d0) evs (absDriver d)"
    by (rule node.trace_sim [OF assms(2) NewDriver_inv [OF assms(1)] within_ticks])
  then show ?thesis using st NewDriver_Inr(2,4,5,7) [OF assms(1)] by (simp add: absDriver_def consistent_def)
qed

theorem driver_refines_node_witness:
  "trace (spec_step ''node'' (scannable ''/s'')) (absDriver ex_driver) [PrepareClaim ex_env ex_claim]
     (absDriver (ex_driver\<lparr>d_world := ex_prepared\<rparr>))"
  using driver_refines_node [OF ex_NewDriver ex_runs_prepare, THEN conjunct1]
  by (simp add: ex_config_def sysfsRootOf_def)

text \<open>
  C3. Every claim the driver has come to record was prepared in its run, and that call found each
  of its devices to be of this node's pool, in the inventory then in effect, and, by the call's own
  reading of sysfs, still the live function of the host that was published.
\<close>

theorem given_devices_were_live:
  assumes "NewDriver env config w = (w', Inr d0)" "runs d0 evs d"
    and "recorded (w_claims (d_world d)) uid \<noteq> []" "recorded (w_claims (d_world d)) uid \<noteq> recorded (w_claims w') uid"
  shows "\<exists>evs1 env1 claim evs2 d1. evs = evs1 @ PrepareClaim env1 claim # evs2 \<and> claim_UID claim = uid \<and> runs d0 evs1 d1 \<and>
           (\<forall>x \<in> set (GetDevices (recorded (w_claims (d_world d)) uid)).
              PoolName x = flags_nodeName config \<and>
              (\<exists>dev \<in> set (npuDevices (d_state d1) @ vfioDevices (d_state d1)).
                 Name dev = DeviceName x \<and> live (env_sysfs env1) (sysfsRootOf config) dev))"
proof -
  let ?rec = "\<lambda>d. recorded (w_claims (d_world d)) uid"
  have rec0: "?rec d0 \<noteq> ?rec d" using assms(4) NewDriver_Inr(2) [OF assms(1)] by simp
  obtain evs1 ev evs2 d1 d2 where o: "evs = evs1 @ ev # evs2" "runs d0 evs1 d1" "?rec d1 \<noteq> ?rec d"
    "driver_step d1 ev d2" "?rec d2 = ?rec d"
    by (rule trace_origin [OF assms(2), of "\<lambda>x. ?rec x = ?rec d"]) (use rec0 in \<open>auto intro: that\<close>)
  obtain env1 claim where p: "ev = PrepareClaim env1 claim" "claim_UID claim = uid"
    "\<forall>r \<in> set (driverResults claim). admitted (env_sysfs env1) (d_state d1) r"
    "GetDevices (?rec d) = map (identity (env_cdi env1) (d_state d1) claim) (driverResults claim)"
    by (rule step_records [OF o(4), of uid]) (use o(3,5) assms(3) in auto)
  have inv: "consistent (d_state d1)" "nodeName (d_state d1) = flags_nodeName config"
    "state_sysfsRoot (d_state d1) = sysfsRootOf config"
    using running_inv [OF o(2) assms(1)] NewDeviceState_Inr(2,3) [OF NewDriver_Inr(1) [OF assms(1)]]
    by (simp_all add: driver_inv_def)
  have "PoolName x = flags_nodeName config \<and> (\<exists>dev \<in> set (npuDevices (d_state d1) @ vfioDevices (d_state d1)).
      Name dev = DeviceName x \<and> live (env_sysfs env1) (sysfsRootOf config) dev)"
    if "x \<in> set (GetDevices (?rec d))" for x
    using that p(3,4) admitted_found [OF inv(1)] inv(2,3) by (fastforce simp: identity_def)
  with o(1,2) p(1,2) show ?thesis by blast
qed

theorem given_devices_were_live_witness:
  "recorded (w_claims ex_prepared) ''c1'' \<noteq> [] \<and>
   (\<exists>evs1 env1 claim evs2. [PrepareClaim ex_env ex_claim] = evs1 @ PrepareClaim env1 claim # evs2 \<and> claim_UID claim = ''c1'')"
proof -
  have r: "recorded (w_claims ex_prepared) ''c1'' \<noteq> []" "recorded (w_claims ex_world) ''c1'' = []"
    using ex_recorded ex_unrecorded by (simp_all add: ex_claim_def)
  then have d: "recorded (w_claims (d_world (ex_driver\<lparr>d_world := ex_prepared\<rparr>))) ''c1'' \<noteq> []"
    "recorded (w_claims (d_world (ex_driver\<lparr>d_world := ex_prepared\<rparr>))) ''c1'' \<noteq> recorded (w_claims ex_world) ''c1''" by simp_all
  from given_devices_were_live [OF ex_NewDriver ex_runs_prepare d] r(1) show ?thesis by blast
qed

text \<open>
  C27. A batch is as good as its claims one by one: for claims with distinct UIDs, the answer to
  each is what preparing it alone gives, with the inventory in effect when its turn comes, in a
  world where its own record is still the one the batch began with, later claims leave its record
  alone, and other claims are not touched. The log holds a failure under a claim's identity exactly
  if that claim's answer is an error.
\<close>

theorem batch_prepares_each_claim:
  assumes "PrepareResourceClaims env state claims w = (w', results)" "stores_ok T w" "distinct (map claim_UID claims)"
    and "list_all (prepareGood T env) claims" "c \<in> set claims" "uid \<notin> claim_UID ` set claims"
  shows "(\<exists>w1 w2 r. prepareResourceClaim (env c) (state c) c w1 = (w2, r) \<and> gm_get results (claim_UID c) = Some r \<and>
            stores_ok T w1 \<and> gm_get (w_claims w1) (claim_UID c) = gm_get (w_claims w) (claim_UID c) \<and>
            gm_get (w_claims w') (claim_UID c) = gm_get (w_claims w2) (claim_UID c)) \<and>
         gm_get (w_claims w') uid = gm_get (w_claims w) uid \<and> gm_get results uid = None \<and> stores_ok T w' \<and>
         ((LevelError, ''Failed to prepare devices for claim'', claimContext ctx c) \<in> set (prepareLog logger ctx env state claims w) \<longleftrightarrow>
            Enabled logger LevelError \<and> (\<exists>r. gm_get results (claim_UID c) = Some r \<and> pr_Err r \<noteq> None))"
proof -
  have b: "batch (\<lambda>claim. prepareResourceClaim (env claim) (state claim) claim) claim_UID claims w gm_empty = (w', results)"
    using assms(1) by (simp add: PrepareResourceClaims_def)
  have g: "\<forall>c \<in> set claims. prepareGood T env c" using assms(4) by (simp add: list_all_iff)
  show ?thesis
    using preparing.batch_result [OF g assms(2,3) b assms(5)] preparing.batch_frame [OF g assms(6) b]
      preparing.batch_inv [OF g assms(2) b] prepareLog_failures [OF assms(1,3,5)] by simp
qed

theorem batch_prepares_each_claim_witness:
  "gm_get (snd (PrepareResourceClaims (\<lambda>_. ex_env) (\<lambda>_. ex_state) [ex_claim] ex_world)) ''c2'' = None"
proof -
  obtain w' results where p: "PrepareResourceClaims (\<lambda>_. ex_env) (\<lambda>_. ex_state) [ex_claim] ex_world = (w', results)" by fastforce
  have "list_all (prepareGood {} (\<lambda>_. ex_env)) [ex_claim]"
    by (simp add: prepareGood_def ex_claim_ok ex_kv_fs ex_whole_marker)
  from batch_prepares_each_claim [OF p ex_world_ok _ this, of ex_claim "''c2''"] p show ?thesis
    by (simp add: ex_claim_def)
qed

text \<open>
  C35. The probes are harmless and honest: the empty prepare request of the liveness probe changes
  nothing, has no results and leaves no record; and after any registrar requests the health service answers
  \<open>SERVING\<close> exactly for a known service when both probes succeed, for readiness only if the last
  registrar request that carried a status reported success and was handled without error.
\<close>

theorem health_probe_correct:
  "PrepareResourceClaims env state [] w = (w, gm_empty) \<and> prepareLog logger ctx env state [] w = [] \<and>
   (fst (Check (Some (d_registered (fold (\<lambda>(request, err) d. observeRegistration request err d) reqs d)))
           getInfoErr prepareErr service) = Inr SERVING \<longleftrightarrow>
      service \<in> (if case find (\<lambda>(request, err). request \<noteq> None) (rev reqs) of
                      None \<Rightarrow> d_registered d
                    | Some (request, err) \<Rightarrow> request = Some True \<and> err = None
                  then {'''', ''liveness'', ''readiness''} else {'''', ''liveness''}) \<and>
      getInfoErr = None \<and> prepareErr = None)"
proof -
  have "d_registered (fold (\<lambda>(request, err) d. observeRegistration request err d) reqs d) =
     (case find (\<lambda>(request, err). request \<noteq> None) (rev reqs) of
        None \<Rightarrow> d_registered d
      | Some (request, err) \<Rightarrow> request = Some True \<and> err = None)"
  proof (induction reqs rule: rev_induct)
    case (snoc x xs)
    obtain request err where x: "x = (request, err)" by fastforce
    with snoc show ?case by (cases request) (simp_all add: observeRegistration_def)
  qed simp
  then show ?thesis
    by (auto simp: PrepareResourceClaims_def prepareLog_def receivedRecord_def Check_SERVING knownServices_def)
qed

text \<open>
  C18. The life of the plugin. If it does not come up, it leaves the claims: the node's stores are
  what they were, except that a start on a node where no checkpoint is listed may have created the
  empty one, and no driver is left. If it does come up, on a node left in the same way, then whatever
  happens while it runs, it returns without an error, with its health service and the plugin helper
  stopped and the claim stores in order, torn owner markers apart; and it reports a fatal error
  exactly if the first thing that ended it was one that is not a cancellation itself, however many
  followed.
\<close>

theorem plugin_lifecycle:
  assumes "RunPlugin env config life w = (w', err, fin, logs)" "world_ok w"
    and "\<And>d0. runs d0 (history d0) (life d0)"
  shows "case err of
      Some _ \<Rightarrow> fin = None \<and> logs = [] \<and> (w' = w \<or> no_checkpoint (pe_driver env) \<and> w' = w\<lparr>w_claims := gm_empty\<rparr>)
    | None \<Rightarrow>
        (\<exists>w1 d0 d. NewDriver (pe_driver env) config w = (w1, Inr d0) \<and>
           (w1 = w \<or> no_checkpoint (pe_driver env) \<and> w1 = w\<lparr>w_claims := gm_empty\<rparr>) \<and>
           fin = Some d \<and> d_world d = w' \<and> stores_ok (torn (history d0)) w' \<and> \<not> d_helper d \<and>
           (case d_healthcheck d of None \<Rightarrow> flags_healthcheckPort config < 0 | Some h \<Rightarrow> \<not> hc_serving h) \<and>
           (\<forall>evs d1 evs' cause. runs d0 evs d1 \<longrightarrow> runs d1 evs' (life d0) \<longrightarrow> d_cancelled d1 = Some cause \<longrightarrow>
              logs = [driverStarted config (d_state d0),
                      if errors_Is_Canceled cause then (LevelInfo, ''Shutting down on signal'', [])
                      else (LevelWarn, ''Shutting down after fatal background error'', [])]))"
proof (cases err)
  case None
  then obtain w1 d0 where r: "NewDriver (pe_driver env) config w = (w1, Inr d0)" "w' = d_world (life d0)"
    "fin = Some (Shutdown (life d0))" "logs = [driverStarted config (d_state d0), shutdownRecord (d_cancelled (life d0))]"
    using assms(1) RunPlugin_started [of env config life w w' fin logs] by auto
  have inv: "stores_ok (torn (history d0)) w'" using running_stores [OF assms(3) r(1) assms(2)] r(2) by simp
  have hc: "d_healthcheck (life d0) = d_healthcheck d0" using runs_services [OF assms(3)] by simp
  have off: "d_healthcheck d0 = None \<Longrightarrow> flags_healthcheckPort config < 0"
    using NewDriver_Inr(9) [OF r(1)] by (auto simp: startHealthcheck_def Let_def split: if_splits option.splits)
  have "shutdownRecord (d_cancelled (life d0)) =
      (if errors_Is_Canceled cause then (LevelInfo, ''Shutting down on signal'', [])
       else (LevelWarn, ''Shutting down after fatal background error'', []))"
    if "runs d1 evs' (life d0)" "d_cancelled d1 = Some cause" for d1 evs' cause
    using runs_cancelled [OF that] by (simp add: shutdownRecord_def)
  with None r inv hc off NewDriver_world [OF r(1)] show ?thesis
    by (auto simp: Shutdown_def healthStop_def split: option.splits)
next
  case (Some e)
  then have "fin = None \<and> logs = [] \<and> (w' = w \<or> (\<exists>x. NewDriver (pe_driver env) config w = (w', x)))"
    using assms(1) by (auto simp: RunPlugin_def Let_def split: option.splits prod.splits sum.splits)
  with Some NewDriver_world [of "pe_driver env" config w w'] show ?thesis by auto
qed

definition ex_plugin_env :: plugin_env where
  "ex_plugin_env = \<lparr>pe_MkdirAll = (\<lambda>p. None), pe_Stat = (\<lambda>p. Inr True), pe_driver = ex_driver_env\<rparr>"

theorem plugin_lifecycle_witness:
  "\<exists>d. fst (snd (snd (RunPlugin ex_plugin_env ex_config (HandleError (\<lambda>_. False) (ErrLib ''boom'')) ex_world))) = Some d \<and>
       \<not> d_helper d"
proof -
  let ?life = "HandleError (\<lambda>_. False) (ErrLib ''boom'')"
  obtain w' err fin logs where p: "RunPlugin ex_plugin_env ex_config ?life ex_world = (w', err, fin, logs)"
    by (metis prod_cases4)
  have "runs d0 [BackgroundError] (?life d0)" for d0
    by (rule trace_one [of driver_step, OF background_error])
  from plugin_lifecycle [OF p ex_world_ok this] have c: "err = None \<Longrightarrow> \<exists>d. fin = Some d \<and> \<not> d_helper d"
    by auto
  have "fst (snd (RunPlugin ex_plugin_env ex_config ?life ex_world)) = None"
    by (simp add: RunPlugin_def ex_plugin_env_def runPluginDirs_def ex_NewDriver Let_def)
  with c p show ?thesis by simp
qed

text \<open>
  C34. Starting needs CDI, the checkpoint, the kubelet's plugin helper, the health port and a first
  publication, and nothing else: the driver comes up exactly if these can be set up, whatever
  sysfs and rbln-smi answer. A checkpoint that exists keeps its recorded claims in every case.
\<close>

theorem startup_needs_no_devices:
  "((\<exists>d. snd (NewDriver env config w) = Inr d) \<longleftrightarrow>
      (\<exists>cache. st_NewCache (de_startup env) = Inr cache) \<and>
      st_NewCheckpointManager_err (de_startup env) = None \<and>
      (\<exists>cs. st_ListCheckpoints (de_startup env) = Inr cs \<and>
         (if DriverPluginCheckpointFile \<in> set cs then True else st_CreateCheckpoint_err (de_startup env) = None)) \<and>
      de_Start_err env = None \<and>
      (\<exists>hc. startHealthcheck (de_Listen env) (de_NewClient env) config = Inr hc) \<and>
      de_Publish env (startupResources (de_startup env) config) = None) \<and>
   (case st_ListCheckpoints (de_startup env) of
      Inl _ \<Rightarrow> fst (NewDriver env config w) = w
    | Inr cs \<Rightarrow> if DriverPluginCheckpointFile \<in> set cs then fst (NewDriver env config w) = w
                else fst (NewDriver env config w) \<in> {w, w\<lparr>w_claims := gm_empty\<rparr>})"
  using NewDeviceState_outcome [of "de_startup env" config w]
  by (auto simp: NewDriver_def split: prod.splits sum.splits option.splits if_splits)

end
