(* ===== verification/Service_Properties.thy ===== *)
theory Service_Properties
  imports Scenario Plugin_Main
begin

text \<open>Properties of the admission webhook and of the logging package.\<close>

section \<open>The webhook\<close>

text \<open>
  C36. The webhook answers with a review exactly for JSON requests that decode to an
  \<open>AdmissionReview\<close> with a request. The answer carries the request's UID; it allows the object
  exactly if the resource is one of the three served versions of claims or claim templates and
  the raw object decodes into that version and converts to \<open>v1\<close>, and is a bad request otherwise,
  with the reason as its message: an unexpected resource, the decoder's error, or a failed conversion.
\<close>

theorem webhook_answer:
  "serveResourceClaim env reqBody contentType = HttpOk bytes \<longleftrightarrow>
     contentType = ''application/json'' \<and>
     (\<exists>body req. (reqBody = None \<and> body = [] \<or> reqBody = Some (Inr body)) \<and>
        codec_Decode env body = Inr (ReviewObject (Some req), admissionReviewKind) \<and>
        marshal_Review env admissionReviewKind
          \<lparr>resp_UID = req_UID req, resp_Allowed = acceptable env req, resp_Message = rejection env req,
           resp_Reason = (if acceptable env req then None else Some ''BadRequest'')\<rparr> = Inr bytes)"
proof -
  have r: "(admitResourceClaimParameters env req)\<lparr>resp_UID := u\<rparr> =
      \<lparr>resp_UID = u, resp_Allowed = acceptable env req, resp_Message = rejection env req,
       resp_Reason = (if acceptable env req then None else Some ''BadRequest'')\<rparr>" for req u
    unfolding admit_answer rejection_acceptable [symmetric] by (simp add: badRequest_def split: option.split)
  show ?thesis unfolding serveResourceClaim_def serve_HttpOk r by (rule refl)
qed

section \<open>Logging\<close>

text \<open>
  C37. Setting up logging cannot fail, and all gates agree with what it reports: whatever the two
  environment variables hold, the reported level and format parse to those of the logger; klog,
  opened from the reported level, lets through exactly the records of depth one and more that the
  logger would render; grpc's verbose records are built exactly if debug records are rendered; and
  the stderr relay adds callers exactly if the logger does.
\<close>

theorem setup_reports_effective_settings:
  "case setupFromEnv envLevel envFormat of (logger, level, format, warns) \<Rightarrow>
     parseLevel level = Inr (log_Level logger) \<and> parseFormat format = Inr (log_Format logger) \<and>
     (case parseLevel envLevel of Inr l \<Rightarrow> log_Level logger = l | Inl _ \<Rightarrow> log_Level logger = LevelInfo) \<and>
     (case parseFormat envFormat of Inr f \<Rightarrow> log_Format logger = f | Inl _ \<Rightarrow> log_Format logger = ''json'') \<and>
     (\<forall>n. int (Suc n) \<le> BridgeKlog level \<longleftrightarrow> Enabled logger (Level (- int (Suc n)))) \<and>
     (grpcV logger \<longleftrightarrow> Enabled logger LevelDebug) \<and>
     BridgeGlog True None level = Relayed (log_AddSource logger)"
proof -
  let ?l = "case parseLevel envLevel of Inr l \<Rightarrow> l | Inl _ \<Rightarrow> LevelInfo"
  let ?f = "case parseFormat envFormat of Inr f \<Rightarrow> f | Inl _ \<Rightarrow> ''json''"
  have "?l \<in> standardLevels" by (auto simp: parseLevel_def Let_def)
  then have l: "parseLevel (levelName ?l) = Inr ?l" by (rule parseLevel_levelName)
  have "?f = ''json'' \<or> ?f = ''text''" by (auto simp: parseFormat_def Let_def)
  moreover have "parseFormat ''json'' = Inr ''json''" "parseFormat ''text'' = Inr ''text''" by code_simp+
  ultimately have f: "parseFormat ?f = Inr ?f" "log_Format (newLogger ?l ?f) = ?f"
    by (auto simp: newLogger_def)
  have gate: "int (Suc n) \<le> klogVerbosity ?l \<longleftrightarrow> Enabled (newLogger ?l ?f) (Level (- int (Suc n)))" for n
    by (cases ?l) (auto simp: klogVerbosity_def Enabled_def newLogger_def less_eq_Level_def max_def)
  have bridge: "BridgeKlog (levelName ?l) = klogVerbosity ?l" "BridgeGlog True None (levelName ?l) = Relayed (?l \<le> LevelDebug)"
    using l by (simp_all add: BridgeKlog_def BridgeGlog_def)
  have logger: "log_Level (newLogger ?l ?f) = ?l" "log_AddSource (newLogger ?l ?f) = (?l \<le> LevelDebug)"
    by (simp_all add: newLogger_def)
  obtain warns where "setupFromEnv envLevel envFormat = (newLogger ?l ?f, levelName ?l, ?f, warns)"
    by (simp add: setupFromEnv_def Let_def)
  then show ?thesis
    using l f gate unfolding grpcV_def by (simp only: prod.case bridge logger) (auto split: sum.splits)
qed

text \<open>
  C40. The relay understands every glog header: a line with a severity letter, a time stamp, any
  number of spaces, a thread number, a caller and a message is split into exactly these.
\<close>

theorem glog_line_understood:
  assumes "sev \<in> {CHR ''I'', CHR ''W'', CHR ''E'', CHR ''F''}" "match_classes glogStamp stamp"
    and "thread \<noteq> []" "list_all is_digit thread" "glogCaller caller" "CHR 0x0A \<notin> set msg"
  shows "emitStderrLine logger (sev # stamp @ replicate k (CHR '' '') @ thread @ '' '' @ caller @ ''] '' @ msg) withCaller =
    (let lvl = (if sev = CHR ''W'' then LevelWarn else if sev = CHR ''I'' then LevelInfo else LevelError) in
     if Enabled logger lvl
     then Some (lvl, msg, (''logger'', ''glog'') # (if withCaller then [(''caller'', caller)] else []))
     else None)"
  using glogHeader_format [OF assms, of k] assms(1) by (auto simp: emitStderrLine_def Let_def)

theorem glog_line_understood_witness:
  "emitStderrLine (newLogger LevelInfo ''json'')
     (CHR ''W'' # ''0102 03:04:05.000006 '' @ replicate 2 (CHR '' '') @ ''77'' @ '' '' @ ''rsd.go:12'' @ ''] '' @ ''no group'') False =
   (let lvl = (if CHR ''W'' = CHR ''W'' then LevelWarn else if CHR ''W'' = CHR ''I'' then LevelInfo else LevelError) in
    if Enabled (newLogger LevelInfo ''json'') lvl
    then Some (lvl, ''no group'', (''logger'', ''glog'') # (if False then [(''caller'', ''rsd.go:12'')] else [])) else None)"
proof (rule glog_line_understood)
  show "match_classes glogStamp ''0102 03:04:05.000006 ''" by code_simp
  have "''rsd.go:12'' = ''rsd.go'' @ '':'' @ ''12'' \<and> list_all is_digit ''12'' \<and> list_all (\<lambda>c. \<not> re_space c) ''rsd.go''"
    by code_simp
  then show "glogCaller ''rsd.go:12''" unfolding glogCaller_def by blast
qed (simp_all add: is_digit_def)

text \<open>
  C39. The relay loses and reorders nothing: it ends, and its records are those of the lines of the
  stream one by one, in order, a last line without newline included; carriage returns at a line's
  end and empty lines make no record.
\<close>

theorem relay_emits_each_line:
  assumes "list_all (\<lambda>line. CHR 0x0A \<notin> set line) lines" "lines \<noteq> []"
  shows "relayStderr logger withCaller (Join_with [CHR 0x0A] lines) =
           concat (map (\<lambda>line. if trimLineEnd line = [] then []
                               else case emitStderrLine logger (trimLineEnd line) withCaller of
                                      Some r \<Rightarrow> [r] | None \<Rightarrow> []) lines)"
  using Split_Join_with [OF assms] by (simp add: relayStderr_lines lineRecords_def [abs_def])

theorem relay_emits_each_line_witness:
  "relayStderr (newLogger LevelInfo ''json'') False (Join_with [CHR 0x0A] [''boom'' @ [CHR 0x0D], [], ''rest'']) =
     [(LevelInfo, ''boom'', [(''logger'', ''stderr'')]), (LevelInfo, ''rest'', [(''logger'', ''stderr'')])]"
  by (subst relay_emits_each_line, simp, simp) code_simp

text \<open>
  C38. The level of every rendered record is one of the five names, the deepest of the five levels
  at or above which the record is (\<open>trace\<close> below them all); a record below info also carries its
  depth as a number, others do not; and what \<open>replaceAttr\<close> produced, with the group it may return
  inlined as the handlers do, it leaves alone when the handler passes it through again.
\<close>

theorem rendered_level_vocabulary:
  "\<exists>name b. inlined (replaceAttr [] (LevelKey, KindLevel l)) =
       (LevelKey, KindString name) # (if l < LevelInfo then [(''v'', KindInt (- level_int l))] else []) \<and>
     parseLevel name = Inr b \<and> b \<in> standardLevels \<and>
     (if LevelTrace \<le> l then b \<le> l else b = LevelTrace) \<and>
     {b' \<in> standardLevels. b' \<le> l} \<subseteq> {b'. b' \<le> b} \<and>
     map (replaceAttr []) (inlined (replaceAttr [] (LevelKey, KindLevel l))) = inlined (replaceAttr [] (LevelKey, KindLevel l))"
proof -
  obtain b where b: "b \<in> standardLevels" "levelName l = levelName b" "if LevelTrace \<le> l then b \<le> l else b = LevelTrace"
    "\<forall>b' \<in> standardLevels. b' \<le> l \<longrightarrow> b' \<le> b"
    using levelName_bucket [of l] by blast
  have "replaceAttr [] (''v'', x) = (''v'', x)" for x by (rule replaceAttr_other) (simp add: replaceAttr_keys)
  with b parseLevel_levelName [OF b(1)] show ?thesis
    unfolding inlined_level levelAttrs_def by (intro exI [of _ "levelName l"] exI [of _ b]) (auto simp: replaceAttr_string)
qed

end
