(* ===== verification/Kubevirt_Success.thy ===== *)
theory Kubevirt_Success
  imports Kubevirt_Rollback
begin

text \<open>
  When writing a claim's metadata works: the host calls succeed and nothing in the tree stands in
  the way. The second is an invariant: no operation of the driver, finished or cut short, puts
  anything there that a later write for any claim could stumble over.
\<close>

section \<open>Nothing in the way\<close>

text \<open>
  What may stand at a path without disturbing a claim's metadata in directory \<open>q\<close> with requests
  \<open>R\<close>: no file where a directory is needed, no directory where a file is, and at
  the place of the owner marker only what \<open>marker\<close> allows.
\<close>

definition fits :: "path \<Rightarrow> (string \<Rightarrow> bool) \<Rightarrow> string set \<Rightarrow> path \<Rightarrow> node \<Rightarrow> bool" where
  "fits q marker R k v \<longleftrightarrow>
     (case v of
        Dir \<Rightarrow> k \<noteq> q @ [kubevirtMetadataOwnerFile] \<and>
               (\<forall>r \<in> R. k \<noteq> q @ [r, metadataFile] \<and> k \<noteq> q @ [r, metadataFile @ ''.tmp''])
      | File c \<Rightarrow> \<not> under k q \<and> (\<forall>r \<in> R. k \<noteq> q @ [r]) \<and>
               (k = q @ [kubevirtMetadataOwnerFile] \<longrightarrow> marker c))"

definition way_clear :: "hostfs \<Rightarrow> path \<Rightarrow> (string \<Rightarrow> bool) \<Rightarrow> string set \<Rightarrow> bool" where
  "way_clear fs q marker R \<longleftrightarrow> (\<forall>k v. gm_get fs k = Some v \<longrightarrow> fits q marker R k v)"

lemma way_clear_empty [simp]: "way_clear gm_empty q M R"
  by (simp add: way_clear_def)

lemma way_clear_put: "way_clear fs q M R \<Longrightarrow> fits q M R k v \<Longrightarrow> way_clear (gm_put k v fs) q M R"
  by (simp add: way_clear_def)

lemma way_clear_less:
  "way_clear fs q M R \<Longrightarrow> (\<And>k. gm_get fs' k = gm_get fs k \<or> gm_get fs' k = None) \<Longrightarrow> way_clear fs' q M R"
  unfolding way_clear_def by (metis option.distinct(1))

lemma way_clear_File: "way_clear fs q M R \<Longrightarrow> under k q \<Longrightarrow> gm_get fs k \<noteq> Some (File c)"
  by (force simp: way_clear_def fits_def)

section \<open>Calls that succeed\<close>

definition healthy_fs :: "fs_env \<Rightarrow> bool" where
  "healthy_fs env \<longleftrightarrow> (\<forall>c p. fs_fault env c p = None) \<and> (\<forall>p. write_fault env p = None)"

lemma healthy_removal: "healthy_fs env \<Longrightarrow> removal_works env"
  by (simp add: healthy_fs_def removal_works_def)

lemma mkdirs_works:
  assumes "\<And>j c. under j (made @ ws) \<Longrightarrow> gm_get fs j \<noteq> Some (File c)"
  shows "\<exists>fs'. mkdirs made ws fs = (fs', None) \<and>
     (\<forall>k. gm_get fs' k = (if gm_get fs k = None \<and> under k (made @ ws) \<and> length made < length k then Some Dir else gm_get fs k))"
  using assms
proof (induction made ws fs rule: mkdirs.induct)
  case (1 made fs)
  have "\<not> length made < length k" if "under k made" for k
    using that by (auto simp: under_iff)
  then show ?case by (intro exI [of _ fs]) auto
next
  case (2 made w ws fs)
  let ?q = "made @ [w]"
  have q: "under k (?q @ ws) \<and> length made < length k \<longleftrightarrow> k = ?q \<or> under k (?q @ ws) \<and> length ?q < length k" for k
  proof -
    have "k = ?q" if "under k (?q @ ws)" "length k = length ?q"
      using that by (simp add: under_def)
    moreover have "under ?q (?q @ ws)" by (rule under_append)
    ultimately show ?thesis by (cases "length k = length ?q") auto
  qed
  have nofile: "gm_get fs ?q \<noteq> Some (File c)" for c
    using "2.prems" [of ?q c] by (simp add: under_iff)
  show ?case
  proof (cases "gm_get fs ?q")
    case None
    have "\<And>j c. under j (?q @ ws) \<Longrightarrow> gm_get (gm_put ?q Dir fs) j \<noteq> Some (File c)"
      using "2.prems" by (auto split: if_splits)
    from "2.IH"(1) [OF refl None this] None show ?thesis
      unfolding append_Cons [symmetric] using q by (fastforce simp: Let_def)
  next
    case (Some v)
    then have v: "v = Dir" using nofile by (cases v) auto
    have "\<And>j c. under j (?q @ ws) \<Longrightarrow> gm_get fs j \<noteq> Some (File c)"
      using "2.prems" by simp
    from "2.IH"(2) [OF refl Some v this] Some v q show ?thesis by (fastforce simp: Let_def)
  qed
qed

lemma MkdirAll_works:
  assumes "healthy_fs env" "list_all plain_name q" "\<And>j c. under j q \<Longrightarrow> gm_get fs j \<noteq> Some (File c)"
  shows "\<exists>fs'. fs_MkdirAll env (abs_path q) fs = (fs', None) \<and>
     (\<forall>k. gm_get fs' k = (if gm_get fs k = None \<and> under k q \<and> k \<noteq> [] then Some Dir else gm_get fs k))"
  using mkdirs_works [of "[]" q fs] assms by (simp add: fs_MkdirAll_def healthy_fs_def)

lemma WriteFile_works:
  assumes "healthy_fs env" "list_all plain_name q" "q \<noteq> []" "gm_get fs q \<noteq> Some Dir" "isdir fs (butlast q)"
  shows "fs_WriteFile env (abs_path q) data fs = (gm_put q (File data) fs, None)"
  using assms by (simp add: fs_WriteFile_def healthy_fs_def)

lemma Rename_works:
  assumes "healthy_fs env" "list_all plain_name a" "list_all plain_name b" "b \<noteq> []"
    and "gm_get fs a = Some (File c)" "gm_get fs b \<noteq> Some Dir" "isdir fs (butlast b)"
  shows "fs_Rename env (abs_path a) (abs_path b) fs = (gm_put b (File c) (gm_del a fs), None)"
  using assms by (simp add: fs_Rename_def healthy_fs_def)

section \<open>What was in order stays in order\<close>

text \<open>The names the tree of one claim uses.\<close>

definition names_ok :: "path \<Rightarrow> string set \<Rightarrow> bool" where
  "names_ok q R \<longleftrightarrow> list_all plain_name q \<and> q \<noteq> [] \<and> (\<forall>r \<in> R. request_ok r)"

lemma names_okD:
  assumes "names_ok q R" "r \<in> R"
  shows "list_all plain_name (q @ [r])" "list_all plain_name (q @ [r, metadataFile])"
    "list_all plain_name (q @ [r, metadataFile @ ''.tmp''])" "r \<noteq> kubevirtMetadataOwnerFile"
  using assms plain_metadataFile by (auto simp: names_ok_def request_ok_def simp del: append_assoc)

lemma under_length: "under k j \<Longrightarrow> length k \<le> length j"
  by (auto simp: under_iff)

lemma fits_dir:
  assumes "names_ok q R" "r \<in> R" "under k (q @ [r])"
  shows "fits q M R k Dir"
proof -
  have "length k \<le> Suc (length q)" using under_length [OF assms(3)] by simp
  moreover have "k \<noteq> q @ [kubevirtMetadataOwnerFile]"
    using assms names_okD(4) [OF assms(1,2)] by (auto simp: under_def)
  ultimately show ?thesis by (auto simp: fits_def)
qed

lemma fits_claim_dir: "under k q \<Longrightarrow> fits q M R k Dir"
  by (auto simp: fits_def under_iff)

lemma fits_file:
  "fits q M R (q @ [r, metadataFile]) (File c)" "fits q M R (q @ [r, metadataFile @ ''.tmp'']) (File c)"
  "names_ok q R \<Longrightarrow> M c \<Longrightarrow> fits q M R (q @ [kubevirtMetadataOwnerFile]) (File c)"
  using names_okD(4) [of q R] by (auto simp: fits_def under_def)

lemma way_clear_mkdirs:
  "way_clear fs q M R \<Longrightarrow> mkdirs made ws fs = (fs', e) \<Longrightarrow> (\<And>k. under k (made @ ws) \<Longrightarrow> fits q M R k Dir) \<Longrightarrow>
     way_clear fs' q M R"
proof (induction made ws fs rule: mkdirs.induct)
  case (2 made w ws fs)
  have d: "fits q M R (made @ [w]) Dir" using "2.prems"(3) [of "made @ [w]"] by (simp add: under_iff)
  show ?case
  proof (cases "gm_get fs (made @ [w])")
    case None
    then show ?thesis using "2.IH"(1) [OF refl None way_clear_put [OF "2.prems"(1) d]] "2.prems"(2,3) by (simp add: Let_def)
  next
    case (Some v)
    show ?thesis
    proof (cases v)
      case Dir
      then show ?thesis using "2.IH"(2) [OF refl Some Dir "2.prems"(1)] "2.prems"(2,3) Some by (simp add: Let_def)
    qed (use "2.prems" Some in simp)
  qed
qed simp

lemma way_clear_MkdirAll:
  assumes "way_clear fs q M R" "fs_MkdirAll env (abs_path p) fs = (fs', e)" "list_all plain_name p"
    and "\<And>k. under k p \<Longrightarrow> fits q M R k Dir"
  shows "way_clear fs' q M R"
proof -
  have "under k p" if "under k (take n p)" for k n
    using that by (metis append_assoc append_take_drop_id under_iff)
  then have clear: "way_clear fs1 q M R" if "mkdirs [] (take n p) fs = (fs1, e1)" for n fs1 e1
    using way_clear_mkdirs [OF assms(1) that] assms(4) by simp
  obtain fs1 e1 where m: "mkdirs [] (take (mkdir_done env (abs_path p)) p) fs = (fs1, e1)" by fastforce
  from clear [OF m] clear [of "length p" fs' e] m assms(2,3) show ?thesis
    by (auto simp: fs_MkdirAll_def split: option.splits)
qed

lemma way_clear_WriteFile:
  assumes "way_clear fs q M R" "fs_WriteFile env (abs_path p) data fs = (fs', e)" "list_all plain_name p"
    and "\<And>n. fits q M R p (File (take n data))"
  shows "way_clear fs' q M R"
  using assms(2,3) way_clear_put [OF assms(1) assms(4)] way_clear_put [OF assms(1) assms(4) [of "length data"]] assms(1)
  by (auto simp: fs_WriteFile_def Let_def split: option.splits prod.splits if_splits)

lemma way_clear_Rename:
  assumes "way_clear fs q M R" "fs_Rename env (abs_path a) (abs_path b) fs = (fs', e)"
    and "list_all plain_name b" "\<And>c. fits q M R b (File c)"
  shows "way_clear fs' q M R"
proof -
  have "way_clear (gm_del (segs (abs_path a)) fs) q M R"
    using assms(1) by (rule way_clear_less) simp
  with assms way_clear_put [OF _ assms(4)] show ?thesis
    by (auto simp: fs_Rename_def split: option.splits node.splits if_splits)
qed

section \<open>The owner marker\<close>

lemma owner_path:
  "list_all plain_name q \<Longrightarrow> q \<noteq> [] \<Longrightarrow>
     filepath_Join [abs_path q, kubevirtMetadataOwnerFile] = abs_path (q @ [kubevirtMetadataOwnerFile])"
  by (simp add: Join_child)

lemma ownership_clear:
  assumes "names_ok q R" "way_clear fs q M R" "M (uid @ [CHR 0x0A])"
    and torn: "\<And>err n. write_fault env (abs_path (q @ [kubevirtMetadataOwnerFile])) = Some (err, Some n) \<Longrightarrow> M (take n (uid @ [CHR 0x0A]))"
    and o: "claimMetadataOwnership env (abs_path q) uid fs = (fs', e)"
  shows "way_clear fs' q M R"
proof -
  have q: "list_all plain_name q" "q \<noteq> []" using assms(1) by (simp_all add: names_ok_def)
  have w: "way_clear fs2 q M R"
    if "fs_WriteFile env (abs_path (q @ [kubevirtMetadataOwnerFile])) (uid @ [CHR 0x0A]) fs1 = (fs2, x)" "way_clear fs1 q M R"
    for fs1 fs2 x
    using that torn way_clear_put [OF that(2) fits_file(3) [where M = M, OF assms(1)]] assms(3) q
    by (auto simp: fs_WriteFile_def Let_def split: option.splits prod.splits if_splits)
  have m: "way_clear fs1 q M R" if "fs_MkdirAll env (abs_path q) fs = (fs1, x)" for fs1 x
    using way_clear_MkdirAll [OF assms(2) that q(1)] fits_claim_dir by blast
  show ?thesis
    using o assms(2) m w unfolding claimMetadataOwnership_def owner_path [OF q] Let_def
    by (auto split: sum.splits prod.splits option.splits)
qed

lemma ownership_works:
  assumes "names_ok q R" "way_clear fs q (\<lambda>c. TrimSpace c = uid) R" "healthy_fs env"
  shows "\<exists>fs'. claimMetadataOwnership env (abs_path q) uid fs = (fs', None)"
proof -
  have q: "list_all plain_name q" "q \<noteq> []" using assms(1) by (simp_all add: names_ok_def)
  let ?o = "q @ [kubevirtMetadataOwnerFile]"
  have pl: "list_all plain_name ?o" using q by simp
  have nf: "fs_fault env ReadFileCall p = None" for p using assms(3) by (simp add: healthy_fs_def)
  have nodir: "gm_get fs ?o \<noteq> Some Dir" using assms(2) by (force simp: way_clear_def fits_def)
  show ?thesis
  proof (cases "gm_get fs ?o")
    case (Some v)
    then obtain c where "v = File c" using nodir by (cases v) auto
    with Some have c: "gm_get fs ?o = Some (File c)" by simp
    with assms(2) have "TrimSpace c = uid" by (force simp: way_clear_def fits_def)
    with c show ?thesis using pl nf by (simp add: claimMetadataOwnership_def owner_path [OF q] fs_ReadFile_def)
  next
    case None
    obtain fs1 where m: "fs_MkdirAll env (abs_path q) fs = (fs1, None)"
      and g: "\<And>k. gm_get fs1 k = (if gm_get fs k = None \<and> under k q \<and> k \<noteq> [] then Some Dir else gm_get fs k)"
      using MkdirAll_works [OF assms(3) q(1)] way_clear_File [OF assms(2)] by blast
    have "gm_get fs1 q = Some Dir"
      using g [of q] q(2) way_clear_File [OF assms(2) under_refl(1)] by (cases "gm_get fs q") (auto intro: node.exhaust)
    then have "isdir fs1 (butlast ?o)" by (simp add: isdir_def)
    moreover have "gm_get fs1 ?o \<noteq> Some Dir" using g [of ?o] None by (simp add: under_def)
    ultimately show ?thesis
      using WriteFile_works [OF assms(3) pl] m None pl nf
      by (simp add: claimMetadataOwnership_def owner_path [OF q] fs_ReadFile_def)
  qed
qed

section \<open>One request\<close>

lemma request_paths:
  assumes "names_ok q R" "r \<in> R"
  shows "kubevirtMetadataFilePath (abs_path q) r = abs_path (q @ [r, metadataFile])"
    "filepath_Dir (abs_path (q @ [r, metadataFile])) = abs_path (q @ [r])"
    "abs_path (q @ [r, metadataFile]) @ ''.tmp'' = abs_path (q @ [r, metadataFile @ ''.tmp''])"
proof -
  have q: "list_all plain_name q" "q \<noteq> []" "plain_name r" using assms by (auto simp: names_ok_def request_ok_def)
  show "kubevirtMetadataFilePath (abs_path q) r = abs_path (q @ [r, metadataFile])" using q by (rule filePath_abs)
  show "filepath_Dir (abs_path (q @ [r, metadataFile])) = abs_path (q @ [r])"
    using filepath_Dir_abs_path [of "q @ [r]" metadataFile] q by simp
  show "abs_path (q @ [r, metadataFile]) @ ''.tmp'' = abs_path (q @ [r, metadataFile @ ''.tmp''])"
    using abs_path_suffix [of "q @ [r]" metadataFile "''.tmp''"] by simp
qed

lemma writeRequest_clear:
  assumes "names_ok q R" "r \<in> R" "way_clear fs q M R"
    and "writeRequest env (abs_path q) pcn r ds fs = (fs', e)"
  shows "way_clear fs' q M R"
proof -
  note P = request_paths [OF assms(1,2)] and pl = names_okD [OF assms(1,2)]
  have m: "way_clear fs1 q M R" if "fs_MkdirAll (kv_fs env) (abs_path (q @ [r])) fs = (fs1, x)" for fs1 x
    using way_clear_MkdirAll [OF assms(3) that pl(1)] fits_dir [OF assms(1,2)] by blast
  have w: "way_clear fs2 q M R" if "fs_WriteFile (kv_fs env) (abs_path (q @ [r, metadataFile @ ''.tmp''])) d fs1 = (fs2, x)"
    "way_clear fs1 q M R" for d fs1 fs2 x
    using way_clear_WriteFile [OF that(2,1) pl(3)] fits_file(2) by blast
  have n: "way_clear fs3 q M R"
    if "fs_Rename (kv_fs env) (abs_path (q @ [r, metadataFile @ ''.tmp''])) (abs_path (q @ [r, metadataFile])) fs2 = (fs3, x)"
    "way_clear fs2 q M R" for fs2 fs3 x
    using way_clear_Rename [OF that(2,1) pl(2)] fits_file(1) by blast
  show ?thesis
    using assms(4) m w n unfolding writeRequest_def P Let_def
    by (auto split: sum.splits prod.splits option.splits)
qed

lemma writeRequest_works:
  assumes "names_ok q R" "r \<in> R" "way_clear fs q M R" "healthy_fs (kv_fs env)" "\<And>m. \<exists>data. json_Marshal env m = Inr data"
  shows "\<exists>fs'. writeRequest env (abs_path q) pcn r ds fs = (fs', None)"
proof -
  note P = request_paths [OF assms(1,2)] and pl = names_okD [OF assms(1,2)]
  let ?d = "q @ [r]" and ?t = "q @ [r, metadataFile @ ''.tmp'']" and ?f = "q @ [r, metadataFile]"
  have nofile: "gm_get fs j \<noteq> Some (File c)" if "under j ?d" for j c
  proof (cases "under j q")
    case False
    then have "j = ?d" using that by (auto simp: under_iff append_eq_append_conv2 Cons_eq_append_conv)
    with assms(2,3) show ?thesis by (force simp: way_clear_def fits_def)
  qed (rule way_clear_File [OF assms(3)])
  obtain fs1 where m: "fs_MkdirAll (kv_fs env) (abs_path ?d) fs = (fs1, None)"
    and g: "\<And>k. gm_get fs1 k = (if gm_get fs k = None \<and> under k ?d \<and> k \<noteq> [] then Some Dir else gm_get fs k)"
    using MkdirAll_works [OF assms(4) pl(1)] nofile by blast
  have clear: "way_clear fs1 q M R"
    using way_clear_MkdirAll [OF assms(3) m pl(1)] fits_dir [OF assms(1,2)] by blast
  obtain data where j: "json_Marshal env (requestMetadata pcn r ds) = Inr data" using assms(5) by blast
  have d: "gm_get fs1 ?d = Some Dir"
    using g [of ?d] nofile [OF under_refl(1)] by (cases "gm_get fs ?d") (auto intro: node.exhaust)
  have no: "gm_get fs1 ?t \<noteq> Some Dir" "gm_get fs1 ?f \<noteq> Some Dir"
    using clear assms(2) by (force simp: way_clear_def fits_def)+
  have bl: "butlast ?t = ?d" "butlast ?f = ?d" by (simp_all add: butlast_append)
  let ?fs2 = "gm_put ?t (File data) fs1"
  have w: "fs_WriteFile (kv_fs env) (abs_path ?t) data fs1 = (?fs2, None)"
    using no(1) d bl by (intro WriteFile_works [OF assms(4) pl(3)]) (simp_all add: isdir_def)
  have "fs_Rename (kv_fs env) (abs_path ?t) (abs_path ?f) ?fs2 = (gm_put ?f (File data) (gm_del ?t ?fs2), None)"
    using no(2) d bl by (intro Rename_works [OF assms(4) pl(3,2)]) (simp_all add: isdir_def)
  with m j w show ?thesis by (simp add: writeRequest_def P Let_def)
qed

section \<open>The whole write\<close>

lemma writeRequests_clear:
  "names_ok q R \<Longrightarrow> (\<And>r. gm_get byRequest r \<noteq> None \<Longrightarrow> r \<in> R) \<Longrightarrow> way_clear fs q M R \<Longrightarrow>
     writeRequests env (abs_path q) pcn byRequest rs fs = (fs', e) \<Longrightarrow> way_clear fs' q M R"
proof (induction rs arbitrary: fs)
  case (Cons r rs)
  show ?case
  proof (cases "gm_get byRequest r")
    case (Some ds)
    obtain fs1 e1 where w: "writeRequest env (abs_path q) pcn r ds fs = (fs1, e1)" by fastforce
    have "way_clear fs1 q M R"
      using writeRequest_clear [OF Cons.prems(1) _ Cons.prems(3) w] Cons.prems(2) [of r] Some by simp
    with Cons.IH [OF Cons.prems(1,2) this] Cons.prems(4) Some w show ?thesis by (cases e1) auto
  qed (use Cons in simp)
qed simp

lemma writeRequests_works:
  assumes "names_ok q R" "\<And>r. gm_get byRequest r \<noteq> None \<Longrightarrow> r \<in> R" "healthy_fs (kv_fs env)"
    and "\<And>m. \<exists>data. json_Marshal env m = Inr data" "way_clear fs q M R"
  shows "\<exists>fs'. writeRequests env (abs_path q) pcn byRequest rs fs = (fs', None)"
  using assms(5)
proof (induction rs arbitrary: fs)
  case (Cons r rs)
  show ?case
  proof (cases "gm_get byRequest r")
    case (Some ds)
    then have r: "r \<in> R" using assms(2) [of r] by simp
    obtain fs1 where w: "writeRequest env (abs_path q) pcn r ds fs = (fs1, None)"
      using writeRequest_works [OF assms(1) r Cons.prems assms(3,4)] by blast
    have "way_clear fs1 q M R" by (rule writeRequest_clear [OF assms(1) r Cons.prems w])
    from Cons.IH [OF this] Some w show ?thesis by auto
  qed (use Cons in simp)
qed simp

text \<open>The requests of a claim, and the way to its metadata.\<close>

definition requestsOf :: "ResourceClaim \<Rightarrow> string set" where
  "requestsOf claim = kubevirtMetadataRequestName ` set (claimResults claim)"

lemma byRequest_requests:
  "gm_get (devicesByRequest allocatable (claimResults claim) gm_empty) r \<noteq> None \<Longrightarrow> r \<in> requestsOf claim"
  by (fastforce simp: devicesByRequest_get requestDevices_def requestsOf_def split: if_splits)

lemma write_clear:
  assumes "list_all plain_name bs" "bs \<noteq> []" "uid_ok (claim_UID claim)"
    and "names_ok (hostSegs bs (claim_UID claim)) R" "requestsOf claim \<subseteq> R"
    and "M (claim_UID claim @ [CHR 0x0A])"
    and "whole_marker (kv_fs env) bs (claim_UID claim) \<or> (\<forall>n. M (take n (claim_UID claim @ [CHR 0x0A])))"
    and "way_clear fs (hostSegs bs (claim_UID claim)) M R"
    and "writeKubeVirtMetadata env (abs_path bs) claim allocatable fs = (fs', e)"
  shows "way_clear fs' (hostSegs bs (claim_UID claim)) M R"
proof -
  let ?q = "hostSegs bs (claim_UID claim)" and ?m = "devicesByRequest allocatable (claimResults claim) gm_empty"
  obtain fs1 e1 where o: "claimMetadataOwnership (kv_fs env) (abs_path ?q) (claim_UID claim) fs = (fs1, e1)" by fastforce
  have c1: "way_clear fs1 ?q M R"
    using ownership_clear [OF assms(4,8,6) _ o] assms(7) by (auto simp: whole_marker_def)
  show ?thesis
  proof (cases e1)
    case None
    then have "writeRequests env (abs_path ?q) (podClaimName claim) ?m (order env (gm_keys ?m)) fs1 = (fs', e)"
      using assms(9) o by (simp add: writeKubeVirtMetadata_def hostDir_abs [OF assms(1-3)] Let_def)
    from writeRequests_clear [OF assms(4) _ c1 this] byRequest_requests assms(5) show ?thesis by blast
  qed (use assms(9) o c1 in \<open>simp add: writeKubeVirtMetadata_def hostDir_abs [OF assms(1-3)]\<close>)
qed

lemma write_works:
  assumes "list_all plain_name bs" "bs \<noteq> []" "uid_ok (claim_UID claim)"
    and "names_ok (hostSegs bs (claim_UID claim)) R" "requestsOf claim \<subseteq> R"
    and "healthy_fs (kv_fs env)" "\<And>m. \<exists>data. json_Marshal env m = Inr data"
    and "way_clear fs (hostSegs bs (claim_UID claim)) (\<lambda>c. TrimSpace c = claim_UID claim) R"
  shows "\<exists>fs'. writeKubeVirtMetadata env (abs_path bs) claim allocatable fs = (fs', None)"
proof -
  let ?q = "hostSegs bs (claim_UID claim)" and ?m = "devicesByRequest allocatable (claimResults claim) gm_empty"
  obtain fs1 where o: "claimMetadataOwnership (kv_fs env) (abs_path ?q) (claim_UID claim) fs = (fs1, None)"
    using ownership_works [OF assms(4,8,6)] by blast
  have "way_clear fs1 ?q (\<lambda>c. TrimSpace c = claim_UID claim) R"
    using ownership_clear [OF assms(4,8) _ _ o] assms(6) TrimSpace_marker [OF assms(3)] by (simp add: healthy_fs_def)
  moreover have "\<And>r. gm_get ?m r \<noteq> None \<Longrightarrow> r \<in> R" using byRequest_requests assms(5) by blast
  ultimately obtain fs2 where "writeRequests env (abs_path ?q) (podClaimName claim) ?m (order env (gm_keys ?m)) fs1 = (fs2, None)"
    using writeRequests_works [OF assms(4) _ assms(6,7)] by blast
  with o show ?thesis
    by (simp add: writeKubeVirtMetadata_def hostDir_abs [OF assms(1-3)] Let_def)
qed

end
