(* ===== verification/Prepare_Success.thy ===== *)
theory Prepare_Success
  imports Kubevirt_Success Claim_World
begin

text \<open>
  When preparing and unpreparing work: the conditions on the host under which a call cannot fail.
  Each is what some step of the code asks of its environment; none speaks of the call's result.
\<close>

section \<open>The host is ready\<close>

text \<open>A device node that is there or appears, early enough for a poll to see it, and stays.\<close>

definition shows_up :: "dev_env \<Rightarrow> string \<Rightarrow> bool" where
  "shows_up env p \<longleftrightarrow>
     (\<exists>appears late. (\<forall>t < appears. \<exists>e. dev_Stat env p t = Inl e \<and> errors_Is_NotExist e) \<and>
        (\<forall>t \<ge> appears. dev_Stat env p t = Inr ()) \<and> (\<forall>t. stat_delay env t \<le> late) \<and>
        appears + late \<le> deviceNodePollTimeout)"

text \<open>The CDI library writes specs, and for native devices the runtime's spec can be read.\<close>

definition cdi_ready :: "cdi_env \<Rightarrow> CDIHandler \<Rightarrow> bool \<Rightarrow> bool" where
  "cdi_ready env c withNative \<longleftrightarrow>
     (withNative \<longrightarrow> (\<exists>r. getRuntimeUMDEdits env c = Inr r)) \<and>
     (\<forall>spec. \<exists>v. cdiapi_MinimumRequiredVersion env spec = Inr v) \<and>
     (\<forall>spec n. \<exists>m. cdiapi_GenerateNameForTransientSpec env spec n = Inr m) \<and>
     (\<forall>spec n. cache_WriteSpec_err env spec n = None)"

definition device_ready :: "prep_env \<Rightarrow> DeviceState \<Rightarrow> DeviceRequestAllocationResult \<Rightarrow> bool" where
  "device_ready env s r \<longleftrightarrow> admitted (env_sysfs env) s r \<and>
     (let d = allocated s (res_Device r) in
      if native s r
      then plain_name (deviceStringAttr d deviceNodeNameAttributeKey) \<and>
           shows_up (env_dev env) (''/dev/'' @ deviceStringAttr d deviceNodeNameAttributeKey)
      else shows_up (env_dev env) vfioContainerDevPath \<and>
           (\<forall>g. deviceIntAttr d iommuGroupAttributeKey = Some g \<longrightarrow>
              shows_up (env_dev env) (filepath_Join [vfioDevDir, FormatInt g])))"

text \<open>The RSD group of the claim's native devices can be created and its node appears.\<close>

definition group_ready :: "prep_env \<Rightarrow> DeviceState \<Rightarrow> ResourceClaim \<Rightarrow> bool" where
  "group_ready env s claim \<longleftrightarrow>
     (\<exists>rsd. rsdGroupFn env (sort (map (busOf s) (filter (native s) (driverResults claim)))) = Inr rsd \<and>
        rsd \<noteq> [] \<and> shows_up (env_dev env) rsd)"

definition host_ready :: "prep_env \<Rightarrow> DeviceState \<Rightarrow> ResourceClaim \<Rightarrow> bool" where
  "host_ready env s claim \<longleftrightarrow>
     GetCheckpoint_err env = None \<and> CreateCheckpoint_err env = None \<and> claim_Allocation claim \<noteq> None \<and>
     list_all (device_ready env s) (driverResults claim) \<and>
     (list_ex (native s) (driverResults claim) \<longrightarrow> group_ready env s claim) \<and>
     cdi_ready (env_cdi env) (cdi s) (list_ex (native s) (driverResults claim)) \<and>
     healthy_fs (kv_fs (env_kv env)) \<and> (\<forall>m. \<exists>data. json_Marshal (env_kv env) m = Inr data)"

section \<open>Each step works\<close>

lemma wait_works: "shows_up env p \<Longrightarrow> waitForDeviceNode env p = Inr ()"
  unfolding shows_up_def waitForDeviceNode_def using waitLoop_finds by blast

lemma plain_Base: "plain_name w \<Longrightarrow> filepath_Base w = w"
proof -
  assume w: "plain_name w"
  then have no: "CHR ''/'' \<notin> set w" "w \<noteq> []" by (auto simp: plain_name_def)
  then have "dropWhile (\<lambda>c. c = CHR ''/'') (rev w) = rev w"
    using no(1) last_in_set [OF no(2)] by (metis dropWhile_eq_self_iff hd_rev)
  then have "strip_slashes w = w" by (simp add: strip_slashes_def)
  with no show ?thesis by (simp add: filepath_Base_def Split_word)
qed

lemma applyConfig_works:
  assumes "gm_get alloc name = Some d" "shows_up env rsd"
    and "plain_name (deviceStringAttr d deviceNodeNameAttributeKey)"
    and "shows_up env (''/dev/'' @ deviceStringAttr d deviceNodeNameAttributeKey)"
  shows "\<exists>edits. applyConfig env alloc name rsd = Inr edits"
  using assms wait_works plain_Base [OF assms(3)] Join_dev [OF assms(3)]
  by (simp add: applyConfig_def newDeviceNode_def Let_def) (simp add: plain_name_def)

lemma vfioContainerEdits_works:
  assumes "deviceIntAttr d iommuGroupAttributeKey = Some g"
    and "shows_up env vfioContainerDevPath" "shows_up env (filepath_Join [vfioDevDir, FormatInt g])"
  shows "\<exists>edits. vfioContainerEdits env d ms = Inr edits"
  using assms wait_works
  by (auto simp: vfioContainerEdits_def deviceIOMMUGroup_def deviceIntAttr_def split: option.splits)

lemma admitted_allocated:
  assumes "admitted sy s r"
  shows "gm_get (allocatable s) (res_Device r) = Some (allocated s (res_Device r))" "live sy (state_sysfsRoot s) (allocated s (res_Device r))"
  using assms by (auto simp: admitted_def allocated_def)

lemma editsFor_works:
  assumes "device_ready env s r" "native s r \<longrightarrow> shows_up (env_dev env) rsd"
  shows "\<exists>edits. editsFor env s claim rsd rds before r = Inr edits"
proof (cases "native s r")
  case True
  then show ?thesis
    using assms applyConfig_works [OF admitted_allocated(1)]
    by (fastforce simp: device_ready_def editsFor_def Let_def)
next
  case False
  then have "live (env_sysfs env) (state_sysfsRoot s) (allocated s (res_Device r))" "isVfioDevice (allocated s (res_Device r))"
    using assms admitted_allocated(2) by (auto simp: device_ready_def native_def)
  then obtain g where "deviceIntAttr (allocated s (res_Device r)) iommuGroupAttributeKey = Some g"
    by (auto simp: live_def Let_def)
  with False assms(1) vfioContainerEdits_works show ?thesis by (simp add: editsFor_def device_ready_def Let_def)
qed

lemma prepareAll_works:
  assumes "\<And>before r. r \<in> set rs \<Longrightarrow> \<exists>edits. editsFor env s claim rsd rds before r = Inr edits"
  shows "\<exists>pds. prepareAll env s claim rsd rds before rs = Inr pds"
  using assms
proof (induction rs arbitrary: before)
  case (Cons r rs)
  obtain edits where "editsFor env s claim rsd rds before r = Inr edits" using Cons.prems [of r before] by auto
  moreover obtain pds where "prepareAll env s claim rsd rds (before @ [r]) rs = Inr pds"
    using Cons.IH [of "before @ [r]"] Cons.prems by auto
  ultimately show ?case by (simp add: preparedFor_def)
qed simp

lemma CreateCommonSpecFile_works:
  assumes "cdi_ready env c True"
  shows "\<exists>dir'. CreateCommonSpecFile env c dir = (dir', None)"
proof -
  obtain mounts hooks where r: "getRuntimeUMDEdits env c = Inr (mounts, hooks)" using assms by (auto simp: cdi_ready_def)
  let ?spec = "\<lparr>spec_Version = [], spec_Kind = kind c, spec_Devices = [\<lparr>cdi_Name = cdiCommonDeviceName,
      cdi_Edits = \<lparr>DeviceNodes = [], Mounts = mounts, Hooks = hooks\<rparr>\<rparr>]\<rparr>"
  obtain v where v: "cdiapi_MinimumRequiredVersion env ?spec = Inr v" using assms unfolding cdi_ready_def by blast
  obtain n where "cdiapi_GenerateNameForTransientSpec env (?spec\<lparr>spec_Version := v\<rparr>) cdiCommonDeviceName = Inr n"
    using assms by (meson cdi_ready_def)
  with r v assms show ?thesis by (simp add: CreateCommonSpecFile_def WriteSpec_def cdi_ready_def)
qed

lemma CreateClaimSpecFile_works:
  assumes "cdi_ready env c n"
  shows "\<exists>dir'. CreateClaimSpecFile env c uid pds dir = (dir', None)"
proof -
  obtain v where "cdiapi_MinimumRequiredVersion env (claimSpec env c uid pds) = Inr v" using assms unfolding cdi_ready_def by blast
  with assms show ?thesis by (simp add: CreateClaimSpecFile_def WriteSpec_def cdi_ready_def Let_def)
qed

lemma prepareDevices_works:
  assumes "host_ready env s claim"
  shows "\<exists>specs' pds. prepareDevices env s claim specs = (specs', Inr pds)"
proof -
  let ?rs = "driverResults claim"
  obtain al where al: "claim_Allocation claim = Some al" using assms by (auto simp: host_ready_def)
  then have D: "?rs = filter ours al" by (simp add: driverResults_def claimResults_def)
  have ready: "\<forall>r \<in> set ?rs. device_ready env s r" using assms by (simp add: host_ready_def list_all_iff)
  then have v: "validateResults (env_sysfs env) s al [] = Inr ?rs"
    by (auto simp: validateResults_Inr D device_ready_def)
  have "busOf s r \<noteq> []" if "r \<in> set ?rs" for r
    using that ready admitted_allocated(2) [of "env_sysfs env" s r] by (auto simp: device_ready_def live_def Let_def busOf_def)
  then have i: "nativeBusIDs s ?rs [] = Inr (map (busOf s) (filter (native s) ?rs))" by (simp add: nativeBusIDs_Inr)
  have L: "prepareLoop env s claim rsd rds ?rs gm_empty False [] = prepareAll env s claim rsd rds [] ?rs" for rsd rds
    using prepareLoop_prepareAll [of gm_empty s "[]" False env claim rsd rds ?rs "[]"] by (simp split: sum.splits)
  show ?thesis
  proof (cases "list_ex (native s) ?rs")
    case True
    then obtain rsd where g: "rsdGroupFn env (sort (map (busOf s) (filter (native s) ?rs))) = Inr rsd" "rsd \<noteq> []"
      "shows_up (env_dev env) rsd"
      using assms by (auto simp: host_ready_def group_ready_def)
    obtain specs1 where c: "CreateCommonSpecFile (env_cdi env) (cdi s) specs = (specs1, None)"
      using assms True CreateCommonSpecFile_works by (fastforce simp: host_ready_def)
    have "\<exists>edits. editsFor env s claim rsd (rdsNodesOf env s) before r = Inr edits" if "r \<in> set ?rs" for before r
      using editsFor_works ready g(3) that by simp
    then obtain pds where "prepareAll env s claim rsd (rdsNodesOf env s) [] ?rs = Inr pds"
      using prepareAll_works [of ?rs env s claim rsd "rdsNodesOf env s" "[]"] by blast
    moreover have "map (busOf s) (filter (native s) ?rs) \<noteq> []" using True by (auto simp: list_ex_iff filter_empty_conv)
    then have "sort (map (busOf s) (filter (native s) ?rs)) \<noteq> []" by (metis length_0_conv length_sort)
    ultimately show ?thesis using al v i c g(1,2) L by (simp add: prepareDevices_def Let_def)
  next
    case False
    then have "filter (native s) ?rs = []" by (simp add: list_ex_iff filter_empty_conv)
    moreover have "\<exists>edits. editsFor env s claim [] [] before r = Inr edits" if "r \<in> set ?rs" for before r
      using editsFor_works [of env s r "[]"] ready False that by (auto simp: list_ex_iff)
    then obtain pds where "prepareAll env s claim [] [] [] ?rs = Inr pds"
      using prepareAll_works [of ?rs env s claim "[]" "[]" "[]"] by blast
    ultimately show ?thesis using al v i L by (simp add: prepareDevices_def Let_def)
  qed
qed

section \<open>A tidy tree\<close>

text \<open>
  Nothing below the metadata directory stands in the way of any claim, but the markers of the
  claims in \<open>T\<close>, which may be torn.
\<close>

abbreviation clear_for :: "string set \<Rightarrow> hostfs \<Rightarrow> string \<Rightarrow> bool" where
  "clear_for T fs uid \<equiv> way_clear fs (claimDirOf uid) (\<lambda>c. uid \<in> T \<or> TrimSpace c = uid) (Collect request_ok)"

definition tidy :: "string set \<Rightarrow> hostfs \<Rightarrow> bool" where
  "tidy T fs \<longleftrightarrow> (\<forall>uid. uid_ok uid \<longrightarrow> clear_for T fs uid) \<and>
     (\<forall>c. gm_get fs (metaBase @ [resourceClaimTemplateSubdir]) \<noteq> Some (File c))"

lemma tidy_empty [simp]: "tidy T gm_empty"
  by (simp add: tidy_def)

lemma tidy_mono: "tidy T fs \<Longrightarrow> T \<subseteq> T' \<Longrightarrow> tidy T' fs"
  unfolding tidy_def way_clear_def fits_def by (fastforce split: node.splits)

lemma tidy_less: "tidy T fs \<Longrightarrow> (\<And>k. gm_get fs' k = gm_get fs k \<or> gm_get fs' k = None) \<Longrightarrow> tidy T fs'"
  unfolding tidy_def using way_clear_less by (metis option.distinct(1))

lemma claim_names_ok: "uid_ok uid \<Longrightarrow> names_ok (claimDirOf uid) (Collect request_ok)"
  by (simp add: names_ok_def hostSegs_plain)

lemma claim_ok_requests: "claim_ok claim \<Longrightarrow> requestsOf claim \<subseteq> Collect request_ok"
  using claim_okD(2) [of claim] by (auto simp: requestsOf_def)

text \<open>What happens in one claim's directory is out of the way of the others.\<close>

lemma fits_elsewhere:
  assumes "u \<noteq> uid" "under (claimDirOf u) k"
  shows "fits (claimDirOf uid) M R k v"
proof -
  have "\<not> under (claimDirOf uid) k" using hostSegs_apart [OF assms] .
  moreover have "\<not> under k (claimDirOf uid)"
  proof
    assume "under k (claimDirOf uid)"
    with assms(2) have "under (claimDirOf u) (claimDirOf uid)" by (auto simp: under_iff)
    then show False using assms(1) by (simp add: under_def hostSegs_def)
  qed
  ultimately show ?thesis by (cases v) (auto simp: fits_def)
qed

lemma fits_above:
  assumes "under k (claimDirOf u)"
  shows "fits (claimDirOf uid) M R k Dir"
proof -
  have "length k \<le> length (claimDirOf uid)" using under_length [OF assms] by (simp add: hostSegs_def)
  then show ?thesis by (auto simp: fits_def)
qed

lemma tidy_changes:
  assumes "tidy T fs" "changes_below (claimDirOf u) fs fs'" "uid_ok u \<Longrightarrow> clear_for T fs' u"
  shows "tidy T fs'"
proof -
  have "clear_for T fs' uid" if uid: "uid_ok uid" for uid
  proof (cases "uid = u")
    case False
    show ?thesis unfolding way_clear_def
    proof (intro allI impI)
      fix k v assume v: "gm_get fs' k = Some v"
      from assms(2) consider "gm_get fs' k = gm_get fs k" | "under (claimDirOf u) k" | "under k (claimDirOf u)" "v = Dir"
        unfolding changes_below_def using v by (metis option.inject)
      then show "fits (claimDirOf uid) (\<lambda>c. uid \<in> T \<or> TrimSpace c = uid) (Collect request_ok) k v"
      proof cases
        case 1
        with assms(1) uid v show ?thesis by (auto simp: tidy_def way_clear_def)
      next
        case 2
        with False show ?thesis by (intro fits_elsewhere) auto
      next
        case 3
        then show ?thesis using fits_above by simp
      qed
    qed
  qed (use assms(3) uid in simp)
  moreover have "gm_get fs' (metaBase @ [resourceClaimTemplateSubdir]) \<noteq> Some (File c)" for c
  proof -
    have "\<not> under (claimDirOf u) (metaBase @ [resourceClaimTemplateSubdir])" by (auto simp: under_def hostSegs_def)
    with assms(1,2) show ?thesis unfolding tidy_def changes_below_def by (metis node.distinct(1) option.inject)
  qed
  ultimately show ?thesis by (simp add: tidy_def)
qed

lemma writeMetadata_tidy:
  assumes "tidy T (w_fs w)" "claim_ok claim"
    and "claim_UID claim \<in> T \<or> whole_marker (kv_fs (env_kv env)) metaBase (claim_UID claim)"
    and "writeMetadata env s claim w = (w2, e)"
  shows "tidy T (w_fs w2)"
proof (cases "claimHasVfioDevice s claim")
  case True
  then have wk: "writeKubeVirtMetadata (env_kv env) (abs_path metaBase) claim (allocatable s) (w_fs w) = (w_fs w2, e)"
    using assms(4) by (auto simp: writeMetadata_def metaBase_abs split: prod.splits)
  note u = claim_okD(1) [OF assms(2)]
  have "changes_below (claimDirOf (claim_UID claim)) (w_fs w) (w_fs w2)"
    using write_steps [OF metaBase_plain claim_okD(1,3) [OF assms(2)] wk] by simp
  moreover have "clear_for T (w_fs w2) (claim_UID claim)"
    using write_clear [OF metaBase_plain u claim_names_ok [OF u] claim_ok_requests [OF assms(2)] _ _ _ wk] assms(1,3) u
      TrimSpace_marker [OF u] by (auto simp: tidy_def)
  ultimately show ?thesis using tidy_changes [OF assms(1)] by blast
qed (use assms in \<open>simp add: writeMetadata_def\<close>)

lemma remove_tidy:
  assumes "tidy T fs" "fs_ok fs" "removeKubeVirtMetadataForClaim env kubevirtMetadataBasePath uid fs = (fs', e)"
  shows "tidy T fs'"
proof -
  have "removeSubdirs env (abs_path metaBase) uid metaSubdirs fs = (fs', e)"
    using assms(3) by (simp add: removeKubeVirtMetadataForClaim_def metaBase_abs)
  from removeSubdirs_safe [OF metaBase_plain _ assms(2) this] have "gm_get fs' k = gm_get fs k \<or> gm_get fs' k = None" for k
    by fastforce
  then show ?thesis by (rule tidy_less [OF assms(1)])
qed

section \<open>Both calls work\<close>

theorem Prepare_works:
  assumes "host_ready env s claim" "claim_ok claim" "tidy T (w_fs w)" "claim_UID claim \<notin> T"
  shows "\<exists>w' ds. Prepare env s claim w = (w', Inr ds)"
proof (cases "recorded (w_claims w) (claim_UID claim) = []")
  case True
  note u = claim_okD(1) [OF assms(2)]
  obtain specs1 pds where p: "prepareDevices env s claim (w_specs w) = (specs1, Inr pds)"
    using prepareDevices_works [OF assms(1)] by blast
  have fs: "healthy_fs (kv_fs (env_kv env))" "\<And>m. \<exists>data. json_Marshal (env_kv env) m = Inr data"
    and ck: "GetCheckpoint_err env = None" "CreateCheckpoint_err env = None"
    using assms(1) by (simp_all add: host_ready_def)
  have "way_clear (w_fs w) (claimDirOf (claim_UID claim)) (\<lambda>c. TrimSpace c = claim_UID claim) (Collect request_ok)"
    using assms(3,4) u by (auto simp: tidy_def)
  from write_works [OF metaBase_plain u claim_names_ok [OF u] claim_ok_requests [OF assms(2)] fs this, of "allocatable s"]
  obtain fs' where "writeKubeVirtMetadata (env_kv env) kubevirtMetadataBasePath claim (allocatable s) (w_fs w) = (fs', None)"
    unfolding metaBase_abs by blast
  then obtain w2 where m: "writeMetadata env s claim (w\<lparr>w_specs := specs1\<rparr>) = (w2, None)"
    by (cases "claimHasVfioDevice s claim") (auto simp: writeMetadata_def)
  obtain specs3 where "CreateClaimSpecFile (env_cdi env) (cdi s) (claim_UID claim) pds (w_specs w2) = (specs3, None)"
    using assms(1) CreateClaimSpecFile_works unfolding host_ready_def by blast
  with p m True ck show ?thesis by (simp add: Prepare_def Let_def)
next
  case False
  with assms(1) Prepare_replay [of env w claim s] show ?thesis by (simp add: host_ready_def)
qed

lemma removeSubdirs_None:
  assumes "removal_works env" "list_all plain_name bs" "bs \<noteq> []" "list_all plain_name subs" "fs_ok fs"
    and "\<And>sub k c. sub \<in> set subs \<Longrightarrow> under k (bs @ [sub]) \<Longrightarrow> gm_get fs k \<noteq> Some (File c)"
  shows "snd (removeSubdirs env (abs_path bs) uid subs fs) = None"
  using assms(4-6)
proof (induction subs arbitrary: fs)
  case (Cons sub subs)
  have pl: "list_all plain_name (bs @ [sub])" using assms(2) Cons.prems(1) by simp
  have J: "filepath_Join [abs_path bs, sub] = abs_path (bs @ [sub])" using assms(2,3) Cons.prems(1) by (simp add: Join_child)
  show ?case
  proof (cases "fs_ReadDir env (abs_path (bs @ [sub])) fs")
    case (Inl err)
    have "\<not> through_file fs (bs @ [sub])" using through_file_under Cons.prems(3) [of sub] by (metis list.set_intros(1))
    then have "\<not> isdir fs (bs @ [sub])" "gm_get fs (bs @ [sub]) = None \<Longrightarrow> os_IsNotExist err"
      using Inl assms(1) pl by (auto simp: fs_ReadDir_def removal_works_def split: if_splits)
    moreover have "gm_get fs (bs @ [sub]) = None"
      using calculation(1) Cons.prems(3) [of sub "bs @ [sub]"] by (cases "gm_get fs (bs @ [sub])") (auto simp: isdir_def intro: node.exhaust)
    moreover have "snd (removeSubdirs env (abs_path bs) uid subs fs) = None"
      by (rule Cons.IH) (use Cons.prems(1,2) in simp_all, meson Cons.prems(3) list.set_intros(2))
    ultimately show ?thesis using Inl by (simp add: J)
  next
    case (Inr es)
    obtain fs1 where r: "removeEntries env (abs_path (bs @ [sub])) uid es fs = (fs1, None)"
      using removeEntries_None [OF assms(1)] by (metis prod.collapse)
    have es: "\<forall>x \<in> set es. plain_name (fst x)"
      using ReadDir_children [OF pl Inr] children_plain [OF Cons.prems(2)] by auto
    have keep: "gm_get fs1 k \<noteq> Some (File c)" if "gm_get fs k \<noteq> Some (File c)" for k c
      using removeEntries_safe [OF pl _ es r, of k] that by auto
    have "snd (removeSubdirs env (abs_path bs) uid subs fs1) = None"
    proof (rule Cons.IH [OF _ removeEntries_ok [OF Cons.prems(2) r]])
      show "list_all plain_name subs" using Cons.prems(1) by simp
      show "gm_get fs1 k \<noteq> Some (File c)" if "x \<in> set subs" "under k (bs @ [x])" for x k c
        using that Cons.prems(3) [of x k c] keep by simp
    qed
    with r Inr show ?thesis by (simp add: J)
  qed
qed simp

theorem Unprepare_works:
  assumes "GetCheckpoint_err env = None" "CreateCheckpoint_err env = None"
    and "\<And>n. cache_RemoveSpec_err (env_cdi env) n = None" "removal_works (kv_fs (env_kv env))"
    and "fs_ok (w_fs w)" "tidy T (w_fs w)"
  shows "snd (Unprepare env s uid w) = None"
proof -
  have clear: "clear_for T (w_fs w) []" using assms(6) by (simp add: tidy_def uid_ok_def)
  have "gm_get (w_fs w) k \<noteq> Some (File c)" if "sub \<in> set metaSubdirs" "under k (metaBase @ [sub])" for sub k c
  proof -
    have "under k metaBase \<or> k = metaBase @ [sub]"
      using that(2) by (auto simp: under_iff append_eq_append_conv2 Cons_eq_append_conv)
    moreover have "under k (claimDirOf [])" if "under k metaBase \<or> k = metaBase @ [resourceClaimsSubdir]"
      using that by (auto simp: under_iff hostSegs_def) (metis append_assoc)
    ultimately have "under k (claimDirOf []) \<or> k = metaBase @ [resourceClaimTemplateSubdir]"
      using that(1) by auto
    then show ?thesis using way_clear_File [OF clear] assms(6) by (auto simp: tidy_def)
  qed
  then have "snd (removeKubeVirtMetadataForClaim (kv_fs (env_kv env)) kubevirtMetadataBasePath uid (w_fs w)) = None"
    using removeSubdirs_None [OF assms(4) metaBase_plain _ assms(5), of metaSubdirs uid]
    unfolding removeKubeVirtMetadataForClaim_def metaBase_abs by (simp del: removeSubdirs.simps)
  then show ?thesis
    using assms(1-3) by (auto simp: Unprepare_def unprepareDevices_def DeleteClaimSpecFile_def RemoveSpec_def Let_def
        split: prod.splits option.splits)
qed

end
