(* ===== verification/Crash.thy ===== *)
theory Crash
  imports Driver_Spec Prepare_Success
begin

text \<open>
  A node whose plugin may be killed at any time and started again. What a kill in the middle of a
  call leaves is the world after some of the call's effects: \<open>prepare_cut\<close> and \<open>unprepare_cut\<close>.
  Within a group of \<open>os\<close> calls the kill is a fault of the call it hits, because the code returns at
  its first failing call and cleans up only afterwards; \<open>fs_env\<close> makes any call fail, a half-done
  one included. The write of the owner marker is no exception: \<open>torn_in\<close> are the claims for which a
  life may have left it half written, and what a claim's own files are worth is said for the others.
\<close>

section \<open>Calls that are cut short\<close>

definition with_faults :: "prep_env \<Rightarrow> fs_env \<Rightarrow> prep_env" where
  "with_faults env fenv = env\<lparr>env_kv := (env_kv env)\<lparr>kv_fs := fenv\<rparr>\<rparr>"

inductive prepare_cut :: "prep_env \<Rightarrow> DeviceState \<Rightarrow> ResourceClaim \<Rightarrow> world \<Rightarrow> world \<Rightarrow> bool"
  for env s claim w where
  untouched: "prepare_cut env s claim w w"
| common_spec: "recorded (w_claims w) (claim_UID claim) = [] \<Longrightarrow>
     prepareDevices env s claim (w_specs w) = (specs1, r) \<Longrightarrow> prepare_cut env s claim w (w\<lparr>w_specs := specs1\<rparr>)"
| metadata: "recorded (w_claims w) (claim_UID claim) = [] \<Longrightarrow>
     prepareDevices env s claim (w_specs w) = (specs1, Inr pds) \<Longrightarrow>
     writeMetadata env s claim (w\<lparr>w_specs := specs1\<rparr>) = (w2, e) \<Longrightarrow> prepare_cut env s claim w w2"
| claim_spec: "recorded (w_claims w) (claim_UID claim) = [] \<Longrightarrow>
     prepareDevices env s claim (w_specs w) = (specs1, Inr pds) \<Longrightarrow>
     writeMetadata env s claim (w\<lparr>w_specs := specs1\<rparr>) = (w2, None) \<Longrightarrow>
     CreateClaimSpecFile (env_cdi env) (cdi s) (claim_UID claim) pds (w_specs w2) = (specs3, e) \<Longrightarrow>
     prepare_cut env s claim w (w2\<lparr>w_specs := specs3\<rparr>)"
| rolling_back: "prepare_cut env s claim w x \<Longrightarrow> recorded (w_claims w) (claim_UID claim) = [] \<Longrightarrow>
     w_claims x = w_claims w \<Longrightarrow>
     prepare_cut env s claim w (rollbackKubeVirtMetadata (with_faults env fenv) (claim_UID claim) x)"
| finished: "Prepare env s claim w = (w', r') \<Longrightarrow> prepare_cut env s claim w w'"

inductive unprepare_cut :: "prep_env \<Rightarrow> DeviceState \<Rightarrow> string \<Rightarrow> world \<Rightarrow> world \<Rightarrow> bool"
  for env s uid w where
  untouched: "unprepare_cut env s uid w w"
| spec: "recorded (w_claims w) uid \<noteq> [] \<Longrightarrow> DeleteClaimSpecFile (env_cdi env) (cdi s) uid (w_specs w) = (specs1, e) \<Longrightarrow>
     unprepare_cut env s uid w (w\<lparr>w_specs := specs1\<rparr>)"
| metadata: "recorded (w_claims w) uid \<noteq> [] \<Longrightarrow> DeleteClaimSpecFile (env_cdi env) (cdi s) uid (w_specs w) = (specs1, None) \<Longrightarrow>
     removeKubeVirtMetadataForClaim fenv kubevirtMetadataBasePath uid (w_fs w) = (fs1, e) \<Longrightarrow>
     unprepare_cut env s uid w (w\<lparr>w_specs := specs1, w_fs := fs1\<rparr>)"
| finished: "Unprepare env s uid w = (w', e) \<Longrightarrow> unprepare_cut env s uid w w'"

section \<open>A node's life\<close>

datatype node_state = Up driver | Down world

datatype moment = Event event | Crash | CrashIn event | Start

fun torn_at :: "moment \<Rightarrow> string set" where
  "torn_at (Event ev) = tears ev"
| "torn_at (CrashIn ev) = tears ev"
| "torn_at _ = {}"

definition torn_in :: "moment list \<Rightarrow> string set" where
  "torn_in ms = \<Union> (torn_at ` set ms)"

text \<open>The checkpoint manager lists the checkpoint file; without one no claim was ever recorded.\<close>

definition finds_checkpoint :: "driver_env \<Rightarrow> world \<Rightarrow> bool" where
  "finds_checkpoint env w \<longleftrightarrow> w_claims w = gm_empty \<or>
     (\<forall>cs. st_ListCheckpoints (de_startup env) = Inr cs \<longrightarrow> DriverPluginCheckpointFile \<in> set cs)"

text \<open>Leaving after a signal or a fatal error is a \<open>Crash\<close> between calls: \<open>Shutdown\<close> leaves the world alone.\<close>

inductive node_step :: "Config \<Rightarrow> node_state \<Rightarrow> moment \<Rightarrow> node_state \<Rightarrow> bool" for config where
  run: "driver_step d ev d' \<Longrightarrow> node_step config (Up d) (Event ev) (Up d')"
| crash: "node_step config (Up d) Crash (Down (d_world d))"
| crash_in_prepare: "claim_ok claim \<Longrightarrow> prepare_cut env (d_state d) claim (d_world d) w \<Longrightarrow>
     node_step config (Up d) (CrashIn (PrepareClaim env claim)) (Down w)"
| crash_in_unprepare: "unprepare_cut env (d_state d) uid (d_world d) w \<Longrightarrow>
     node_step config (Up d) (CrashIn (UnprepareClaim env uid)) (Down w)"
| starts: "finds_checkpoint env w \<Longrightarrow> NewDriver env config w = (w', Inr d) \<Longrightarrow> node_step config (Down w) Start (Up d)"
| fails_to_start: "finds_checkpoint env w \<Longrightarrow> NewDriver env config w = (w', Inl err) \<Longrightarrow> node_step config (Down w) Start (Down w')"

inductive_cases node_stepE: "node_step config n m n'"

fun worldOf :: "node_state \<Rightarrow> world" where
  "worldOf (Up d) = d_world d"
| "worldOf (Down w) = w"

section \<open>What a cut leaves\<close>

lemma with_faults_simps [simp]:
  "kv_fs (env_kv (with_faults env fenv)) = fenv" "env_cdi (with_faults env fenv) = env_cdi env"
  by (simp_all add: with_faults_def)

text \<open>
  The world stays well-formed and tidy, and other claims are not touched. \<open>T\<close> are the claims whose
  markers may be torn.
\<close>

definition confined :: "string set \<Rightarrow> string \<Rightarrow> world \<Rightarrow> world \<Rightarrow> bool" where
  "confined T uid w x \<longleftrightarrow>
     stores_ok T x \<and> tidy T (w_fs x) \<and>
     (\<forall>u. u \<noteq> uid \<longrightarrow> gm_get (w_claims x) u = gm_get (w_claims w) u) \<and>
     (\<forall>k. beyond T uid k \<longrightarrow>
        gm_get (w_fs x) k = gm_get (w_fs w) k \<or>
        under k (claimDirOf uid) \<and> gm_get (w_fs w) k = None \<and> gm_get (w_fs x) k = Some Dir)"

lemma confined_refl: "stores_ok T w \<Longrightarrow> tidy T (w_fs w) \<Longrightarrow> confined T uid w w"
  by (simp add: confined_def)

lemma confined_specs: "confined T uid w x \<Longrightarrow> gm_ok sp \<Longrightarrow> confined T uid w (x\<lparr>w_specs := sp\<rparr>)"
  by (simp add: confined_def stores_ok_def)

lemma confined_claims:
  "confined T uid w x \<Longrightarrow> gm_ok cl \<Longrightarrow> (\<And>u. u \<noteq> uid \<Longrightarrow> gm_get cl u = gm_get (w_claims w) u) \<Longrightarrow> confined T uid w (x\<lparr>w_claims := cl\<rparr>)"
  by (simp add: confined_def stores_ok_def)

lemma confined_write:
  assumes "confined T uid w x" "claim_ok claim" "claim_UID claim = uid"
    and t: "uid \<in> T \<or> whole_marker (kv_fs (env_kv env)) metaBase uid"
    and m: "writeMetadata env s claim x = (x', e)"
  shows "confined T uid w x'"
proof -
  have ok: "stores_ok T x" "tidy T (w_fs x)" using assms(1) by (simp_all add: confined_def)
  have ch: "changes_below (claimDirOf uid) (w_fs x) (w_fs x')" and "stores_ok T x'" "tidy T (w_fs x')"
    using writeMetadata_ok [OF ok(1) assms(2) _ m] writeMetadata_tidy [OF ok(2) assms(2) _ m] assms(3) t by auto
  moreover have "w_claims x' = w_claims x" using writeMetadata_frame [OF m] by simp
  moreover have "gm_get (w_fs x') k = gm_get (w_fs w) k \<or>
      under k (claimDirOf uid) \<and> gm_get (w_fs w) k = None \<and> gm_get (w_fs x') k = Some Dir" if k: "beyond T uid k" for k
  proof -
    have "\<not> under (claimDirOf uid) k" using k by (simp add: beyond_def)
    moreover have "gm_get (w_fs x) k = gm_get (w_fs w) k \<or>
        under k (claimDirOf uid) \<and> gm_get (w_fs w) k = None \<and> gm_get (w_fs x) k = Some Dir"
      using assms(1) k by (simp add: confined_def)
    ultimately show ?thesis using ch unfolding changes_below_def by (metis option.distinct(1))
  qed
  ultimately show ?thesis using assms(1) by (simp add: confined_def)
qed

lemma confined_remove:
  assumes "confined T uid w x" "removeKubeVirtMetadataForClaim fenv kubevirtMetadataBasePath uid (w_fs x) = (fs1, e)"
  shows "confined T uid w (x\<lparr>w_fs := fs1\<rparr>)"
proof -
  have ok: "fs_ok (w_fs x)" "markers_ok T (w_fs x)" "tidy T (w_fs x)" using assms(1) by (simp_all add: confined_def stores_ok_def)
  from removeMetadata_facts(1,2,4) [OF ok(1,2) assms(2)] remove_tidy [OF ok(3,1) assms(2)] assms(1)
  show ?thesis by (simp add: confined_def stores_ok_def)
qed

lemma confined_rollback:
  assumes "confined T uid w x"
  shows "confined T uid w (rollbackKubeVirtMetadata env uid x)"
proof -
  obtain fs1 e where r: "removeKubeVirtMetadataForClaim (kv_fs (env_kv env)) kubevirtMetadataBasePath uid (w_fs x) = (fs1, e)"
    by fastforce
  from confined_remove [OF assms r] r show ?thesis by (simp add: rollbackKubeVirtMetadata_def)
qed

lemma Prepare_confined:
  assumes "stores_ok T w" "tidy T (w_fs w)" "claim_ok claim"
    and t: "claim_UID claim \<in> T \<or> whole_marker (kv_fs (env_kv env)) metaBase (claim_UID claim)"
    and p: "Prepare env s claim w = (w', r)"
  shows "confined T (claim_UID claim) w w'"
proof -
  let ?uid = "claim_UID claim"
  have 0: "confined T ?uid w w" by (rule confined_refl [OF assms(1,2)])
  have wr: "confined T ?uid w w2" if "prepareDevices env s claim (w_specs w) = (specs1, x)"
    "writeMetadata env s claim (w\<lparr>w_specs := specs1\<rparr>) = (w2, e)" for specs1 x w2 e
    using confined_write [OF confined_specs [OF 0] assms(3) refl t that(2)] prepareDevices_gm_ok [OF that(1)] assms(1)
    by (simp add: stores_ok_def)
  show ?thesis
  proof (cases r)
    case (Inl err)
    from Prepare_failed [OF p [unfolded Inl]] consider "w' = w"
      | specs1 e where "prepareDevices env s claim (w_specs w) = (specs1, Inl e)" "w' = w\<lparr>w_specs := specs1\<rparr>"
      | specs1 pds w2 e specs3 where "prepareDevices env s claim (w_specs w) = (specs1, Inr pds)"
        "writeMetadata env s claim (w\<lparr>w_specs := specs1\<rparr>) = (w2, e)" "gm_ok specs1 \<longrightarrow> gm_ok specs3"
        "w' = rollbackKubeVirtMetadata env ?uid (w2\<lparr>w_specs := specs3\<rparr>)" by blast
    then show ?thesis
    proof cases
      case 2
      then show ?thesis using confined_specs [OF 0] prepareDevices_gm_ok [OF 2(1)] assms(1) by (simp add: stores_ok_def)
    next
      case 3
      have "gm_ok specs3" using prepareDevices_gm_ok [OF 3(1)] 3(3) assms(1) by (simp add: stores_ok_def)
      with confined_rollback [OF confined_specs [OF wr [OF 3(1,2)]]] 3(4) show ?thesis by simp
    qed (use 0 in simp)
  next
    case (Inr ds)
    show ?thesis
    proof (cases "recorded (w_claims w) ?uid = []")
      case True
      obtain specs1 pds w2 specs3 where f: "prepareDevices env s claim (w_specs w) = (specs1, Inr pds)"
        "writeMetadata env s claim (w\<lparr>w_specs := specs1\<rparr>) = (w2, None)"
        "CreateClaimSpecFile (env_cdi env) (cdi s) ?uid pds specs1 = (specs3, None)"
        "w' = w2\<lparr>w_specs := specs3, w_claims := gm_put ?uid pds (w_claims w)\<rparr>"
        using Prepare_fresh [OF p [unfolded Inr] True] by blast
      have "gm_ok specs3"
        using CreateClaimSpecFile_gm_ok [OF f(3)] prepareDevices_gm_ok [OF f(1)] assms(1) by (simp add: stores_ok_def)
      from confined_claims [OF confined_specs [OF wr [OF f(1,2)] this], of "gm_put ?uid pds (w_claims w)"] f(4) assms(1)
      show ?thesis by (simp add: stores_ok_def)
    qed (use Prepare_early [of env w claim s] p 0 in simp)
  qed
qed

lemma Unprepare_confined:
  assumes "stores_ok T w" "tidy T (w_fs w)" "Unprepare env s uid w = (w', e)"
  shows "confined T uid w w'"
proof -
  have "tidy T (w_fs w')"
    using Unprepare_steps [OF assms(3)] remove_tidy [OF assms(2)] assms(1,2) by (auto simp: stores_ok_def)
  then show ?thesis
    using Unprepare_world_ok [OF assms(1,3)] Unprepare_other_claims [OF assms(3)] by (simp add: confined_def)
qed

lemma prepare_cut_confined:
  assumes "prepare_cut env s claim w x" "stores_ok T w" "tidy T (w_fs w)" "claim_ok claim"
    and t: "claim_UID claim \<in> T \<or> whole_marker (kv_fs (env_kv env)) metaBase (claim_UID claim)"
  shows "confined T (claim_UID claim) w x"
  using assms(1)
proof (induction rule: prepare_cut.induct)
  case untouched
  show ?case by (rule confined_refl [OF assms(2,3)])
next
  case (common_spec specs1 r)
  have "gm_ok specs1" using prepareDevices_gm_ok [OF common_spec(2)] assms(2) by (simp add: stores_ok_def)
  then show ?case by (rule confined_specs [OF confined_refl [OF assms(2,3)]])
next
  case (metadata specs1 pds w2 e)
  have "gm_ok specs1" using prepareDevices_gm_ok [OF metadata(2)] assms(2) by (simp add: stores_ok_def)
  from confined_write [OF confined_specs [OF confined_refl [OF assms(2,3)] this] assms(4) refl t metadata(3)]
  show ?case .
next
  case (claim_spec specs1 pds w2 specs3 e)
  have ok: "gm_ok specs1" using prepareDevices_gm_ok [OF claim_spec(2)] assms(2) by (simp add: stores_ok_def)
  have "confined T (claim_UID claim) w w2"
    by (rule confined_write [OF confined_specs [OF confined_refl [OF assms(2,3)] ok] assms(4) refl t claim_spec(3)])
  moreover have "gm_ok specs3"
    using CreateClaimSpecFile_gm_ok [OF claim_spec(4)] writeMetadata_frame [OF claim_spec(3)] ok by simp
  ultimately show ?case by (rule confined_specs)
next
  case (rolling_back x fenv)
  then show ?case by (intro confined_rollback)
next
  case (finished w' r')
  then show ?case by (intro Prepare_confined [OF assms(2-4) t])
qed

lemma unprepare_cut_confined:
  assumes "unprepare_cut env s uid w x" "stores_ok T w" "tidy T (w_fs w)"
  shows "confined T uid w x"
proof -
  have del: "confined T uid w (w\<lparr>w_specs := specs1\<rparr>)"
    if "DeleteClaimSpecFile (env_cdi env) (cdi s) uid (w_specs w) = (specs1, e)" for specs1 e
    using that assms(2) DeleteClaimSpecFile_ok DeleteClaimSpecFile_err
    by (intro confined_specs [OF confined_refl [OF assms(2,3)]]) (cases e; fastforce simp: stores_ok_def)
  show ?thesis
    using assms(1)
  proof cases
    case untouched
    then show ?thesis using confined_refl [OF assms(2,3)] by simp
  next
    case (metadata specs1 fenv fs1 e)
    from confined_remove [OF del [OF metadata(3)], of fenv fs1 e] metadata(1,4) show ?thesis by simp
  qed (use del Unprepare_confined [OF assms(2,3)] in auto)
qed

text \<open>Only a claim without devices gets a record, and only unpreparing takes one away.\<close>

lemma prepare_cut_keeps:
  assumes "prepare_cut env s claim w x" "recorded (w_claims w) uid \<noteq> []"
  shows "recorded (w_claims x) uid = recorded (w_claims w) uid"
  using assms(1)
proof (induction rule: prepare_cut.induct)
  case (finished w' r')
  show ?case
  proof (cases "uid = claim_UID claim")
    case True
    with Prepare_early [of env w claim s] assms(2) finished show ?thesis by simp
  next
    case False
    with Prepare_other_claims [OF finished False] show ?thesis by (simp add: recorded_def)
  qed
qed (auto dest: writeMetadata_frame)

section \<open>The invariant of a node\<close>

definition node_inv :: "Config \<Rightarrow> string set \<Rightarrow> node_state \<Rightarrow> bool" where
  "node_inv config T n \<longleftrightarrow> stores_ok T (worldOf n) \<and> tidy T (w_fs (worldOf n)) \<and>
     (case n of Up d \<Rightarrow> \<exists>s0. driver_inv UNIV s0 d \<and> nodeName s0 = flags_nodeName config | Down w \<Rightarrow> True)"

lemma node_inv_mono: "node_inv config T n \<Longrightarrow> T \<subseteq> T' \<Longrightarrow> node_inv config T' n"
  using stores_ok_mono tidy_mono unfolding node_inv_def by blast

lemma start_keeps_world:
  assumes "finds_checkpoint env w" "NewDriver env config w = (w', r)"
  shows "w' = w"
proof (cases "st_ListCheckpoints (de_startup env)")
  case (Inl err)
  then show ?thesis
    using assms(2) by (auto simp: NewDriver_def NewDeviceState_def Let_def split: prod.splits sum.splits option.splits)
next
  case (Inr cs)
  show ?thesis
  proof (cases "DriverPluginCheckpointFile \<in> set cs")
    case False
    with assms(1) Inr have "w_claims w = gm_empty" by (simp add: finds_checkpoint_def)
    with NewDriver_claims(1-3) [OF assms(2)] show ?thesis by (cases w, cases w') simp
  qed (use NewDriver_claims(4) [OF assms(2) Inr] in simp)
qed

lemma step_tidy:
  assumes "driver_step d ev d'" "stores_ok T (d_world d)" "tidy T (w_fs (d_world d))" "tears ev \<subseteq> T"
  shows "tidy T (w_fs (d_world d'))"
  using assms(1)
proof cases
  case (prepare claim env w' r)
  then have t: "claim_UID claim \<in> T \<or> whole_marker (kv_fs (env_kv env)) metaBase (claim_UID claim)"
    using assms(4) by (auto split: if_splits)
  obtain p where "Prepare env (d_state d) claim (d_world d) = (w', p)"
    using prepareResourceClaim_Prepare prepare(4) by blast
  from Prepare_confined [OF assms(2,3) prepare(3) t this] prepare(2) show ?thesis by (simp add: confined_def)
next
  case (unprepare env uid w' e)
  then obtain e' where "Unprepare env (d_state d) uid (d_world d) = (w', e')"
    using unprepareResourceClaim_Unprepare by blast
  from Unprepare_confined [OF assms(2,3) this] unprepare(2) show ?thesis by (simp add: confined_def)
qed (use assms(3) in \<open>auto simp: HandleError_def observeRegistration_def split: option.splits\<close>)

lemma kill_confined:
  assumes "node_inv config T n" "node_step config n (CrashIn ev) n'" "tears ev \<subseteq> T"
    and "(\<exists>env claim. ev = PrepareClaim env claim \<and> claim_UID claim = uid) \<or> (\<exists>env. ev = UnprepareClaim env uid)"
  shows "confined T uid (worldOf n) (worldOf n')"
  using assms(2)
proof cases
  case (crash_in_prepare claim env d w)
  then have "claim_UID claim \<in> T \<or> whole_marker (kv_fs (env_kv env)) metaBase (claim_UID claim)"
    using assms(3) by (auto split: if_splits)
  from prepare_cut_confined [OF crash_in_prepare(5) _ _ crash_in_prepare(4) this] crash_in_prepare assms(1,4)
  show ?thesis by (auto simp: node_inv_def)
next
  case (crash_in_unprepare env d uid' w)
  from unprepare_cut_confined [OF crash_in_unprepare(4)] crash_in_unprepare assms(1,4) show ?thesis by (auto simp: node_inv_def)
qed

lemma node_inv_step:
  assumes "node_inv config T n" "torn_at m \<subseteq> T" "node_step config n m n'"
  shows "node_inv config T n'"
  using assms(3)
proof cases
  case (run d ev d')
  then obtain s0 where s0: "driver_inv UNIV s0 d" "nodeName s0 = flags_nodeName config"
    and w: "stores_ok T (d_world d)" "tidy T (w_fs (d_world d))" "tears ev \<subseteq> T"
    using assms(1,2) by (auto simp: node_inv_def)
  have inv: "driver_inv UNIV s0 d'" by (rule driver_inv_step [OF s0(1) _ run(4)]) simp
  with s0(2) step_tidy [OF run(4) w] stores_ok_step [OF w(1,3) run(4)] run(3) show ?thesis by (auto simp: node_inv_def)
next
  case (crash_in_prepare claim env d w)
  from kill_confined [OF assms(1), of "PrepareClaim env claim" n' "claim_UID claim"] assms(2,3) crash_in_prepare
  show ?thesis by (simp add: node_inv_def confined_def)
next
  case (crash_in_unprepare env d uid w)
  from kill_confined [OF assms(1), of "UnprepareClaim env uid" n' uid] assms(2,3) crash_in_unprepare
  show ?thesis by (simp add: node_inv_def confined_def)
next
  case (starts env w w' d)
  have "w' = w" by (rule start_keeps_world [OF starts(4,5)])
  with NewDriver_inv [OF starts(5)] NewDriver_Inr(2) [OF starts(5)] starts(1,3) assms(1)
    NewDeviceState_Inr(2) [OF NewDriver_Inr(1) [OF starts(5)]] show ?thesis
    by (auto simp: node_inv_def)
next
  case (fails_to_start env w w' err)
  have "w' = w" by (rule start_keeps_world [OF fails_to_start(4,5)])
  with fails_to_start assms(1) show ?thesis by (simp add: node_inv_def)
qed (use assms(1) in \<open>simp add: node_inv_def\<close>)

interpretation node_life: kept "node_step config" "\<lambda>m. torn_at m \<subseteq> T" "node_inv config T" for config T
  by unfold_locales (rule node_inv_step)

lemma life_inv:
  assumes "world_ok w" "tidy {} (w_fs w)" "trace (node_step config) (Down w) ms n"
  shows "node_inv config (torn_in ms) n"
proof (rule node_life.trace_inv [OF assms(3)])
  show "node_inv config (torn_in ms) (Down w)"
    using stores_ok_mono [OF assms(1)] tidy_mono [OF assms(2)] by (simp add: node_inv_def)
  show "list_all (\<lambda>m. torn_at m \<subseteq> torn_in ms) ms" by (auto simp: list_all_iff torn_in_def)
qed

text \<open>A record outlives every kill and every start.\<close>

lemma unprepare_cut_other:
  assumes "unprepare_cut env s uid w x" "u \<noteq> uid"
  shows "recorded (w_claims x) u = recorded (w_claims w) u"
  using assms(1) by cases (auto simp: recorded_def dest: Unprepare_other_claims [OF _ assms(2)])

lemma node_step_keeps:
  assumes "node_step config n m n'" "recorded (w_claims (worldOf n)) uid \<noteq> []"
    and "\<And>env. m \<noteq> Event (UnprepareClaim env uid) \<and> m \<noteq> CrashIn (UnprepareClaim env uid)"
  shows "recorded (w_claims (worldOf n')) uid = recorded (w_claims (worldOf n)) uid"
  using assms(1)
proof cases
  case (run d ev d')
  with step_keeps_record [OF run(4), of uid] assms(2,3) show ?thesis by simp
next
  case (crash_in_prepare claim env d w)
  with prepare_cut_keeps [OF crash_in_prepare(5)] assms(2) show ?thesis by simp
next
  case (crash_in_unprepare env d uid' w)
  with unprepare_cut_other [OF crash_in_unprepare(4), of uid] assms(3) show ?thesis by auto
next
  case (starts env w w' d)
  with start_keeps_world [OF starts(4,5)] NewDriver_Inr(2) [OF starts(5)] show ?thesis by simp
next
  case (fails_to_start env w w' err)
  with start_keeps_world [OF fails_to_start(4,5)] show ?thesis by simp
qed simp

lemma node_keeps:
  assumes "trace (node_step config) n ms n'" "recorded (w_claims (worldOf n)) uid \<noteq> []"
    and "\<And>env. Event (UnprepareClaim env uid) \<notin> set ms \<and> CrashIn (UnprepareClaim env uid) \<notin> set ms"
  shows "recorded (w_claims (worldOf n')) uid = recorded (w_claims (worldOf n)) uid"
  using assms
proof (induction rule: trace.induct)
  case (step ms n1 m n2)
  then show ?case using node_step_keeps [OF step.hyps(2), of uid] by auto
qed simp

end
