(* ===== verification/Recovery_Properties.thy ===== *)
theory Recovery_Properties
  imports Scenario Crash
begin

text \<open>
  Properties of a node over its whole life: scans, calls, kills at any point of a call, and
  restarts. The hypotheses on the start are an empty or tidy metadata tree and well-formed stores;
  those on a call say that the host is ready for it (\<open>host_ready\<close>). \<open>torn_in ms\<close> are the claims for
  which some call of the life, or a kill in one, may have left the owner marker half written: the
  code does not write it atomically, and cannot recover such a claim's metadata by itself.
\<close>

text \<open>
  C4. Whatever happened on the node, kills in the middle of calls included, its stores are
  well-formed, nothing stands in the way of any claim's metadata, torn owner markers excepted: that
  is, for every claim whose marker write was never torn. A running driver has one consistent
  inventory and has published one inventory, as this node's pool. A kill inside a call for a claim
  leaves the records of all other claims, and all files but those of the claim and of claims with a
  torn marker, as they were.
\<close>

theorem node_survives_kills:
  assumes "world_ok w" "tidy {} (w_fs w)" "trace (node_step config) (Down w) ms n"
  shows "stores_ok (torn_in ms) (worldOf n) \<and> tidy (torn_in ms) (w_fs (worldOf n)) \<and>
         (case n of
            Up d \<Rightarrow> consistent (d_state d) \<and> nodeName (d_state d) = flags_nodeName config \<and>
                    (\<exists>devices. d_published d = [(flags_nodeName config, [devices])])
          | Down _ \<Rightarrow> True) \<and>
         (\<forall>ev env claim n'. ev = PrepareClaim env claim \<or> ev = UnprepareClaim env (claim_UID claim) \<longrightarrow>
            node_step config n (CrashIn ev) n' \<longrightarrow>
            confined (torn_in (ms @ [CrashIn ev])) (claim_UID claim) (worldOf n) (worldOf n'))"
proof -
  have inv: "node_inv config (torn_in ms) n" by (rule life_inv [OF assms])
  have "confined (torn_in (ms @ [CrashIn ev])) (claim_UID claim) (worldOf n) (worldOf n')"
    if "ev = PrepareClaim env claim \<or> ev = UnprepareClaim env (claim_UID claim)" "node_step config n (CrashIn ev) n'"
    for ev env claim n'
  proof (rule kill_confined [OF node_inv_mono [OF inv] that(2)])
    show "torn_in ms \<subseteq> torn_in (ms @ [CrashIn ev])" "tears ev \<subseteq> torn_in (ms @ [CrashIn ev])" by (auto simp: torn_in_def)
  qed (use that(1) in blast)
  with inv show ?thesis
    by (auto simp: node_inv_def driver_inv_def published_after_def split: node_state.splits)
qed

definition ex_life :: "moment list" where
  "ex_life = [Start, CrashIn (PrepareClaim ex_env ex_claim), Start]"

lemma ex_start: "node_step ex_config (Down ex_world) Start (Up ex_driver)"
  by (rule starts [OF _ ex_NewDriver]) (simp add: finds_checkpoint_def ex_world_def)

text \<open>The first call was killed after it had written the metadata.\<close>

lemma ex_trace:
  "\<exists>w. trace (node_step ex_config) (Down ex_world) ex_life (Up (ex_driver\<lparr>d_world := w\<rparr>)) \<and> recorded (w_claims w) ''c1'' = []"
proof -
  obtain specs1 pds w2 where p: "prepareDevices ex_env ex_state ex_claim (w_specs ex_world) = (specs1, Inr pds)"
    "writeMetadata ex_env ex_state ex_claim (ex_world\<lparr>w_specs := specs1\<rparr>) = (w2, None)"
    using Prepare_fresh [OF ex_Prepare ex_unrecorded] by blast
  have "prepare_cut ex_env (d_state ex_driver) ex_claim (d_world ex_driver) w2"
    by (rule prepare_cut.metadata [of _ _ _ _ specs1 pds _ None])
       (use p ex_unrecorded in \<open>simp_all add: ex_driver_def\<close>)
  from crash_in_prepare [OF ex_claim_ok this, of ex_config]
  have kill: "node_step ex_config (Up ex_driver) (CrashIn (PrepareClaim ex_env ex_claim)) (Down w2)" .

  have "NewDriver ex_driver_env ex_config w2 = (w2, Inr (ex_driver\<lparr>d_world := w2\<rparr>))"
    by (rule NewDriver_other_world [OF ex_NewDriver, of "[DriverPluginCheckpointFile]"]) (simp_all add: ex_driver_env_def ex_startup_def)
  then have restart: "node_step ex_config (Down w2) Start (Up (ex_driver\<lparr>d_world := w2\<rparr>))"
    by (rule starts [rotated]) (simp add: finds_checkpoint_def ex_driver_env_def ex_startup_def)
  have "trace (node_step ex_config) (Down w2) [Start] (Up (ex_driver\<lparr>d_world := w2\<rparr>))"
    by (rule trace_one [of "node_step ex_config", OF restart])
  from trace_Cons [of "node_step ex_config", OF trace_Cons [of "node_step ex_config", OF this kill] ex_start]
    writeMetadata_frame [OF p(2)]
  show ?thesis by (auto simp: ex_life_def ex_world_def recorded_def)
qed

lemma ex_life_torn [simp]: "torn_in ex_life = {}"
  by (simp add: torn_in_def ex_life_def ex_kv_fs ex_whole_marker)

theorem node_survives_kills_witness:
  "\<exists>w. trace (node_step ex_config) (Down ex_world) ex_life (Up (ex_driver\<lparr>d_world := w\<rparr>)) \<and> world_ok w \<and> tidy {} (w_fs w)"
proof -
  obtain w where t: "trace (node_step ex_config) (Down ex_world) ex_life (Up (ex_driver\<lparr>d_world := w\<rparr>))" using ex_trace by blast
  have "tidy {} (w_fs ex_world)" by (simp add: ex_world_def)
  from node_survives_kills [OF ex_world_ok this t] t show ?thesis by auto
qed

text \<open>
  C5. On a ready host preparing works, whatever the node has been through, kills in the middle of
  earlier attempts included, as long as none of them tore the owner marker of this claim: the call
  answers without an error, a claim that was not prepared gets the devices of its allocation, one
  that was gets what it has, and the answer is recorded.
\<close>

theorem ready_host_prepares:
  assumes "world_ok w" "tidy {} (w_fs w)" "trace (node_step config) (Down w) ms (Up d)"
    and "claim_ok claim" "host_ready env (d_state d) claim" "claim_UID claim \<notin> torn_in ms"
  shows "\<exists>w' r. prepareResourceClaim env (d_state d) claim (d_world d) = (w', r) \<and> pr_Err r = None \<and>
           r = answerOf (recorded (w_claims w') (claim_UID claim)) \<and>
           (if recorded (w_claims (d_world d)) (claim_UID claim) = []
            then pr_Devices r = map (\<lambda>x. kubeletDevice (identity (env_cdi env) (d_state d) claim x)) (driverResults claim)
            else w' = d_world d)"
proof -
  have "tidy (torn_in ms) (w_fs (d_world d))" using life_inv [OF assms(1-3)] by (simp add: node_inv_def)
  from Prepare_works [OF assms(5,4) this assms(6)] obtain w' ds where p: "Prepare env (d_state d) claim (d_world d) = (w', Inr ds)" by blast
  then have c: "prepareResourceClaim env (d_state d) claim (d_world d) = (w', \<lparr>pr_Devices = map kubeletDevice ds, pr_Err = None\<rparr>)"
    by (simp add: prepareResourceClaim_def)
  define r where "r = answerOf (recorded (w_claims w') (claim_UID claim))"
  have r: "\<lparr>pr_Devices = map kubeletDevice ds, pr_Err = None\<rparr> = r" "pr_Err r = None"
    using prepareResourceClaim_recorded [OF c] by (simp_all add: r_def answerOf_def)
  show ?thesis
  proof (cases "recorded (w_claims (d_world d)) (claim_UID claim) = []")
    case True
    with c r Prepare_gives(2) [OF p True] show ?thesis by (auto simp: r_def answerOf_def)
  next
    case False
    with c r Prepare_early [of env "d_world d" claim "d_state d"] p show ?thesis by (auto simp: r_def)
  qed
qed

lemma ex_host_ready: "host_ready ex_env ex_state ex_claim"
proof -
  have up: "shows_up (env_dev ex_env) p" for p
    unfolding shows_up_def by (intro exI [of _ 0]) (simp add: ex_env_def)
  have node: "list_all (\<lambda>r. native ex_state r \<longrightarrow> plain_name (deviceStringAttr (allocated ex_state (res_Device r)) deviceNodeNameAttributeKey))
      (driverResults ex_claim)" by code_simp
  have adm: "\<forall>r \<in> set (driverResults ex_claim). admitted (env_sysfs ex_env) ex_state r"
    by (rule Prepare_gives(3) [OF ex_Prepare ex_unrecorded])
  have dev: "list_all (device_ready ex_env ex_state) (driverResults ex_claim)"
    using node adm up by (auto simp: list_all_iff device_ready_def Let_def)
  have "\<not> isl (getRuntimeUMDEdits ex_cdi (cdi ex_state))" by code_simp
  then have cdi: "cdi_ready (env_cdi ex_env) (cdi ex_state) b" for b
    by (cases "getRuntimeUMDEdits ex_cdi (cdi ex_state)") (simp_all add: cdi_ready_def, simp add: ex_env_def ex_cdi_def)
  have "group_ready ex_env ex_state ex_claim" using up by (simp add: group_ready_def) (simp add: ex_env_def)
  with dev cdi show ?thesis
    by (simp add: host_ready_def) (simp add: ex_env_def ex_claim_def ex_kv_def ex_fs_def healthy_fs_def)
qed

theorem ready_host_prepares_witness:
  "\<exists>w w' r. trace (node_step ex_config) (Down ex_world) ex_life (Up (ex_driver\<lparr>d_world := w\<rparr>)) \<and>
     prepareResourceClaim ex_env ex_state ex_claim w = (w', r) \<and> pr_Err r = None"
proof -
  obtain w where t: "trace (node_step ex_config) (Down ex_world) ex_life (Up (ex_driver\<lparr>d_world := w\<rparr>))" using ex_trace by blast
  have "tidy {} (w_fs ex_world)" by (simp add: ex_world_def)
  from ready_host_prepares [OF ex_world_ok this t ex_claim_ok, of ex_env] t ex_host_ready show ?thesis
    by (auto simp: ex_driver_def)
qed

text \<open>
  C6. Unpreparing works as well, whatever the node has been through, torn markers included: if the
  checkpoint, the CDI cache and the removal of directories work, the call returns without an error
  and the claim has no record afterwards; if it had one, its CDI spec is gone too. (Of a claim that
  is not recorded, as after a kill in preparing it, the call touches nothing.)
\<close>

theorem ready_host_unprepares:
  assumes "world_ok w" "tidy {} (w_fs w)" "trace (node_step config) (Down w) ms (Up d)"
    and "GetCheckpoint_err env = None" "CreateCheckpoint_err env = None"
    and "\<And>n. cache_RemoveSpec_err (env_cdi env) n = None" "removal_works (kv_fs (env_kv env))"
  shows "\<exists>w'. unprepareResourceClaim env (d_state d) uid (d_world d) = (w', None) \<and>
           recorded (w_claims w') uid = [] \<and>
           (if recorded (w_claims (d_world d)) uid = [] then w' = d_world d
            else gm_get (w_specs w') (claimSpecName (env_cdi env) (cdi (d_state d)) uid) = None)"
proof -
  have "fs_ok (w_fs (d_world d))" "tidy (torn_in ms) (w_fs (d_world d))"
    using life_inv [OF assms(1-3)] by (simp_all add: node_inv_def stores_ok_def)
  from Unprepare_works [OF assms(4-7) this] obtain w' where u: "Unprepare env (d_state d) uid (d_world d) = (w', None)"
    by (metis prod.collapse)
  have "recorded (w_claims w') uid = [] \<and> (if recorded (w_claims (d_world d)) uid = [] then w' = d_world d
      else gm_get (w_specs w') (claimSpecName (env_cdi env) (cdi (d_state d)) uid) = None)"
  proof (cases "recorded (w_claims (d_world d)) uid = []")
    case True
    with Unprepare_unrecorded [OF assms(4)] u show ?thesis by simp
  next
    case False
    from Unprepare_ok [OF u False] have "recorded (w_claims w') uid = []"
      "gm_get (w_specs w') (claimSpecName (env_cdi env) (cdi (d_state d)) uid) = None" by (auto simp: recorded_def)
    with False show ?thesis by simp
  qed
  with u show ?thesis by (simp add: unprepareResourceClaim_def)
qed

theorem ready_host_unprepares_witness:
  "\<exists>w w'. trace (node_step ex_config) (Down ex_world) ex_life (Up (ex_driver\<lparr>d_world := w\<rparr>)) \<and>
     unprepareResourceClaim ex_env ex_state ''c1'' w = (w', None)"
proof -
  obtain w where t: "trace (node_step ex_config) (Down ex_world) ex_life (Up (ex_driver\<lparr>d_world := w\<rparr>))" using ex_trace by blast
  have "tidy {} (w_fs ex_world)" by (simp add: ex_world_def)
  from ready_host_unprepares [OF ex_world_ok this t, of ex_env "''c1''"] t show ?thesis
    by (auto simp: ex_driver_def ex_env_def ex_cdi_def ex_kv_def ex_removal_works)
qed

text \<open>
  C7. A prepared claim survives: what a successful call for it answered is answered again, changing
  nothing, by whatever driver runs later on the node, after any number of kills, failed and
  successful starts and other calls, unless the kubelet has begun to unprepare the claim.
\<close>

theorem prepared_claim_survives:
  assumes "prepareResourceClaim env (d_state d) claim (d_world d) = (w1, result)"
    and "pr_Err result = None" "pr_Devices result \<noteq> []"
    and "trace (node_step config) (Up (d\<lparr>d_world := w1\<rparr>)) ms (Up d')"
    and "\<And>e. Event (UnprepareClaim e (claim_UID claim)) \<notin> set ms \<and> CrashIn (UnprepareClaim e (claim_UID claim)) \<notin> set ms"
    and "GetCheckpoint_err env' = None"
  shows "prepareResourceClaim env' (d_state d') claim (d_world d') = (d_world d', result)"
proof -
  let ?rec = "\<lambda>w. recorded (w_claims w) (claim_UID claim)"
  have r: "result = answerOf (?rec w1)" by (rule prepareResourceClaim_recorded [OF assms(1,2)])
  with assms(3) have ne: "?rec w1 \<noteq> []" by (auto simp: answerOf_def)
  then have "?rec (d_world d') = ?rec w1" using node_keeps [OF assms(4) _ assms(5)] by simp
  then show ?thesis
    using Prepare_replay [OF assms(6), of "d_world d'" claim "d_state d'"] ne r
    by (simp add: prepareResourceClaim_def answerOf_def)
qed

theorem prepared_claim_survives_witness:
  "prepareResourceClaim full_env ex_state ex_claim ex_prepared =
     (ex_prepared, \<lparr>pr_Devices = map kubeletDevice ex_devices, pr_Err = None\<rparr>)"
proof -
  let ?d = "ex_driver\<lparr>d_world := ex_prepared\<rparr>"
  have p: "prepareResourceClaim ex_env (d_state ex_driver) ex_claim (d_world ex_driver) =
      (ex_prepared, \<lparr>pr_Devices = map kubeletDevice ex_devices, pr_Err = None\<rparr>)"
    by (simp add: prepareResourceClaim_def ex_driver_def ex_Prepare)
  have "NewDriver ex_driver_env ex_config ex_prepared = (ex_prepared, Inr ?d)"
    by (rule NewDriver_other_world [OF ex_NewDriver, of "[DriverPluginCheckpointFile]"])
       (simp_all add: ex_driver_env_def ex_startup_def)
  then have s: "node_step ex_config (Down ex_prepared) Start (Up ?d)"
    by (rule starts [rotated]) (simp add: finds_checkpoint_def ex_driver_env_def ex_startup_def)
  have k: "node_step ex_config (Up ?d) Crash (Down ex_prepared)" using crash [of ex_config ?d] by simp
  have "trace (node_step ex_config) (Up ?d) [Crash, Start] (Up ?d)"
    by (rule trace_Cons [of "node_step ex_config", OF trace_one [of "node_step ex_config", OF s] k])
  from prepared_claim_survives [OF p _ _ this, of full_env] show ?thesis
    by (simp add: ex_driver_def ex_devices_def full_env_def ex_env_def)
qed

end
