(* ===== verification/Log_Process.thy ===== *)
theory Log_Process
  imports Stderr_Relay
begin

text \<open>
  The logging state of a process: the default logger of slog, the logger and the threshold of
  klog, the logger of grpc, and what was written. \<open>SetupFromEnv\<close> and the bridges of \<open>pkg/logging\<close>
  install them; \<open>internal/logtest\<close> captures what they write and reads it back. How a handler
  renders a record and how JSON is decoded are arguments.
\<close>

section \<open>Installed loggers\<close>

text \<open>A logger with its writer: 0 is standard output, other numbers are the addresses of buffers.\<close>

type_synonym sink = "Logger \<times> nat"

record log_process =
  slog_default :: sink
  klog_logger :: "sink option"
  klog_v :: int
  grpc_logger :: "sink option"
  written :: "nat \<Rightarrow> string"

definition handle :: "(Logger \<Rightarrow> LogRecord \<Rightarrow> string) \<Rightarrow> sink \<Rightarrow> LogRecord \<Rightarrow> log_process \<Rightarrow> log_process" where
  "handle render k r p =
     (if Enabled (fst k) (fst r)
      then p\<lparr>written := (written p)(snd k := written p (snd k) @ render (fst k) r @ [CHR 0x0A])\<rparr> else p)"

definition SetupFromEnv ::
    "(Logger \<Rightarrow> LogRecord \<Rightarrow> string) \<Rightarrow> string \<Rightarrow> string \<Rightarrow> log_process \<Rightarrow> log_process \<times> string \<times> string" where
  "SetupFromEnv render envLogLevel envLogFormat p =
     (case setupFromEnv envLogLevel envLogFormat of
        (logger, level, format, warns) \<Rightarrow>
          ((fold (handle render (logger, 0)) warns p)\<lparr>slog_default := (logger, 0)\<rparr>, level, format))"

definition installKlog :: "string \<Rightarrow> log_process \<Rightarrow> log_process" where
  "installKlog level p = p\<lparr>klog_logger := Some (slog_default p), klog_v := BridgeKlog level\<rparr>"

definition BridgeGrpclog :: "log_process \<Rightarrow> log_process" where
  "BridgeGrpclog p = p\<lparr>grpc_logger := Some (slog_default p)\<rparr>"

text \<open>
  The ways a record is emitted: by the default logger, by the logger of a context, and by
  \<open>klog.V(n)\<close>, which asks klog's threshold first. Without a bridge klog writes its own text to
  standard error, which is not part of the state.
\<close>

datatype emission =
    BySlog LogRecord
  | ByContext log_ctx LogRecord
  | ByKlogV nat string "(string \<times> string) list"

fun emit :: "(Logger \<Rightarrow> LogRecord \<Rightarrow> string) \<Rightarrow> emission \<Rightarrow> log_process \<Rightarrow> log_process" where
  "emit render (BySlog r) p = handle render (slog_default p) r p"
| "emit render (ByContext ctx r) p =
     (case klog_logger p of
        None \<Rightarrow> p
      | Some k \<Rightarrow> fold (handle render k) (FromContext ctx (fst k) r) p)"
| "emit render (ByKlogV n msg attrs) p =
     (if klog_v p < int n then p
      else case klog_logger p of None \<Rightarrow> p | Some k \<Rightarrow> handle render k (Level (- int n), msg, attrs) p)"

section \<open>Captured output\<close>

text \<open>
  \<open>logtest\<close>. \<open>buf\<close> is the address of the new buffer; \<open>Inl\<close> is a failed test. \<open>cleanup\<close> is what runs
  when the test ends, with the old default logger.
\<close>

definition Capture :: "nat \<Rightarrow> string \<Rightarrow> log_process \<Rightarrow> log_process result" where
  "Capture buf level p =
     (case NewLogger level ''json'' of
        Inl err \<Rightarrow> Inl err
      | Inr logger \<Rightarrow>
          Inr (installKlog level (p\<lparr>slog_default := (logger, buf), written := (written p)(buf := [])\<rparr>)))"

definition cleanup :: "sink \<Rightarrow> log_process \<Rightarrow> log_process" where
  "cleanup old p = (installKlog ''info'' p)\<lparr>klog_logger := None, slog_default := old\<rparr>"

fun decodeLines :: "(string \<Rightarrow> 'm result) \<Rightarrow> string list \<Rightarrow> 'm list result" where
  "decodeLines unmarshal [] = Inr []"
| "decodeLines unmarshal (line # lines) =
     (if line = [] then decodeLines unmarshal lines
      else case unmarshal line of
             Inl err \<Rightarrow> Inl (Errorf ''log line not JSON: %v: %s'' [line])
           | Inr m \<Rightarrow> (case decodeLines unmarshal lines of Inl err \<Rightarrow> Inl err | Inr ms \<Rightarrow> Inr (m # ms)))"

definition Lines :: "(string \<Rightarrow> 'm result) \<Rightarrow> string \<Rightarrow> 'm list result" where
  "Lines unmarshal buf = decodeLines unmarshal (Split (CHR 0x0A) (TrimSpace buf))"

fun Find :: "(string, string) gomap list \<Rightarrow> string \<Rightarrow> (string, string) gomap option" where
  "Find [] msg = None"
| "Find (m # lines) msg = (if gm_get m ''msg'' = Some msg then Some m else Find lines msg)"

section \<open>What a bridged process writes\<close>

text \<open>The records of an emission that pass the level of the installed logger.\<close>

fun passed :: "Logger \<Rightarrow> emission \<Rightarrow> LogRecord list" where
  "passed logger (BySlog r) = FromContext [] logger r"
| "passed logger (ByContext ctx r) = FromContext ctx logger r"
| "passed logger (ByKlogV n msg attrs) = FromContext [] logger (Level (- int n), msg, attrs)"

definition rendered :: "(Logger \<Rightarrow> LogRecord \<Rightarrow> string) \<Rightarrow> Logger \<Rightarrow> LogRecord list \<Rightarrow> string" where
  "rendered render logger rs = concat (map (\<lambda>r. render logger r @ [CHR 0x0A]) rs)"

definition bridged :: "Logger \<Rightarrow> nat \<Rightarrow> log_process \<Rightarrow> bool" where
  "bridged logger k p \<longleftrightarrow>
     slog_default p = (logger, k) \<and> klog_logger p = Some (logger, k) \<and> klog_v p = klogVerbosity (log_Level logger)"

text \<open>klog's threshold and the gate of the logger agree, so nothing that passes the gate is lost.\<close>

lemma klog_gates_agree:
  "klogVerbosity (log_Level logger) < int n \<Longrightarrow> \<not> Enabled logger (Level (- int n))"
  by (cases "log_Level logger") (auto simp: klogVerbosity_def Enabled_def less_eq_Level_def max_def split: if_splits)

lemma emit_bridged:
  assumes "bridged logger k p"
  shows "emit render e p = p\<lparr>written := (written p)(k := written p k @ rendered render logger (passed logger e))\<rparr>"
  using assms
  by (cases e)
     (auto simp: bridged_def handle_def rendered_def FromContext_def klog_gates_agree not_less split: prod.splits)

lemma emit_keeps_bridged: "bridged logger k p \<Longrightarrow> bridged logger k (emit render e p)"
  by (simp add: emit_bridged) (simp add: bridged_def)

lemma emits_bridged:
  assumes "bridged logger k p"
  shows "written (fold (emit render) es p) k = written p k @ rendered render logger (concat (map (passed logger) es))"
  using assms
proof (induction es arbitrary: p)
  case (Cons e es)
  from Cons.IH [OF emit_keeps_bridged [OF Cons.prems]] show ?case
    by (simp add: emit_bridged [OF Cons.prems] rendered_def)
qed (simp add: rendered_def)

lemma Capture_bridged:
  "Capture buf level p = Inr p' \<Longrightarrow> \<exists>logger. NewLogger level ''json'' = Inr logger \<and> bridged logger buf p' \<and> written p' buf = []"
  by (auto simp: Capture_def installKlog_def bridged_def BridgeKlog_def NewLogger_def newLogger_def split: sum.splits)

lemma Setup_bridged:
  assumes "SetupFromEnv render envLevel envFormat p = (p', level, format)"
  shows "\<exists>logger. bridged logger 0 (installKlog level p') \<and> log_Format logger = format"
proof -
  obtain logger warns where s: "setupFromEnv envLevel envFormat = (logger, level, format, warns)"
    "slog_default p' = (logger, 0)"
    using assms by (auto simp: SetupFromEnv_def split: prod.splits)
  let ?l = "case parseLevel envLevel of Inr l \<Rightarrow> l | Inl _ \<Rightarrow> LevelInfo"
  have l: "?l \<in> standardLevels" by (auto simp: parseLevel_def Let_def)
  from s(1) have "level = levelName ?l" "log_Level logger = ?l" "log_Format logger = format"
    by (auto simp: setupFromEnv_def Let_def newLogger_def parseFormat_def split: if_splits)
  with s(2) parseLevel_levelName [OF l] show ?thesis by (auto simp: installKlog_def bridged_def BridgeKlog_def)
qed

section \<open>Reading back\<close>

text \<open>A line that a JSON handler writes: an object, without blanks around it or line breaks in it.\<close>

definition one_line :: "string \<Rightarrow> bool" where
  "one_line s \<longleftrightarrow> s \<noteq> [] \<and> \<not> is_space (hd s) \<and> \<not> is_space (last s) \<and> CHR 0x0A \<notin> set s"

lemma TrimSpace_framed:
  assumes "s \<noteq> []" "\<not> is_space (hd s)" "\<not> is_space (last s)" "list_all is_space sp"
  shows "TrimSpace (s @ sp) = s"
proof -
  have 1: "dropWhile is_space (s @ sp) = s @ sp" using assms(1,2) by (cases s) auto
  have "dropWhile is_space (rev sp @ rev s) = dropWhile is_space (rev s)"
    using assms(4) by (intro dropWhile_append2) (simp add: list_all_iff)
  also have "\<dots> = rev s" using assms(1,3) by (cases s rule: rev_cases) auto
  finally show ?thesis by (simp add: TrimSpace_def 1)
qed

lemma rendered_Join:
  "ls \<noteq> [] \<Longrightarrow> concat (map (\<lambda>s. s @ [c]) ls) = Join_with [c] ls @ [c]"
  by (induction "[c]" ls rule: Join_with.induct) auto

lemma Join_with_ends:
  assumes "ls \<noteq> []" "list_all one_line ls"
  shows "Join_with sep ls \<noteq> [] \<and> hd (Join_with sep ls) = hd (hd ls) \<and> last (Join_with sep ls) = last (last ls)"
  using assms by (induction sep ls rule: Join_with.induct) (auto simp: one_line_def hd_append)

lemma Lines_written:
  assumes "list_all one_line ls"
  shows "Lines unmarshal (concat (map (\<lambda>s. s @ [CHR 0x0A]) ls)) = decodeLines unmarshal ls"
proof (cases "ls = []")
  case True
  then show ?thesis by (simp add: Lines_def TrimSpace_def)
next
  case False
  note ends = Join_with_ends [OF this assms, of "[CHR 0x0A]"]
  have "one_line (hd ls)" "one_line (last ls)" using assms False by (auto simp: list_all_iff)
  with ends have "TrimSpace (Join_with [CHR 0x0A] ls @ [CHR 0x0A]) = Join_with [CHR 0x0A] ls"
    by (intro TrimSpace_framed) (auto simp: one_line_def, simp add: is_space_def)
  moreover have "Split (CHR 0x0A) (Join_with [CHR 0x0A] ls) = ls"
    using assms False by (intro Split_Join_with) (auto simp: one_line_def list_all_iff)
  ultimately show ?thesis by (simp add: Lines_def rendered_Join [OF False])
qed

lemma decodeLines_map:
  assumes "list_all (\<lambda>r. enc r \<noteq> [] \<and> unmarshal (enc r) = Inr (dec r)) rs"
  shows "decodeLines unmarshal (map enc rs) = Inr (map dec rs)"
  using assms by (induction rs) auto

text \<open>
  After \<open>Capture\<close>, whichever way records are emitted, \<open>Lines\<close> returns the ones that pass the
  captured level, in order.
\<close>

lemma captured_lines:
  assumes "Capture buf level p = Inr p'" "NewLogger level ''json'' = Inr logger"
    and "\<And>r. one_line (render logger r)" "\<And>r. unmarshal (render logger r) = Inr (dec r)"
  shows "Lines unmarshal (written (fold (emit render) es p') buf) =
           Inr (map dec (concat (map (passed logger) es)))"
proof -
  from Capture_bridged [OF assms(1)] assms(2) have b: "bridged logger buf p'" "written p' buf = []" by auto
  let ?rs = "concat (map (passed logger) es)"
  have "written (fold (emit render) es p') buf = concat (map (\<lambda>s. s @ [CHR 0x0A]) (map (render logger) ?rs))"
    by (simp add: emits_bridged [OF b(1)] b(2) rendered_def comp_def)
  moreover have "decodeLines unmarshal (map (render logger) ?rs) = Inr (map dec ?rs)"
    using assms(3,4) by (intro decodeLines_map) (simp add: list_all_iff one_line_def)
  moreover have "list_all one_line (map (render logger) ?rs)" using assms(3) by (simp add: list_all_iff)
  ultimately show ?thesis by (simp only: Lines_written)
qed

text \<open>
  The end of a test puts klog back to its initial state, which is what it was before the test only
  if no other capture was open.
\<close>

lemma cleanup_restores:
  assumes "Capture buf level p = Inr p'" "klog_logger p = None" "klog_v p = 0"
  shows "cleanup (slog_default p) p' = p\<lparr>written := written p'\<rparr>"
  using assms by (auto simp: Capture_def cleanup_def installKlog_def BridgeKlog_def parseLevel_def Let_def
      TrimSpace_def is_space_def ToLower_def lower_char_def klogVerbosity_def level_defs split: sum.splits)

end
