(* ===== verification/Webhook_Main.thy ===== *)
theory Webhook_Main
  imports Webhook Cli Consts
begin

text \<open>
  \<open>cmd/webhook/main.go\<close>: the flags of the webhook, the server its action starts, and \<open>main\<close>. The
  HTTP server is library code: \<open>listen\<close> answers \<open>ListenAndServeTLS\<close> for an address, a certificate
  and a key, and only ever returns an error.
\<close>

record WebhookFlags =
  wf_certFile :: string
  wf_keyFile :: string
  wf_port :: int

definition webhookFlags :: "cli_flag list" where
  "webhookFlags =
     [\<lparr>fl_Name = ''tls-cert-file'', fl_Aliases = [], fl_Value = StringFlag [], fl_EnvVars = [], fl_Required = True\<rparr>,
      \<lparr>fl_Name = ''tls-private-key-file'', fl_Aliases = [], fl_Value = StringFlag [], fl_EnvVars = [],
       fl_Required = True\<rparr>,
      \<lparr>fl_Name = ''port'', fl_Aliases = [], fl_Value = IntFlag 443, fl_EnvVars = [], fl_Required = False\<rparr>]"

definition webhookConfig :: "flag_values \<Rightarrow> WebhookFlags" where
  "webhookConfig v = \<lparr>wf_certFile = stringOf (v ''tls-cert-file''), wf_keyFile = stringOf (v ''tls-private-key-file''),
                     wf_port = intOf (v ''port'')\<rparr>"

text \<open>The action: the record of the start and the error the server ends with.\<close>

definition webhookAction ::
    "string \<Rightarrow> string \<Rightarrow> string \<Rightarrow> (string \<Rightarrow> string \<Rightarrow> string \<Rightarrow> goerr) \<Rightarrow> flag_values \<Rightarrow> goerr \<times> LogRecord" where
  "webhookAction version logLevel logFormat listen v =
     (let flags = webhookConfig v; addr = '':'' @ FormatInt (wf_port flags) in
      (listen addr (wf_certFile flags) (wf_keyFile flags),
       (LevelInfo, ''Starting webhook server'',
        [(''version'', version), (''addr'', addr), (''driverName'', DriverName),
         (''logLevel'', logLevel), (''logFormat'', logFormat)])))"

text \<open>\<open>main\<close>: klog's threshold, the records, and the exit status for the error of the app.\<close>

definition webhookMain ::
    "string \<Rightarrow> string \<Rightarrow> string \<Rightarrow> parse_answer \<Rightarrow> (string \<Rightarrow> string \<Rightarrow> string \<Rightarrow> goerr) \<Rightarrow> int \<times> LogRecord list \<times> nat" where
  "webhookMain envLevel envFormat version parsed listen =
     (let (logger, level, format, warns) = setupFromEnv envLevel envFormat;
          (runErr, logs) = appRun parsed
             (\<lambda>v. case webhookAction version level format listen v of (err, r) \<Rightarrow> (Some err, [r]))
             (\<lambda>err. (err, []));
          records = logs @ (if runErr \<noteq> None then [(LevelError, ''Command failed'', [])] else [])
      in (BridgeKlog level, warns @ filter (\<lambda>r. Enabled logger (fst r)) records, if runErr \<noteq> None then 1 else 0))"

text \<open>The webhook never stops by itself without an error: only a request for help ends it well.\<close>

lemma webhookMain_exit:
  "snd (snd (webhookMain envLevel envFormat version parsed listen)) = 0 \<longleftrightarrow> parsed = Inl None"
  by (auto simp: webhookMain_def appRun_def Let_def split: prod.splits sum.splits option.splits)

end
