(* ===== verification/Findings.thy ===== *)
theory Findings
  imports Scenario
begin

text \<open>
  Runs of the model on which the code does something other than it, or its comments, mean to do.
\<close>

section \<open>Startup does not check for a function in both results\<close>

text \<open>
  A function that is bound to vfio-pci when the passthrough pass reads it and to the native driver
  when the native pass does.
\<close>

definition rebound_sysfs :: sysfs where
  "rebound_sysfs = ex_sysfs\<lparr>os_Readlink := lookup
     ((''/s/0000:3b:00.0/driver'', ''../../bus/pci/drivers/rebellions'') # ex_links)\<rparr>"

definition rebound_scan :: scan_env where
  "rebound_scan = \<lparr>view_vfio = ex_sysfs, view_count = rebound_sysfs, view_npu = rebound_sysfs,
                   inventoryFn = Inr [ex_smi\<lparr>smi_PCIBusID := ''0000:3b:00.0''\<rparr>]\<rparr>"

definition rebound_startup :: startup_env where
  "rebound_startup = \<lparr>st_scan = rebound_scan, st_NewCache = Inr (), st_NewCheckpointManager_err = None,
                      st_ListCheckpoints = Inr [], st_CreateCheckpoint_err = None\<rparr>"

text \<open>
  The scan refuses to offer one function twice and keeps the old inventory; startup, on the same
  reads, offers it once as a native and once as a passthrough device.
\<close>

theorem startup_may_offer_twice:
  "rs_err (RescanDevices rebound_scan empty_state) \<noteq> None \<and>
   (case snd (NewDeviceState rebound_startup ex_config ex_world) of
      Inl _ \<Rightarrow> False
    | Inr s \<Rightarrow> map lowerBus (npuDevices s @ vfioDevices s) = [''0000:3b:00.0'', ''0000:3b:00.0''])"
  by code_simp

text \<open>
  A sysfs failure at startup is not the first tick of a failing streak: the first failing scan
  reports it again, unlike an rbln-smi failure.
\<close>

theorem startup_sysfs_failure_reported_again:
  "(case snd (NewDeviceState (rebound_startup\<lparr>st_scan := dead_scan\<rparr>) ex_config ex_world) of
      Inl _ \<Rightarrow> False
    | Inr s \<Rightarrow> failedRead \<in> set (rs_logs (RescanDevices dead_scan s)))"
  by code_simp

section \<open>A torn owner marker\<close>

text \<open>
  The write of the owner marker fails after the file was truncated. The rollback does not find
  the directory, and no later attempt, on a healthy host, can prepare the claim.
\<close>

definition torn_env :: prep_env where
  "torn_env = ex_env\<lparr>env_kv := ex_kv\<lparr>kv_fs := ex_fs\<lparr>write_fault := (\<lambda>p.
     if p = kubevirtMetadataHostDir kubevirtMetadataBasePath ''c1'' @ ''/.claim-uid''
     then Some (OsError ''write'' ''no space left on device'', Some 0) else None)\<rparr>\<rparr>\<rparr>"

theorem torn_marker_blocks_claim:
  "isl (snd (Prepare torn_env ex_state ex_claim ex_world)) \<and>
   isl (snd (Prepare ex_env ex_state ex_claim (fst (Prepare torn_env ex_state ex_claim ex_world))))"
  by code_simp

section \<open>A removal that was cut short\<close>

text \<open>
  The removal of a claim's metadata fails, or the plugin is killed in it, after the owner marker is
  gone. The kubelet's next \<open>Unprepare\<close> succeeds and forgets the claim, but does not recognise the
  directory any more: the metadata file stays on the host.
\<close>

definition torn_removal :: prep_env where
  "torn_removal = ex_env\<lparr>env_kv := ex_kv\<lparr>kv_fs := ex_fs\<lparr>
     fs_fault := (\<lambda>c p. if c = RemoveAllCall then Some (OsError ''unlinkat'' ''input/output error'') else None),
     remove_left := (\<lambda>k. last k \<noteq> ''.claim-uid'')\<rparr>\<rparr>\<rparr>"

theorem torn_removal_leaks_metadata:
  "(case Unprepare torn_removal ex_state ''c1'' ex_prepared of
      (w1, e1) \<Rightarrow> e1 \<noteq> None \<and>
        (case Unprepare ex_env ex_state ''c1'' w1 of
           (w2, e2) \<Rightarrow> e2 = None \<and> gm_get (w_claims w2) ''c1'' = None \<and>
             gm_get (w_fs w2) (claimDirOf ''c1'' @ [''vm'', metadataFile]) = Some (File ''{}'')))"
  by code_simp

section \<open>A failed checkpoint leaves the CDI spec\<close>

text \<open>
  When the checkpoint cannot be written the claim's CDI spec stays, and \<open>Unprepare\<close>, which does
  nothing for a claim that is not recorded, does not remove it either.
\<close>

theorem failed_checkpoint_leaves_spec:
  "isl (snd (Prepare full_env ex_state ex_claim ex_world)) \<and>
   gm_get (w_specs (fst (Unprepare ex_env ex_state ''c1'' (fst (Prepare full_env ex_state ex_claim ex_world)))))
     ''claim_c1'' \<noteq> None"
  by code_simp

section \<open>A node name that is a slash\<close>

text \<open>
  \<open>filepath.Base\<close> of \<open>/\<close> is \<open>/\<close>, so a device whose node name is a single slash passes the guard of
  \<open>applyConfig\<close>, and \<open>/dev\<close> itself is what is injected.
\<close>

definition slash_npu :: Device where
  "slash_npu = npuDevice ex_sysfs ''/s'' (ex_smi\<lparr>smi_Name := ''/''\<rparr>) no_sriov"

theorem slash_name_injects_dev:
  "(case applyConfig (env_dev ex_env) (indexDevices [slash_npu]) (Name slash_npu) ''/dev/rsd1'' of
      Inl _ \<Rightarrow> False
    | Inr edits \<Rightarrow> map node_HostPath (DeviceNodes edits) = [''/dev/rsd1'', ''/dev''])"
  by code_simp

section \<open>A failed publication is not tried again\<close>

text \<open>
  The first tick finds the devices, and their publication fails. On the next ticks nothing has
  changed, so nothing is published although publishing would succeed: the scheduler is not told
  of the devices until the inventory changes again.
\<close>

definition publishing :: "goerr option \<Rightarrow> scan_tick" where
  "publishing err = \<lparr>tick_env = ex_scan, tick_took = 0, tick_publish = (\<lambda>r. err)\<rparr>"

theorem failed_publication_not_retried:
  "(case runDeviceScan 5 [publishing (Some (ErrLib ''timeout'')), publishing None, publishing None]
           (empty_state, driverResources empty_state) of
      (s, pub) \<Rightarrow> npuDevices s = [ex_npu] \<and> vfioDevices s = [ex_vfio] \<and> pub = driverResources empty_state)"
  by code_simp

end
