(* ===== verification/Spec2Isabelle.thy ===== *)
theory Spec2Isabelle
  imports Scan_Properties Claim_Properties Node_Properties Driver_Properties Service_Properties Recovery_Properties
    Log_Process Webhook_Main Findings
begin

text \<open>
  A model of the Rebellions NPU driver for Kubernetes Dynamic Resource Allocation, with the
  theorems that make it correct. The driver is two programs: \<open>cmd/npu-kubelet-plugin\<close>, which runs on
  every NPU node, discovers the NPUs, publishes them and prepares claims; and \<open>cmd/webhook\<close>, which
  validates claim objects on admission.

  \<^bold>\<open>How the plugin works.\<close> At startup (\<open>NewDeviceState\<close>) and then on every tick of the scan loop
  (\<open>runDeviceScan\<close>, \<open>RescanDevices\<close>) it reads two inventories: NPUs bound to vfio-pci, from sysfs
  alone, and NPUs bound to the native driver, from rbln-smi checked against sysfs. Both together
  are one node pool that the kubelet plugin library publishes. When the kubelet asks for a claim
  (\<open>Prepare\<close>) the driver validates the allocated devices against the live sysfs, creates an RSD
  group for the native ones, works out what each device injects into the container, writes
  metadata for KubeVirt if there is a passthrough device, writes a CDI spec and records the claim
  in a checkpoint. \<open>Unprepare\<close> takes it all back.

  \<^bold>\<open>Theories and source files.\<close> Paths are below \<open>src/\<close>; \<open>plugin\<close> is \<open>cmd/npu-kubelet-plugin\<close>.
  \<^item> \<open>Go_Prelude\<close>, \<open>Go_Strings\<close>: Go itself. Errors (\<open>goerr\<close>, with \<open>errors.Is\<close> following \<open>%w\<close>), fallible
    results (\<open>result\<close>), maps (\<open>gomap\<close>), \<open>strings\<close>, \<open>strconv\<close>, \<open>filepath\<close>. \<open>Host_Fs\<close>: the file tree
    that \<open>os\<close> writes. \<open>Histories\<close>: histories of labelled step relations.
  \<^item> \<open>Pci_Sysfs\<close> (\<open>plugin/pci_sysfs.go\<close>), \<open>Resource_Api\<close> (attributes in \<open>plugin/state.go\<close>), \<open>Sriov\<close>
    (\<open>plugin/sriov.go\<close>), \<open>Enumeration\<close>, \<open>Vfio\<close> (\<open>plugin/vfio.go\<close>), \<open>Inventory\<close>
    (\<open>npuDevicesFromInventory\<close> in \<open>state.go\<close>, \<open>countNativeCandidates\<close> in \<open>scan.go\<close>): discovery.
    \<open>Published\<close>: the type of what is published (attribute kinds, DNS labels as names).
  \<^item> \<open>Consts\<close> (\<open>pkg/consts\<close>), \<open>Logging\<close> (\<open>pkg/logging/logging.go\<close>), \<open>Stderr_Relay\<close> (\<open>glog.go\<close> and
    \<open>grpclog.go\<close> beside it), \<open>Log_Process\<close> (the loggers a process has installed, and
    \<open>internal/logtest\<close>, which captures what they write), \<open>Device_State\<close> (\<open>DeviceState\<close> in \<open>state.go\<close>), \<open>Scan\<close>
    (\<open>plugin/scan.go\<close>), \<open>Validate\<close> (\<open>plugin/validate_device.go\<close>).
  \<^item> \<open>Prepared\<close> (\<open>plugin/types.go\<close>, \<open>plugin/checkpoint.go\<close>), \<open>Cdi\<close> (\<open>plugin/cdi.go\<close>), \<open>Device_Nodes\<close>
    (waiting for nodes and container edits in \<open>state.go\<close>, \<open>vfio.go\<close>), \<open>Rsd_Group\<close>
    (\<open>plugin/rsd_group.go\<close>), \<open>Kubevirt_Metadata\<close> (\<open>plugin/kubevirt_metadata.go\<close>) with the frame lemmas
    of \<open>Kubevirt_Writes\<close> and \<open>Kubevirt_Rollback\<close> and, for a host without faults, \<open>Kubevirt_Success\<close>.
  \<^item> \<open>Prepare\<close> (\<open>Prepare\<close>, \<open>Unprepare\<close>, \<open>prepareDevices\<close> in \<open>state.go\<close>), \<open>Prepare_Devices\<close> (its loops
    against reference definitions), \<open>Claim_Lifecycle\<close> and \<open>Claim_World\<close> (successes, failures, frames,
    the invariants \<open>stores_ok\<close> and \<open>world_ok\<close>), \<open>Prepare_Success\<close> (when the calls cannot fail).
  \<^item> \<open>Startup\<close> (\<open>NewDeviceState\<close>), \<open>Health\<close> (\<open>plugin/health.go\<close>), \<open>Driver\<close> and \<open>Request_Log\<close>
    (\<open>plugin/driver.go\<close>), \<open>Crash\<close> (kills and restarts), \<open>Cli\<close> (the
    shape of flags; \<open>pkg/flags/kubeclient.go\<close>), \<open>Plugin_Main\<close> (\<open>plugin/main.go\<close>: flags, \<open>RunPlugin\<close> to its
    shutdown, \<open>main\<close>), \<open>Webhook\<close> and \<open>Webhook_Main\<close> (\<open>cmd/webhook\<close>).
  \<^item> \<open>Scenario\<close>: a concrete node on which the witnesses run. \<open>Scan_Properties\<close>, \<open>Claim_Properties\<close>,
    \<open>Node_Properties\<close>, \<open>Driver_Properties\<close>, \<open>Service_Properties\<close>, \<open>Recovery_Properties\<close>: the properties, numbered \<open>C1\<close> to \<open>C40\<close>
    by importance. \<open>Findings\<close>: runs on which the code misbehaves.

  \<^bold>\<open>State.\<close> \<open>DeviceState\<close> (record) is the struct without its mutex and its injected functions.
  \<open>world\<close> is what lives outside the process: checkpointed claims, CDI spec directory, metadata
  tree. \<open>driver\<close> puts both beside the registration flag, the cancellation cause, the last published
  resources, the scan in flight and the services that were started. A function of the code is one definition that takes the
  state and the environment and returns the new state and the result; every early return and
  error is a branch.

  \<^bold>\<open>Environment.\<close> What is not in the repository is an argument. A \<open>sysfs\<close> record answers the \<open>os\<close>
  calls on sysfs with arbitrary, even contradictory answers, one record per pass, so the host may
  change between the reads of one tick. \<open>scan_env\<close>, \<open>startup_env\<close>, \<open>prep_env\<close>, \<open>cdi_env\<close>, \<open>dev_env\<close>,
  \<open>rsd_env\<close>, \<open>kv_env\<close>, \<open>driver_env\<close>, \<open>plugin_env\<close>, \<open>kube_env\<close> and \<open>webhook_env\<close> hold the answers of rbln-smi, the checkpoint manager, the CDI
  library, the clock, rblnlib-go, JSON and the Kubernetes codec. Faults of the host file system are
  in \<open>fs_env\<close>, a torn write included.

  \<^bold>\<open>Concurrency.\<close> The mutex makes \<open>Prepare\<close>, \<open>Unprepare\<close> and the two locked parts of a scan atomic;
  \<open>driver_step\<close> interleaves them freely with registrations, signals and background errors, and \<open>runs\<close>
  collects the histories that start from what \<open>NewDriver\<close> returned. An event carries what the step read:
  a scan its tick (the views of sysfs, the answer of rbln-smi and the verdict on publishing), a call its
  claim and environment; so a property can say of which scan the inventory is (\<open>last_reading\<close>) and by
  which call's reading a device was live. The claims of a batch are separate calls, each with the
  inventory of its own moment. The invariant \<open>driver_inv\<close> is proved by rule induction, and so is that
  only unpreparing a claim takes it out of the checkpoint.

  \<^bold>\<open>Kills and restarts.\<close> \<open>node_step\<close> is the life of a node whose plugin may be killed at any time, in
  the middle of a call included, and started again. \<open>prepare_cut\<close> and \<open>unprepare_cut\<close> say which worlds
  a call that is cut short can leave: each prefix of its effects, and within a group of file system
  calls whatever a fault of one of them leaves, because the code returns at its first failing call.
  \<open>MkdirAll\<close>, \<open>RemoveAll\<close> and every write may be half done, that of the owner marker included. A marker
  that is torn names no claim, and the code does not recover from it (\<open>Findings\<close>), so the invariants are
  relative to a set \<open>T\<close> of claims whose marker may be torn: \<open>stores_ok T\<close>, \<open>tidy T\<close>, \<open>confined T\<close>, with
  \<open>world_ok\<close> for none. \<open>torn evs\<close> and \<open>torn_in ms\<close> are the claims for which a history had a call, or a
  kill in one, whose environment tears the marker. The invariant \<open>node_inv\<close> holds through every life
  (\<open>C4\<close>), calls on a ready host succeed in it (\<open>C5\<close>, for a claim without torn marker, and \<open>C6\<close>;
  \<open>host_ready\<close> says what a host must offer), and what was prepared stays prepared (\<open>C7\<close>). A restart is
  taken to find the checkpoint file in its directory if a claim was ever recorded
  (\<open>finds_checkpoint\<close>); what the checkpoint manager lists is its own answer, as in the code.

  \<^bold>\<open>Abstract specification.\<close> \<open>Driver_Spec\<close> states what the node promises: \<open>node_spec\<close> holds the
  inventory, what is offered, what each claim was given, readiness and the cause to stop, and
  \<open>spec_step\<close> says how one event may change them. \<open>absDriver\<close> reads a \<open>node_spec\<close> off a driver; every
  history of the driver is one of the abstract node (\<open>C2\<close>), and the records of the driver trace back
  to a \<open>Prepare\<close> that found the devices live (\<open>C3\<close>).

  \<^bold>\<open>Interfaces.\<close> Five locales state what a part relies on: \<open>keyed_store\<close> (maps), \<open>device_source\<close> (a
  loop body of an enumeration), \<open>claim_service\<close> (one call of a batch), \<open>kept\<close> (an invariant of
  steps whose labels are allowed) and its extension \<open>simulation\<close>, each interpreted on the model: \<open>gm\<close>;
  \<open>vfio\<close> and \<open>npu\<close>; \<open>preparing\<close> and \<open>unpreparing\<close>; \<open>invariant\<close> and \<open>stores\<close> (the driver) and \<open>node_life\<close>
  (the node); \<open>node\<close>.

  \<^bold>\<open>Loops and bounds.\<close> All loops are total definitions and need no fuel. Loops over slices are
  structural; the poll of \<open>waitForDeviceNode\<close> ends by a measure, because each turn moves the clock
  by at least the 100 ms interval towards the 5 s timeout; the stderr relay ends because every
  turn consumes a line of the stream, which the model takes as finite. Integers that \<open>strconv\<close> reads are \<open>int\<close>
  with the 64-bit range check written out, checksums are \<open>64 word\<close>, owner ids and
  permission bits \<open>32 word\<close>. Log levels are \<open>int\<close>: \<open>klogVerbosity\<close> negates them, which would wrap only
  at the least \<open>int64\<close>, a level no record of the driver has.

  \<^bold>\<open>Not modelled.\<close> The bodies of third-party libraries (kubeletplugin, CDI, rblnlib-go, the API
  machinery, urfave/cli's parser, slog's handlers); sockets and TLS; the text of log records beyond
  level, message and the attributes that identify a device, and debug records on the claim path. Symbolic links in the metadata tree do not
  occur. A nil and an empty slice are the same value: the driver builds its slices by appending to
  nil.
\<close>

end
